theory Spec2Isabelle
  imports Main
begin

section \<open>Strings, decimal rendering and time values\<close>

text \<open>
  Go strings are byte sequences; they are modelled as \<open>string\<close> (a list of 8-bit
  characters). The characters the source writes with escapes are named here.
\<close>

definition bslash :: char where "bslash = CHR 0x5C"
definition squote :: char where "squote = CHR 0x27"
definition dquote :: char where "dquote = CHR 0x22"
definition bquote :: char where "bquote = CHR 0x60"
definition LF :: char where "LF = CHR 0x0A"
definition CR :: char where "CR = CHR 0x0D"
definition NUL :: char where "NUL = CHR 0x00"
definition SUB :: char where "SUB = CHR 0x1A"
definition TAB :: char where "TAB = CHR 0x09"
definition FF :: char where "FF = CHR 0x0C"

text \<open>The decimal digits of a natural number, as \<open>%d\<close> prints them.\<close>

fun natstr :: "nat \<Rightarrow> string" where
  "natstr n = (if n < 10 then [''0123456789'' ! n]
               else natstr (n div 10) @ [''0123456789'' ! (n mod 10)])"

declare natstr.simps [simp del]

definition itoa :: "int \<Rightarrow> string" where
  "itoa i = (if i < 0 then CHR ''-'' # natstr (nat (- i)) else natstr (nat i))"

text \<open>
  \<open>appendInt\<close> of Go's package \<open>time\<close>: the decimal text of \<open>x\<close>, zero-padded to
  \<open>width\<close> digits, after a minus sign when \<open>x\<close> is negative.
\<close>

definition appendInt :: "int \<Rightarrow> nat \<Rightarrow> string" where
  "appendInt x width =
     (let u = natstr (nat \<bar>x\<bar>);
          z = replicate (width - length u) (CHR ''0'') @ u
      in if x < 0 then CHR ''-'' # z else z)"

text \<open>
  A \<open>time.Time\<close> is modelled by its civil fields in UTC (the connection string of the
  source sets \<open>parseTime=true\<close> and no location, so the driver hands out UTC values).
\<close>

record time =
  year :: int
  month :: int
  day :: int
  hour :: int
  minute :: int
  second :: int
  nsec :: int

text \<open>\<open>IsZero\<close>: the instant January 1, year 1, 00:00:00.000000000 UTC.\<close>

definition IsZero :: "time \<Rightarrow> bool" where
  "IsZero t \<longleftrightarrow> year t = 1 \<and> month t = 1 \<and> day t = 1 \<and> hour t = 0 \<and> minute t = 0
                 \<and> second t = 0 \<and> nsec t = 0"

text \<open>The four layouts the source passes to \<open>Format\<close>.\<close>

definition Format_datetime :: "time \<Rightarrow> string" where
  \<comment> \<open>layout \<open>2006-01-02 15:04:05\<close>\<close>
  "Format_datetime t =
     appendInt (year t) 4 @ ''-'' @ appendInt (month t) 2 @ ''-'' @ appendInt (day t) 2 @ '' '' @
     appendInt (hour t) 2 @ '':'' @ appendInt (minute t) 2 @ '':'' @ appendInt (second t) 2"

definition Format_date :: "time \<Rightarrow> string" where
  \<comment> \<open>layout \<open>2006-01-02\<close>\<close>
  "Format_date t = appendInt (year t) 4 @ ''-'' @ appendInt (month t) 2 @ ''-'' @ appendInt (day t) 2"

definition Format_compact :: "time \<Rightarrow> string" where
  \<comment> \<open>layout \<open>20060102\<close>\<close>
  "Format_compact t = appendInt (year t) 4 @ appendInt (month t) 2 @ appendInt (day t) 2"

definition Format_stamp :: "time \<Rightarrow> string" where
  \<comment> \<open>layout \<open>20060102_150405\<close>\<close>
  "Format_stamp t =
     appendInt (year t) 4 @ appendInt (month t) 2 @ appendInt (day t) 2 @ ''_'' @
     appendInt (hour t) 2 @ appendInt (minute t) 2 @ appendInt (second t) 2"

section \<open>Value formatting of the two exporters\<close>

text \<open>
  The dynamic values a scanned cell can hold, one constructor per branch of the type
  switches in \<open>formatCSVValue\<close> and \<open>formatSQLValue\<close>: \<open>nil\<close>, \<open>[]byte\<close>,
  \<open>time.Time\<close>, the integer types, the float types, \<open>bool\<close>, \<open>string\<close>, and any
  other type. Floating-point printing is not modelled: a float, and a value of another
  type, carries the text that \<open>%v\<close> prints for it.
\<close>

datatype val =
    VNil
  | VBytes string
  | VTime time
  | VInt int
  | VFloat string
  | VBool bool
  | VString string
  | VOther string

fun formatCSVValue :: "val \<Rightarrow> string" where
  "formatCSVValue VNil = ''''"
| "formatCSVValue (VBytes v) = v"
| "formatCSVValue (VTime v) = (if IsZero v then '''' else Format_datetime v)"
| "formatCSVValue (VInt v) = itoa v"
| "formatCSVValue (VFloat v) = v"
| "formatCSVValue (VBool v) = (if v then ''true'' else ''false'')"
| "formatCSVValue (VString v) = v"
| "formatCSVValue (VOther v) = v"

text \<open>\<open>strings.ReplaceAll\<close> for a pattern of one byte.\<close>

definition ReplaceAll1 :: "string \<Rightarrow> char \<Rightarrow> string \<Rightarrow> string" where
  "ReplaceAll1 s c new = concat (map (\<lambda>x. if x = c then new else [x]) s)"

text \<open>
  The six replacements that the \<open>[]byte\<close> and the \<open>string\<close> branch of
  \<open>formatSQLValue\<close> both apply, in the source's order.
\<close>

definition sqlEscape :: "string \<Rightarrow> string" where
  "sqlEscape str0 =
     (let str1 = ReplaceAll1 str0 bslash [bslash, bslash];
          str2 = ReplaceAll1 str1 squote [bslash, squote];
          str3 = ReplaceAll1 str2 LF [bslash, CHR ''n''];
          str4 = ReplaceAll1 str3 CR [bslash, CHR ''r''];
          str5 = ReplaceAll1 str4 NUL [bslash, CHR ''0''];
          str6 = ReplaceAll1 str5 SUB [bslash, CHR ''Z'']
      in str6)"

text \<open>The column type argument of \<open>formatSQLValue\<close> is never read by the source.\<close>

fun formatSQLValue :: "val \<Rightarrow> 'ct \<Rightarrow> string" where
  "formatSQLValue VNil colType = ''NULL''"
| "formatSQLValue (VBytes v) colType = [squote] @ sqlEscape v @ [squote]"
| "formatSQLValue (VTime v) colType =
     (if IsZero v then ''NULL'' else [squote] @ Format_datetime v @ [squote])"
| "formatSQLValue (VInt v) colType = itoa v"
| "formatSQLValue (VFloat v) colType = v"
| "formatSQLValue (VBool v) colType = (if v then ''1'' else ''0'')"
| "formatSQLValue (VString v) colType = [squote] @ sqlEscape v @ [squote]"
| "formatSQLValue (VOther v) colType =
     (let str1 = ReplaceAll1 v bslash [bslash, bslash];
          str2 = ReplaceAll1 str1 squote [bslash, squote]
      in [squote] @ str2 @ [squote])"

text \<open>
  The shape \<open>YYYY-MM-DD HH:MM:SS\<close>: nineteen characters, digits everywhere but at
  the two hyphens, the blank and the two colons.
\<close>

definition is_digit :: "char \<Rightarrow> bool" where
  "is_digit c \<longleftrightarrow> c \<in> set ''0123456789''"

definition layout_YMD_HMS :: "string \<Rightarrow> bool" where
  "layout_YMD_HMS s \<longleftrightarrow>
     length s = 19 \<and> s ! 4 = CHR ''-'' \<and> s ! 7 = CHR ''-'' \<and> s ! 10 = CHR '' '' \<and>
     s ! 13 = CHR '':'' \<and> s ! 16 = CHR '':'' \<and>
     list_all (\<lambda>i. is_digit (s ! i)) [0, 1, 2, 3, 5, 6, 8, 9, 11, 12, 14, 15, 17, 18]"

text \<open>The field ranges of a calendar date and time of day with a four-digit year.\<close>

definition civil_ranges :: "time \<Rightarrow> bool" where
  "civil_ranges t \<longleftrightarrow>
     0 \<le> year t \<and> year t \<le> 9999 \<and> 1 \<le> month t \<and> month t \<le> 12 \<and> 1 \<le> day t \<and> day t \<le> 31 \<and>
     0 \<le> hour t \<and> hour t \<le> 23 \<and> 0 \<le> minute t \<and> minute t \<le> 59 \<and> 0 \<le> second t \<and> second t \<le> 59"

subsection \<open>Properties of the formatters\<close>


lemma natstr_digits: "list_all is_digit (natstr n)"
proof (induction n rule: natstr.induct)
  case (1 n)
  have d: "\<And>k. k < 10 \<Longrightarrow> is_digit (''0123456789'' ! k)"
  proof -
    fix k :: nat assume "k < 10"
    then have "k \<in> {0,1,2,3,4,5,6,7,8,9}" by auto
    then show "is_digit (''0123456789'' ! k)" unfolding is_digit_def by auto
  qed
  show ?case
  proof (cases "n < 10")
    case True
    then show ?thesis using d[of n] by (simp add: natstr.simps[of n])
  next
    case False
    then show ?thesis using 1 d[of "n mod 10"] by (simp add: natstr.simps[of n])
  qed
qed

lemma natstr_length: "n < 10 ^ k \<Longrightarrow> 0 < k \<Longrightarrow> length (natstr n) \<le> k"
proof (induction n arbitrary: k rule: natstr.induct)
  case (1 n)
  show ?case
  proof (cases "n < 10")
    case True
    then show ?thesis using 1(3) by (simp add: natstr.simps[of n])
  next
    case False
    then obtain j where k: "k = Suc j" using 1(3) by (cases k) auto
    have "0 < j" using False 1(2) k by (cases j) auto
    moreover have "n div 10 < 10 ^ j" using 1(2) k by (simp add: less_mult_imp_div_less)
    ultimately have "length (natstr (n div 10)) \<le> j" using 1(1)[OF False] by blast
    then show ?thesis using False k by (simp add: natstr.simps[of n])
  qed
qed

lemma appendInt_field:
  assumes "0 \<le> x" "x < 10 ^ w" "0 < w"
  shows "length (appendInt x w) = w \<and> list_all is_digit (appendInt x w)"
proof -
  have "nat \<bar>x\<bar> < 10 ^ w" using assms by (simp add: nat_less_iff)
  then have "length (natstr (nat \<bar>x\<bar>)) \<le> w" using natstr_length assms(3) by blast
  moreover have "is_digit (CHR ''0'')" by (simp add: is_digit_def)
  ultimately show ?thesis using assms(1) natstr_digits[of "nat \<bar>x\<bar>"]
    by (auto simp add: appendInt_def Let_def list_all_iff)
qed

lemma layout_parts:
  assumes "length a = 4" "length b = 2" "length c = 2" "length d = 2" "length e = 2" "length f = 2"
    and "list_all is_digit a" "list_all is_digit b" "list_all is_digit c"
        "list_all is_digit d" "list_all is_digit e" "list_all is_digit f"
  shows "layout_YMD_HMS (a @ ''-'' @ b @ ''-'' @ c @ '' '' @ d @ '':'' @ e @ '':'' @ f)"
proof -
  obtain a1 a2 a3 a4 where a: "a = [a1, a2, a3, a4]"
    using assms(1) by (auto simp: length_Suc_conv numeral_eq_Suc)
  obtain b1 b2 where b: "b = [b1, b2]" using assms(2) by (auto simp: length_Suc_conv numeral_eq_Suc)
  obtain c1 c2 where c: "c = [c1, c2]" using assms(3) by (auto simp: length_Suc_conv numeral_eq_Suc)
  obtain d1 d2 where d: "d = [d1, d2]" using assms(4) by (auto simp: length_Suc_conv numeral_eq_Suc)
  obtain e1 e2 where e: "e = [e1, e2]" using assms(5) by (auto simp: length_Suc_conv numeral_eq_Suc)
  obtain f1 f2 where f: "f = [f1, f2]" using assms(6) by (auto simp: length_Suc_conv numeral_eq_Suc)
  show ?thesis using assms(7-12) unfolding a b c d e f layout_YMD_HMS_def
    by (simp add: numeral_eq_Suc)
qed

lemma Format_datetime_layout: "civil_ranges t \<Longrightarrow> layout_YMD_HMS (Format_datetime t)"
  unfolding Format_datetime_def civil_ranges_def
  by (intro layout_parts; simp add: appendInt_field)

text \<open>
  Claim C8. Both formatters map \<open>nil\<close> and the zero instant to the empty field (CSV)
  and to the keyword \<open>NULL\<close> (SQL); a non-zero instant is printed with the layout
  \<open>2006-01-02 15:04:05\<close> (between single quotes in the SQL dump), which for the
  calendar ranges of a database value is the nineteen-character shape
  \<open>YYYY-MM-DD HH:MM:SS\<close>; booleans print as \<open>true\<close>/\<open>false\<close> (CSV) and
  \<open>1\<close>/\<open>0\<close> (SQL).
\<close>

theorem C8_value_formatters:
  "formatCSVValue VNil = '''' \<and> formatSQLValue VNil ct = ''NULL'' \<and>
   (IsZero t \<longrightarrow> formatCSVValue (VTime t) = '''' \<and> formatSQLValue (VTime t) ct = ''NULL'') \<and>
   (\<not> IsZero t \<longrightarrow>
      formatCSVValue (VTime t) = Format_datetime t \<and>
      formatSQLValue (VTime t) ct = [squote] @ Format_datetime t @ [squote]) \<and>
   (civil_ranges t \<longrightarrow> layout_YMD_HMS (Format_datetime t)) \<and>
   formatCSVValue (VBool True) = ''true'' \<and> formatCSVValue (VBool False) = ''false'' \<and>
   formatSQLValue (VBool True) ct = ''1'' \<and> formatSQLValue (VBool False) ct = ''0''"
  by (simp add: Format_datetime_layout)

text \<open>A non-zero instant and the zero instant, for evaluating the formatters.\<close>

definition sample_time :: time where
  "sample_time = \<lparr>year = 2025, month = 10, day = 1, hour = 7, minute = 5, second = 9, nsec = 0\<rparr>"
definition zero_time :: time where
  "zero_time = \<lparr>year = 1, month = 1, day = 1, hour = 0, minute = 0, second = 0, nsec = 0\<rparr>"

theorem C8_value_formatters_witness:
  "\<not> IsZero sample_time \<and> civil_ranges sample_time \<and>
   formatCSVValue (VTime sample_time) = ''2025-10-01 07:05:09'' \<and>
   formatSQLValue (VTime sample_time) () = [squote] @ ''2025-10-01 07:05:09'' @ [squote] \<and>
   layout_YMD_HMS ''2025-10-01 07:05:09'' \<and>
   IsZero zero_time \<and> formatCSVValue (VTime zero_time) = '''' \<and> formatSQLValue (VTime zero_time) () = ''NULL''"
proof -
  have nz: "\<not> IsZero sample_time" by (simp add: IsZero_def sample_time_def)
  have rg: "civil_ranges sample_time" by (simp add: civil_ranges_def sample_time_def)
  have z: "IsZero zero_time" by (simp add: IsZero_def zero_time_def)
  have f: "Format_datetime sample_time = ''2025-10-01 07:05:09''" unfolding sample_time_def by code_simp
  show ?thesis
    using nz rg z f C8_value_formatters [of "()" sample_time] C8_value_formatters [of "()" zero_time]
    by simp
qed

section \<open>Rewriting the structural definition: \<open>modifyCreateStatement\<close>\<close>

text \<open>\<open>stripPrefix p s\<close> is the rest of \<open>s\<close> after its prefix \<open>p\<close>, if \<open>p\<close> is one.\<close>

fun stripPrefix :: "string \<Rightarrow> string \<Rightarrow> string option" where
  "stripPrefix [] s = Some s"
| "stripPrefix (p # ps) [] = None"
| "stripPrefix (p # ps) (c # cs) = (if p = c then stripPrefix ps cs else None)"

text \<open>\<open>strings.Replace(s, old, new, 1)\<close>: the first occurrence of \<open>old\<close> is replaced.\<close>

fun Replace_first :: "string \<Rightarrow> string \<Rightarrow> string \<Rightarrow> string" where
  "Replace_first [] old new = (case stripPrefix old [] of Some r \<Rightarrow> new @ r | None \<Rightarrow> [])"
| "Replace_first (c # cs) old new =
     (case stripPrefix old (c # cs) of
        Some r \<Rightarrow> new @ r
      | None \<Rightarrow> c # Replace_first cs old new)"

text \<open>The class \<open>\s\<close> of Go's regular expressions: tab, line feed, form feed, carriage return, blank.\<close>

definition isSpace :: "char \<Rightarrow> bool" where
  "isSpace c \<longleftrightarrow> c = TAB \<or> c = LF \<or> c = FF \<or> c = CR \<or> c = CHR '' ''"

text \<open>
  The part \<open>\s+`([^`]+)`\<close> that both patterns share, matched at the start of a text:
  the captured name and the text after the closing backquote. Both repetitions are
  greedy and each is followed by a character outside its class, so there is one way
  to match.
\<close>

definition matchQuotedName :: "string \<Rightarrow> (string \<times> string) option" where
  "matchQuotedName s =
     (if takeWhile isSpace s = [] then None
      else case dropWhile isSpace s of
             [] \<Rightarrow> None
           | c # r \<Rightarrow>
               if c \<noteq> bquote then None
               else if takeWhile (\<lambda>x. x \<noteq> bquote) r = [] then None
               else case dropWhile (\<lambda>x. x \<noteq> bquote) r of
                      [] \<Rightarrow> None
                    | _ # rest \<Rightarrow> Some (takeWhile (\<lambda>x. x \<noteq> bquote) r, rest))"

text \<open>
  The pattern \<open>(KEY|INDEX|UNIQUE KEY)\s+`([^`]+)`\<close> matched at the start of a text: the
  alternatives are tried in the order written (leftmost-first), and the result is the
  two captured groups and the text after the match.
\<close>

fun matchAlternatives :: "string list \<Rightarrow> string \<Rightarrow> (string \<times> string \<times> string) option" where
  "matchAlternatives [] s = None"
| "matchAlternatives (a # as) s =
     (case stripPrefix a s of
        None \<Rightarrow> matchAlternatives as s
      | Some r \<Rightarrow>
          (case matchQuotedName r of
             None \<Rightarrow> matchAlternatives as s
           | Some (name, rest) \<Rightarrow> Some (a, name, rest)))"

definition matchIndexAt :: "string \<Rightarrow> (string \<times> string \<times> string) option" where
  "matchIndexAt s = matchAlternatives [''KEY'', ''INDEX'', ''UNIQUE KEY''] s"

text \<open>\<open>re.FindStringSubmatch\<close>: the groups of the leftmost match anywhere in the text.\<close>

fun findIndexSubmatch :: "string \<Rightarrow> (string \<times> string) option" where
  "findIndexSubmatch [] = None"
| "findIndexSubmatch (c # cs) =
     (case matchIndexAt (c # cs) of
        Some (indexType, indexName, rest) \<Rightarrow> Some (indexType, indexName)
      | None \<Rightarrow> findIndexSubmatch cs)"

text \<open>\<open>strings.ToUpper\<close> on ASCII text (it is applied to the captured keyword only).\<close>

definition ToUpper :: "string \<Rightarrow> string" where
  "ToUpper s =
     map (\<lambda>c. if (97::nat) \<le> of_char c \<and> of_char c \<le> (122::nat)
              then char_of (of_char c - (32::nat)) else c) s"

text \<open>The function the source passes to \<open>ReplaceAllStringFunc\<close> for an index match.\<close>

definition indexReplacement :: "string \<Rightarrow> string \<Rightarrow> string" where
  "indexReplacement suffix match =
     (case findIndexSubmatch match of
        Some (indexType, indexName) \<Rightarrow>
          if ToUpper indexType = ''PRIMARY KEY'' then match
          else indexType @ '' `'' @ (indexName @ ''_'' @ suffix) @ ''`''
      | None \<Rightarrow> match)"

lemma stripPrefix_length: "stripPrefix p s = Some r \<Longrightarrow> length s = length p + length r"
  by (induction p s rule: stripPrefix.induct) (auto split: if_splits)

lemma matchQuotedName_length: "matchQuotedName s = Some (n, r) \<Longrightarrow> length r < length s"
proof -
  assume m: "matchQuotedName s = Some (n, r)"
  have a: "length (dropWhile isSpace s) \<le> length s" by (simp add: length_dropWhile_le)
  from m obtain c r1 where d: "dropWhile isSpace s = c # r1"
    by (auto simp: matchQuotedName_def split: if_splits list.splits)
  from m d obtain x where e: "dropWhile (\<lambda>x. x \<noteq> bquote) r1 = x # r"
    by (auto simp: matchQuotedName_def split: if_splits list.splits)
  have "length (dropWhile (\<lambda>x. x \<noteq> bquote) r1) \<le> length r1" by (simp add: length_dropWhile_le)
  with e have "length r < length r1" by simp
  moreover from a d have "length r1 < length s" by simp
  ultimately show ?thesis by simp
qed

lemma matchAlternatives_length:
  "matchAlternatives as s = Some (a, n, r) \<Longrightarrow> length r < length s"
proof (induction as)
  case Nil
  then show ?case by simp
next
  case (Cons b bs)
  then show ?case
    by (auto split: option.splits dest!: stripPrefix_length matchQuotedName_length)
qed

lemma matchIndexAt_length: "matchIndexAt s = Some (a, n, r) \<Longrightarrow> length r < length s"
  unfolding matchIndexAt_def by (rule matchAlternatives_length)

text \<open>
  \<open>re.ReplaceAllStringFunc\<close> for the index pattern: the text is scanned from the left;
  a match is replaced by what the function returns for the matched text and the scan
  goes on behind it; a character at which nothing matches is copied.
\<close>

function rewriteIndexes :: "string \<Rightarrow> string \<Rightarrow> string" where
  "rewriteIndexes suffix [] = []"
| "rewriteIndexes suffix (c # cs) =
     (case matchIndexAt (c # cs) of
        Some (indexType, indexName, rest) \<Rightarrow>
          indexReplacement suffix (take (length (c # cs) - length rest) (c # cs))
            @ rewriteIndexes suffix rest
      | None \<Rightarrow> c # rewriteIndexes suffix cs)"
  by pat_completeness auto
termination
  by (relation "measure (\<lambda>(suffix, s). length s)") (auto dest: matchIndexAt_length)

text \<open>
  The pattern \<open>CONSTRAINT\s+`([^`]+)`\s+FOREIGN KEY\<close> matched at the start of a text:
  the captured name and the text after the match.
\<close>

definition matchFKAt :: "string \<Rightarrow> (string \<times> string) option" where
  "matchFKAt s =
     (case stripPrefix ''CONSTRAINT'' s of
        None \<Rightarrow> None
      | Some r \<Rightarrow>
          (case matchQuotedName r of
             None \<Rightarrow> None
           | Some (name, r2) \<Rightarrow>
               if takeWhile isSpace r2 = [] then None
               else (case stripPrefix ''FOREIGN KEY'' (dropWhile isSpace r2) of
                       None \<Rightarrow> None
                     | Some rest \<Rightarrow> Some (name, rest))))"

fun findFKSubmatch :: "string \<Rightarrow> string option" where
  "findFKSubmatch [] = None"
| "findFKSubmatch (c # cs) =
     (case matchFKAt (c # cs) of
        Some (constraintName, rest) \<Rightarrow> Some constraintName
      | None \<Rightarrow> findFKSubmatch cs)"

definition fkReplacement :: "string \<Rightarrow> string \<Rightarrow> string" where
  "fkReplacement suffix match =
     (case findFKSubmatch match of
        Some constraintName \<Rightarrow> ''CONSTRAINT `'' @ (constraintName @ ''_'' @ suffix) @ ''` FOREIGN KEY''
      | None \<Rightarrow> match)"

lemma matchFKAt_length: "matchFKAt s = Some (n, r) \<Longrightarrow> length r < length s"
proof -
  assume m: "matchFKAt s = Some (n, r)"
  then obtain r1 r2 where 1: "stripPrefix ''CONSTRAINT'' s = Some r1"
    and 2: "matchQuotedName r1 = Some (n, r2)"
    and 3: "stripPrefix ''FOREIGN KEY'' (dropWhile isSpace r2) = Some r"
    by (auto simp: matchFKAt_def split: option.splits if_splits)
  have "length (dropWhile isSpace r2) \<le> length r2" by (simp add: length_dropWhile_le)
  with stripPrefix_length[OF 3] have "length r < length r2" by simp
  with matchQuotedName_length[OF 2] stripPrefix_length[OF 1] show ?thesis by simp
qed

function rewriteFKs :: "string \<Rightarrow> string \<Rightarrow> string" where
  "rewriteFKs suffix [] = []"
| "rewriteFKs suffix (c # cs) =
     (case matchFKAt (c # cs) of
        Some (constraintName, rest) \<Rightarrow>
          fkReplacement suffix (take (length (c # cs) - length rest) (c # cs))
            @ rewriteFKs suffix rest
      | None \<Rightarrow> c # rewriteFKs suffix cs)"
  by pat_completeness auto
termination
  by (relation "measure (\<lambda>(suffix, s). length s)") (auto dest: matchFKAt_length)

text \<open>The text \<open>CREATE TABLE `name`\<close> that opens a structural definition.\<close>

definition createHeader :: "string \<Rightarrow> string" where
  "createHeader name = ''CREATE TABLE `'' @ name @ ''`''"

definition modifyCreateStatement :: "string \<Rightarrow> string \<Rightarrow> string \<Rightarrow> string \<Rightarrow> string" where
  "modifyCreateStatement createStmt oldName newName suffix =
     (let createStmt1 = Replace_first createStmt (createHeader oldName) (createHeader newName);
          createStmt2 = rewriteIndexes suffix createStmt1;
          createStmt3 = rewriteFKs suffix createStmt2
      in createStmt3)"

subsection \<open>Properties of the rewriting\<close>





text \<open>
  Two definition bodies, as \<open>SHOW CREATE TABLE\<close> prints them after the header: one with a
  primary key only, and one whose column comment quotes an index name.
\<close>

definition plain_body :: string where
  "plain_body = '' (\<newline>  `id` int NOT NULL,\<newline>  `created_at` datetime DEFAULT NULL,\<newline>  PRIMARY KEY (`id`)\<newline>) ENGINE=InnoDB''"






section \<open>The environment: clock, database, files, log\<close>

subsection \<open>Calendar arithmetic and the order of instants\<close>

text \<open>
  The day number of a civil date (days since 1970-01-01 in the proleptic Gregorian
  calendar) and its inverse. \<open>div\<close> on \<open>int\<close> rounds down, as the computation needs.
\<close>

definition daysFromCivil :: "int \<Rightarrow> int \<Rightarrow> int \<Rightarrow> int" where
  "daysFromCivil y m d =
     (let y1 = (if m \<le> 2 then y - 1 else y);
          era = y1 div 400;
          yoe = y1 - era * 400;
          doy = (153 * (if m > 2 then m - 3 else m + 9) + 2) div 5 + d - 1;
          doe = yoe * 365 + yoe div 4 - yoe div 100 + doy
      in era * 146097 + doe - 719468)"

definition civilFromDays :: "int \<Rightarrow> int \<times> int \<times> int" where
  "civilFromDays z =
     (let z1 = z + 719468;
          era = z1 div 146097;
          doe = z1 - era * 146097;
          yoe = (doe - doe div 1460 + doe div 36524 - doe div 146096) div 365;
          y = yoe + era * 400;
          doy = doe - (365 * yoe + yoe div 4 - yoe div 100);
          mp = (5 * doy + 2) div 153;
          d = doy - (153 * mp + 2) div 5 + 1;
          m = (if mp < 10 then mp + 3 else mp - 9)
      in (if m \<le> 2 then y + 1 else y, m, d))"

text \<open>
  \<open>t.AddDate(0, 0, days)\<close>: the date moves by \<open>days\<close> and is normalised; the time of
  day stays.
\<close>

definition AddDate_days :: "time \<Rightarrow> int \<Rightarrow> time" where
  "AddDate_days t days =
     (case civilFromDays (daysFromCivil (year t) (month t) (day t) + days) of
        (y, m, d) \<Rightarrow> t\<lparr>year := y, month := m, day := d\<rparr>)"

text \<open>The position of an instant on the time line, in nanoseconds, and the order it gives.\<close>

definition timeKey :: "time \<Rightarrow> int" where
  "timeKey t =
     (((daysFromCivil (year t) (month t) (day t) * 24 + hour t) * 60 + minute t) * 60 + second t)
        * 1000000000 + nsec t"

definition Before :: "time \<Rightarrow> time \<Rightarrow> bool" where
  "Before a b \<longleftrightarrow> timeKey a < timeKey b"

subsection \<open>Tables, statements and errors\<close>

text \<open>
  A column as \<open>SHOW COLUMNS\<close> reports it: its name (\<open>Field\<close>) and its declared type
  (\<open>Type\<close>). A row is the list of its cells in column order. A table is the text of
  its definition after the header \<open>CREATE TABLE `name`\<close>, and its rows in scan order.
\<close>

type_synonym column = "string \<times> string"
type_synonym row = "val list"

record table =
  body :: string
  rows :: "row list"

text \<open>
  The statements the program sends. Each constructor stands for the text the source
  builds with \<open>fmt.Sprintf\<close> (see \<open>sql_text\<close>); the cutoff of a parameterised
  statement is its bound parameter.
\<close>

datatype stmt =
    ShowCreateTable string
  | ShowColumns string
  | CountOlder string string time
  | CountNotOlder string string time
  | CountAll string
  | Raw string
  | InsertOlder string string string time
  | DeleteOlder string string time
  | DropTableIfExists string
  | RenameTable string string
  | SelectColumnNames string
  | SelectPage string nat nat
  | LockTablesRead string
  | UnlockTables

fun sql_text :: "stmt \<Rightarrow> string" where
  "sql_text (ShowCreateTable t) = ''SHOW CREATE TABLE `'' @ t @ ''`''"
| "sql_text (ShowColumns t) = ''SHOW COLUMNS FROM `'' @ t @ ''`''"
| "sql_text (CountOlder t c p) = ''SELECT COUNT(*) FROM `'' @ t @ ''` WHERE `'' @ c @ ''` < ?''"
| "sql_text (CountNotOlder t c p) = ''SELECT COUNT(*) FROM `'' @ t @ ''` WHERE `'' @ c @ ''` >= ?''"
| "sql_text (CountAll t) = ''SELECT COUNT(*) FROM `'' @ t @ ''`''"
| "sql_text (Raw q) = q"
| "sql_text (InsertOlder d s c p) =
     ''INSERT INTO `'' @ d @ ''` SELECT * FROM `'' @ s @ ''` WHERE `'' @ c @ ''` < ?''"
| "sql_text (DeleteOlder t c p) = ''DELETE FROM `'' @ t @ ''` WHERE `'' @ c @ ''` < ?''"
| "sql_text (DropTableIfExists t) = ''DROP TABLE IF EXISTS `'' @ t @ ''`''"
| "sql_text (RenameTable a b) = ''RENAME TABLE `'' @ a @ ''` TO `'' @ b @ ''`''"
| "sql_text (SelectColumnNames t) =
     ''SELECT COLUMN_NAME FROM INFORMATION_SCHEMA.COLUMNS WHERE TABLE_SCHEMA = DATABASE() AND TABLE_NAME = ''
       @ [squote] @ t @ [squote] @ '' ORDER BY ORDINAL_POSITION''"
| "sql_text (SelectPage t limit offset) =
     ''SELECT * FROM `'' @ t @ ''` LIMIT '' @ natstr limit @ '' OFFSET '' @ natstr offset"
| "sql_text (LockTablesRead t) = ''LOCK TABLES `'' @ t @ ''` READ''"
| "sql_text UnlockTables = ''UNLOCK TABLES''"

text \<open>
  What a statement can fail with. \<open>EngineFailure\<close> is a failure whose cause lies outside
  the model (a lost connection, a lock timeout, a violated constraint, a full disk).
  \<open>ScanError\<close> is what \<open>Scan\<close> returns when a row has not as many cells as there are
  destinations.
\<close>

datatype dberr =
    EngineFailure
  | NoSuchTable string
  | TableExists string
  | UnknownColumn string
  | SyntaxError
  | ColumnCountMismatch
  | ScanError

text \<open>
  The errors the program returns: a database error, a file-system error, a message of
  \<open>fmt.Errorf\<close> without an inner error, and \<open>fmt.Errorf("...: %v", err)\<close> around an
  inner error.
\<close>

datatype error =
    DbError dberr
  | OsError
  | Msg string
  | Wrap string error

datatype level = INFO | ERROR | WARNING

datatype arg = S string | I int | B bool | E error

text \<open>A log line: its level, its format string, and the arguments of the format.\<close>

type_synonym log_entry = "level \<times> string \<times> arg list"

subsection \<open>The world the program runs in\<close>

text \<open>
  Everything outside the program is one value that each operation takes and returns:
  \<^item> \<open>tables\<close>: the tables of the database, by name;
  \<^item> \<open>catalog\<close>: the engine's reading of a definition body, the columns it declares
    (the engine's parser is not modelled; it is a parameter);
  \<^item> \<open>faults\<close>: for the operations to come, whether each fails for a reason outside
    the model; every statement and every file operation consumes one entry, and none
    fails once the list is used up;
  \<^item> \<open>trace\<close>: the statements sent so far, in order;
  \<^item> \<open>logs\<close>: the lines logged so far;
  \<^item> \<open>now\<close>, \<open>later\<close>: what \<open>time.Now()\<close> returns next, and its readings after that
    (the last reading stays once the list is used up);
  \<^item> \<open>rand\<close>: the number the Go runtime draws to start an iteration over a map;
  \<^item> \<open>files\<close>: the contents of the files written.
\<close>

record world =
  tables :: "string \<rightharpoonup> table"
  catalog :: "string \<Rightarrow> column list"
  faults :: "bool list"
  trace :: "stmt list"
  logs :: "log_entry list"
  now :: time
  later :: "time list"
  rand :: nat
  files :: "string \<rightharpoonup> string"

definition time_Now :: "world \<Rightarrow> time \<times> world" where
  "time_Now w = (now w, case later w of [] \<Rightarrow> w | t # ts \<Rightarrow> w\<lparr>now := t, later := ts\<rparr>)"

definition fails :: "world \<Rightarrow> bool \<times> world" where
  "fails w = (case faults w of [] \<Rightarrow> (False, w) | f # fs \<Rightarrow> (f, w\<lparr>faults := fs\<rparr>))"

definition send :: "stmt \<Rightarrow> world \<Rightarrow> bool \<times> world" where
  "send q w = fails (w\<lparr>trace := trace w @ [q]\<rparr>)"

text \<open>
  The cell of a row in a named column (\<open>NULL\<close> when the row is too short), and the two
  predicates of the program's \<open>WHERE\<close> clauses. A comparison with \<open>NULL\<close> selects
  nothing; a cell that holds no date or time is treated like \<open>NULL\<close> (the engine's
  conversions between types are not modelled).
\<close>

fun columnIndex :: "column list \<Rightarrow> string \<Rightarrow> nat option" where
  "columnIndex [] c = None"
| "columnIndex (x # xs) c = (if fst x = c then Some 0 else map_option Suc (columnIndex xs c))"

definition cellOf :: "column list \<Rightarrow> string \<Rightarrow> row \<Rightarrow> val" where
  "cellOf cols c r =
     (case columnIndex cols c of
        None \<Rightarrow> VNil
      | Some i \<Rightarrow> if i < length r then r ! i else VNil)"

definition older :: "column list \<Rightarrow> string \<Rightarrow> time \<Rightarrow> row \<Rightarrow> bool" where
  \<comment> \<open>\<open>WHERE `c` < ?\<close>\<close>
  "older cols c p r = (case cellOf cols c r of VTime t \<Rightarrow> Before t p | _ \<Rightarrow> False)"

definition notOlder :: "column list \<Rightarrow> string \<Rightarrow> time \<Rightarrow> row \<Rightarrow> bool" where
  \<comment> \<open>\<open>WHERE `c` >= ?\<close>\<close>
  "notOlder cols c p r = (case cellOf cols c r of VTime t \<Rightarrow> \<not> Before t p | _ \<Rightarrow> False)"

text \<open>
  A \<open>CREATE TABLE\<close> text as the engine reads it: the name between the first pair of
  backquotes after \<open>CREATE TABLE\<close>, and the body after it.
\<close>

definition parseCreate :: "string \<Rightarrow> (string \<times> string) option" where
  "parseCreate q =
     (case stripPrefix ''CREATE TABLE `'' q of
        None \<Rightarrow> None
      | Some r \<Rightarrow>
          if takeWhile (\<lambda>x. x \<noteq> bquote) r = [] then None
          else case dropWhile (\<lambda>x. x \<noteq> bquote) r of
                 [] \<Rightarrow> None
               | _ # b \<Rightarrow> Some (takeWhile (\<lambda>x. x \<noteq> bquote) r, b))"

text \<open>
  What a statement does to the tables when the engine carries it out, with the number
  of rows affected, or the error it is refused with. A statement that only reads
  leaves the tables as they are.
\<close>

fun effect ::
  "(string \<Rightarrow> column list) \<Rightarrow> stmt \<Rightarrow> (string \<rightharpoonup> table) \<Rightarrow> dberr + (string \<rightharpoonup> table) \<times> int" where
  "effect cat (Raw q) ts =
     (case parseCreate q of
        None \<Rightarrow> Inl SyntaxError
      | Some (n, b) \<Rightarrow>
          (case ts n of
             Some _ \<Rightarrow> Inl (TableExists n)
           | None \<Rightarrow> Inr (ts(n \<mapsto> \<lparr>body = b, rows = []\<rparr>), 0)))"
| "effect cat (InsertOlder d s c p) ts =
     (case ts s of
        None \<Rightarrow> Inl (NoSuchTable s)
      | Some src \<Rightarrow>
          (case ts d of
             None \<Rightarrow> Inl (NoSuchTable d)
           | Some dst \<Rightarrow>
               if c \<notin> set (map fst (cat (body src))) then Inl (UnknownColumn c)
               else if length (cat (body dst)) \<noteq> length (cat (body src)) then Inl ColumnCountMismatch
               else Inr (ts(d \<mapsto> dst\<lparr>rows := rows dst @ filter (older (cat (body src)) c p) (rows src)\<rparr>),
                         int (length (filter (older (cat (body src)) c p) (rows src))))))"
| "effect cat (DeleteOlder t c p) ts =
     (case ts t of
        None \<Rightarrow> Inl (NoSuchTable t)
      | Some tb \<Rightarrow>
          if c \<notin> set (map fst (cat (body tb))) then Inl (UnknownColumn c)
          else Inr (ts(t \<mapsto> tb\<lparr>rows := filter (\<lambda>r. \<not> older (cat (body tb)) c p r) (rows tb)\<rparr>),
                    int (length (filter (older (cat (body tb)) c p) (rows tb)))))"
| "effect cat (DropTableIfExists t) ts = Inr (ts(t := None), 0)"
| "effect cat (RenameTable a b) ts =
     (case ts a of
        None \<Rightarrow> Inl (NoSuchTable a)
      | Some tb \<Rightarrow>
          (case ts b of
             Some _ \<Rightarrow> Inl (TableExists b)
           | None \<Rightarrow> Inr (ts(a := None, b \<mapsto> tb), 0)))"
| "effect cat (LockTablesRead t) ts =
     (case ts t of None \<Rightarrow> Inl (NoSuchTable t) | Some _ \<Rightarrow> Inr (ts, 0))"
| "effect cat q ts = Inr (ts, 0)"

text \<open>
  \<open>db.Exec\<close>: the statement is sent; unless it fails, its effect takes place. A statement
  that fails changes no table. The result is the number of rows affected.
\<close>

definition Exec :: "stmt \<Rightarrow> world \<Rightarrow> (dberr + int) \<times> world" where
  "Exec q w =
     (case send q w of
        (True, w1) \<Rightarrow> (Inl EngineFailure, w1)
      | (False, w1) \<Rightarrow>
          (case effect (catalog w1) q (tables w1) of
             Inl e \<Rightarrow> (Inl e, w1)
           | Inr (ts, n) \<Rightarrow> (Inr n, w1\<lparr>tables := ts\<rparr>)))"

text \<open>The queries, each with the type of what it is scanned into.\<close>

definition QueryShowCreateTable :: "string \<Rightarrow> world \<Rightarrow> (dberr + string) \<times> world" where
  "QueryShowCreateTable t w =
     (case send (ShowCreateTable t) w of
        (True, w1) \<Rightarrow> (Inl EngineFailure, w1)
      | (False, w1) \<Rightarrow>
          (case tables w1 t of
             None \<Rightarrow> (Inl (NoSuchTable t), w1)
           | Some tb \<Rightarrow> (Inr (createHeader t @ body tb), w1)))"

definition QueryShowColumns :: "string \<Rightarrow> world \<Rightarrow> (dberr + column list) \<times> world" where
  "QueryShowColumns t w =
     (case send (ShowColumns t) w of
        (True, w1) \<Rightarrow> (Inl EngineFailure, w1)
      | (False, w1) \<Rightarrow>
          (case tables w1 t of
             None \<Rightarrow> (Inl (NoSuchTable t), w1)
           | Some tb \<Rightarrow> (Inr (catalog w1 (body tb)), w1)))"

text \<open>The answer to a counting query.\<close>

fun countResult :: "(string \<Rightarrow> column list) \<Rightarrow> stmt \<Rightarrow> (string \<rightharpoonup> table) \<Rightarrow> dberr + int" where
  "countResult cat (CountOlder t c p) ts =
     (case ts t of
        None \<Rightarrow> Inl (NoSuchTable t)
      | Some tb \<Rightarrow>
          if c \<notin> set (map fst (cat (body tb))) then Inl (UnknownColumn c)
          else Inr (int (length (filter (older (cat (body tb)) c p) (rows tb)))))"
| "countResult cat (CountNotOlder t c p) ts =
     (case ts t of
        None \<Rightarrow> Inl (NoSuchTable t)
      | Some tb \<Rightarrow>
          if c \<notin> set (map fst (cat (body tb))) then Inl (UnknownColumn c)
          else Inr (int (length (filter (notOlder (cat (body tb)) c p) (rows tb)))))"
| "countResult cat (CountAll t) ts =
     (case ts t of
        None \<Rightarrow> Inl (NoSuchTable t)
      | Some tb \<Rightarrow> Inr (int (length (rows tb))))"
| "countResult cat q ts = Inl SyntaxError"

definition QueryCount :: "stmt \<Rightarrow> world \<Rightarrow> (dberr + int) \<times> world" where
  "QueryCount q w =
     (case send q w of
        (True, w1) \<Rightarrow> (Inl EngineFailure, w1)
      | (False, w1) \<Rightarrow>
          (case countResult (catalog w1) q (tables w1) of
             Inl e \<Rightarrow> (Inl e, w1)
           | Inr n \<Rightarrow> (Inr n, w1)))"

text \<open>
  The catalog query for the column names of a table: no row, and no error, when the
  table does not exist.
\<close>

definition QueryColumnNames :: "string \<Rightarrow> world \<Rightarrow> (dberr + string list) \<times> world" where
  "QueryColumnNames t w =
     (case send (SelectColumnNames t) w of
        (True, w1) \<Rightarrow> (Inl EngineFailure, w1)
      | (False, w1) \<Rightarrow>
          (case tables w1 t of
             None \<Rightarrow> (Inr [], w1)
           | Some tb \<Rightarrow> (Inr (map fst (catalog w1 (body tb))), w1)))"

text \<open>
  One page of an unfiltered scan. The scan order of a table is taken to be the same
  for every page (the order of \<open>rows\<close>).
\<close>

definition QueryPage :: "string \<Rightarrow> nat \<Rightarrow> nat \<Rightarrow> world \<Rightarrow> (dberr + row list) \<times> world" where
  "QueryPage t limit offset w =
     (case send (SelectPage t limit offset) w of
        (True, w1) \<Rightarrow> (Inl EngineFailure, w1)
      | (False, w1) \<Rightarrow>
          (case tables w1 t of
             None \<Rightarrow> (Inl (NoSuchTable t), w1)
           | Some tb \<Rightarrow> (Inr (take limit (drop offset (rows tb))), w1)))"

text \<open>File operations: creating the export directory, creating a file, appending to it.\<close>

definition MkdirAll :: "string \<Rightarrow> world \<Rightarrow> (error + unit) \<times> world" where
  "MkdirAll path w = (case fails w of (True, w1) \<Rightarrow> (Inl OsError, w1) | (False, w1) \<Rightarrow> (Inr (), w1))"

definition Create :: "string \<Rightarrow> world \<Rightarrow> (error + unit) \<times> world" where
  "Create filename w =
     (case fails w of
        (True, w1) \<Rightarrow> (Inl OsError, w1)
      | (False, w1) \<Rightarrow> (Inr (), w1\<lparr>files := (files w1)(filename \<mapsto> [])\<rparr>))"

definition WriteString :: "string \<Rightarrow> string \<Rightarrow> world \<Rightarrow> (error + unit) \<times> world" where
  "WriteString filename s w =
     (case fails w of
        (True, w1) \<Rightarrow> (Inl OsError, w1)
      | (False, w1) \<Rightarrow>
          (Inr (), w1\<lparr>files := (files w1)(filename \<mapsto> (case files w1 filename of None \<Rightarrow> s | Some c \<Rightarrow> c @ s))\<rparr>))"

text \<open>The logger: a line goes to the log file and to standard output.\<close>

definition Info :: "string \<Rightarrow> arg list \<Rightarrow> world \<Rightarrow> world" where
  "Info format v w = w\<lparr>logs := logs w @ [(INFO, format, v)]\<rparr>"

definition Error :: "string \<Rightarrow> arg list \<Rightarrow> world \<Rightarrow> world" where
  "Error format v w = w\<lparr>logs := logs w @ [(ERROR, format, v)]\<rparr>"

definition Warning :: "string \<Rightarrow> arg list \<Rightarrow> world \<Rightarrow> world" where
  "Warning format v w = w\<lparr>logs := logs w @ [(WARNING, format, v)]\<rparr>"

section \<open>The program\<close>

record Config =
  Host :: string
  Port :: int
  User :: string
  Password :: string
  Database :: string
  Table :: string
  DaysToKeep :: int
  DryRun :: bool
  ExportSQL :: bool
  ExportCSV :: bool
  ExportPath :: string

subsection \<open>Library functions on strings\<close>

fun Contains :: "string \<Rightarrow> string \<Rightarrow> bool" where
  "Contains [] sub = (sub = [])"
| "Contains (c # cs) sub = (stripPrefix sub (c # cs) \<noteq> None \<or> Contains cs sub)"

text \<open>\<open>strings.ToLower\<close> on ASCII text (it is applied to the declared type of a column).\<close>

definition ToLower :: "string \<Rightarrow> string" where
  "ToLower s =
     map (\<lambda>c. if (65::nat) \<le> of_char c \<and> of_char c \<le> (90::nat)
              then char_of (of_char c + (32::nat)) else c) s"

fun Join :: "string list \<Rightarrow> string \<Rightarrow> string" where
  "Join [] sep = []"
| "Join [x] sep = x"
| "Join (x # y # ys) sep = x @ sep @ Join (y # ys) sep"

subsection \<open>The CSV writer of the standard library\<close>

text \<open>
  \<open>unicode.IsSpace\<close> of the first rune of a text, read off its first bytes: the ASCII
  white space, U+0085, U+00A0, U+1680, U+2000 to U+200A, U+2028, U+2029, U+202F, U+205F
  and U+3000 in UTF-8.
\<close>

definition asciiSpace :: "nat \<Rightarrow> bool" where
  "asciiSpace b \<longleftrightarrow> b = 9 \<or> b = 10 \<or> b = 11 \<or> b = 12 \<or> b = 13 \<or> b = 32"

fun spaceRuneBytes :: "nat list \<Rightarrow> bool" where
  "spaceRuneBytes [] = False"
| "spaceRuneBytes [b0] = asciiSpace b0"
| "spaceRuneBytes [b0, b1] = (asciiSpace b0 \<or> (b0 = 194 \<and> (b1 = 133 \<or> b1 = 160)))"
| "spaceRuneBytes (b0 # b1 # b2 # bs) =
     (asciiSpace b0 \<or> (b0 = 194 \<and> (b1 = 133 \<or> b1 = 160)) \<or>
      (b0 = 225 \<and> b1 = 154 \<and> b2 = 128) \<or>
      (b0 = 226 \<and> b1 = 128 \<and> ((128 \<le> b2 \<and> b2 \<le> 138) \<or> b2 = 168 \<or> b2 = 169 \<or> b2 = 175)) \<or>
      (b0 = 226 \<and> b1 = 129 \<and> b2 = 159) \<or>
      (b0 = 227 \<and> b1 = 128 \<and> b2 = 128))"

definition fieldNeedsQuotes :: "string \<Rightarrow> bool" where
  "fieldNeedsQuotes field =
     (if field = [] then False
      else if field = [bslash, CHR ''.''] then True
      else if list_ex (\<lambda>c. c = LF \<or> c = CR \<or> c = dquote \<or> c = CHR '','') field then True
      else spaceRuneBytes (map of_char field))"

text \<open>
  A field as \<open>csv.Writer.Write\<close> writes it (comma as the delimiter, \<open>UseCRLF\<close> off): as
  it is, or between double quotes with every double quote doubled and line breaks kept.
\<close>

definition csvField :: "string \<Rightarrow> string" where
  "csvField field =
     (if fieldNeedsQuotes field
      then [dquote] @ concat (map (\<lambda>c. if c = dquote then [dquote, dquote] else [c]) field) @ [dquote]
      else field)"

definition csvRecord :: "string list \<Rightarrow> string" where
  "csvRecord record = Join (map csvField record) '','' @ [LF]"

text \<open>
  \<open>writer.Write\<close> and \<open>writer.Flush\<close> followed by \<open>writer.Error\<close>. The writer's buffer is
  not modelled: a record reaches the file when it is written.
\<close>

definition csvWrite :: "string \<Rightarrow> string list \<Rightarrow> world \<Rightarrow> (error + unit) \<times> world" where
  "csvWrite filename record w = WriteString filename (csvRecord record) w"

definition csvFlush :: "world \<Rightarrow> (error + unit) \<times> world" where
  "csvFlush w = (case fails w of (True, w1) \<Rightarrow> (Inl OsError, w1) | (False, w1) \<Rightarrow> (Inr (), w1))"

subsection \<open>\<open>exportTableToCSV\<close>\<close>

text \<open>
  The inner loop \<open>for dataRows.Next()\<close> over the rows of one page; it returns
  \<open>rowCount\<close> and \<open>totalRows\<close>.
\<close>

fun csvRows :: "string \<Rightarrow> nat \<Rightarrow> row list \<Rightarrow> nat \<Rightarrow> nat \<Rightarrow> world \<Rightarrow> (error + nat \<times> nat) \<times> world" where
  "csvRows filename columnCount [] rowCount totalRows w = (Inr (rowCount, totalRows), w)"
| "csvRows filename columnCount (values # dataRows) rowCount totalRows w =
     (if length values \<noteq> columnCount then (Inl (Wrap ''failed to scan row'' (DbError ScanError)), w)
      else
        (case csvWrite filename (map formatCSVValue values) w of
           (Inl err, w1) \<Rightarrow> (Inl (Wrap ''failed to write CSV row'' err), w1)
         | (Inr _, w1) \<Rightarrow>
             if (totalRows + 1) mod 1000 = 0
             then (case csvFlush w1 of
                     (Inl err, w2) \<Rightarrow> (Inl (Wrap ''failed to flush CSV'' err), w2)
                   | (Inr _, w2) \<Rightarrow> csvRows filename columnCount dataRows (rowCount + 1) (totalRows + 1) w2)
             else csvRows filename columnCount dataRows (rowCount + 1) (totalRows + 1) w1))"

lemma fails_frame:
  "fails w = (b, w1) \<Longrightarrow>
     tables w1 = tables w \<and> catalog w1 = catalog w \<and> trace w1 = trace w \<and> logs w1 = logs w \<and>
     files w1 = files w \<and> now w1 = now w \<and> later w1 = later w \<and> rand w1 = rand w"
  by (auto simp: fails_def split: list.splits)

lemma send_frame:
  "send q w = (b, w1) \<Longrightarrow>
     tables w1 = tables w \<and> catalog w1 = catalog w \<and> trace w1 = trace w @ [q] \<and> logs w1 = logs w \<and>
     files w1 = files w \<and> now w1 = now w \<and> later w1 = later w \<and> rand w1 = rand w"
  unfolding send_def by (drule fails_frame) simp

lemma WriteString_frame:
  "WriteString f s w = (r, w1) \<Longrightarrow>
     tables w1 = tables w \<and> catalog w1 = catalog w \<and> trace w1 = trace w \<and> logs w1 = logs w \<and>
     now w1 = now w \<and> later w1 = later w \<and> rand w1 = rand w"
  by (auto simp: WriteString_def split: prod.splits bool.splits dest!: fails_frame)

lemma csvFlush_frame:
  "csvFlush w = (r, w1) \<Longrightarrow>
     tables w1 = tables w \<and> catalog w1 = catalog w \<and> trace w1 = trace w \<and> logs w1 = logs w \<and>
     files w1 = files w \<and> now w1 = now w \<and> later w1 = later w \<and> rand w1 = rand w"
  by (auto simp: csvFlush_def split: prod.splits bool.splits dest!: fails_frame)

lemma QueryPage_frame:
  "QueryPage t limit offset w = (r, w1) \<Longrightarrow>
     tables w1 = tables w \<and> catalog w1 = catalog w \<and> trace w1 = trace w @ [SelectPage t limit offset] \<and>
     logs w1 = logs w \<and> files w1 = files w \<and> now w1 = now w \<and> later w1 = later w \<and> rand w1 = rand w"
  by (auto simp: QueryPage_def split: prod.splits bool.splits option.splits dest!: send_frame)

lemma QueryPage_Inr:
  "QueryPage t limit offset w = (Inr page, w1) \<Longrightarrow>
     \<exists>tb. tables w t = Some tb \<and> page = take limit (drop offset (rows tb))"
  by (auto simp: QueryPage_def split: prod.splits bool.splits option.splits dest!: send_frame)

lemma csvRows_frame:
  "csvRows f cc xs rc tr w = (r, w1) \<Longrightarrow>
     tables w1 = tables w \<and> catalog w1 = catalog w \<and> trace w1 = trace w \<and> logs w1 = logs w \<and>
     now w1 = now w \<and> later w1 = later w \<and> rand w1 = rand w"
proof (induction xs arbitrary: rc tr w)
  case Nil
  then show ?case by simp
next
  case (Cons x xs)
  show ?case
  proof (cases "length x = cc")
    case False
    then show ?thesis using Cons.prems by simp
  next
    case True
    obtain r1 w2 where wr: "csvWrite f (map formatCSVValue x) w = (r1, w2)" by (cases "csvWrite f (map formatCSVValue x) w")
    note f1 = WriteString_frame[OF wr[unfolded csvWrite_def]]
    show ?thesis
    proof (cases r1)
      case (Inl e)
      then show ?thesis using Cons.prems True wr f1 by auto
    next
      case (Inr u)
      show ?thesis
      proof (cases "(tr + 1) mod 1000 = 0")
        case False
        then have "csvRows f cc xs (rc + 1) (tr + 1) w2 = (r, w1)"
          using Cons.prems True wr Inr by simp
        from Cons.IH[OF this] f1 show ?thesis by simp
      next
        case m: True
        obtain r2 w3 where fl: "csvFlush w2 = (r2, w3)" by (cases "csvFlush w2")
        note f2 = csvFlush_frame[OF fl]
        show ?thesis
        proof (cases r2)
          case (Inl e)
          then show ?thesis using Cons.prems True wr \<open>r1 = Inr u\<close> m fl f1 f2 by auto
        next
          case i2: (Inr u2)
          then have "csvRows f cc xs (rc + 1) (tr + 1) w3 = (r, w1)"
            using Cons.prems True wr Inr m fl by simp
          from Cons.IH[OF this] f1 f2 show ?thesis by simp
        qed
      qed
    qed
  qed
qed

lemma csvRows_counts:
  "csvRows f cc xs rc tr w = (Inr (rc', tr'), w1) \<Longrightarrow> rc' = rc + length xs \<and> tr' = tr + length xs"
proof (induction xs arbitrary: rc tr w)
  case Nil
  then show ?case by simp
next
  case (Cons x xs)
  have len: "length x = cc" using Cons.prems by (auto split: if_splits)
  obtain r1 w2 where wr: "csvWrite f (map formatCSVValue x) w = (r1, w2)"
    by (cases "csvWrite f (map formatCSVValue x) w")
  obtain u where r1: "r1 = Inr u" using Cons.prems len wr by (cases r1) auto
  show ?case
  proof (cases "(tr + 1) mod 1000 = 0")
    case False
    then have "csvRows f cc xs (rc + 1) (tr + 1) w2 = (Inr (rc', tr'), w1)"
      using Cons.prems len wr r1 by simp
    from Cons.IH[OF this] show ?thesis by simp
  next
    case True
    obtain r2 w3 where fl: "csvFlush w2 = (r2, w3)" by (cases "csvFlush w2")
    obtain u2 where r2: "r2 = Inr u2" using Cons.prems len wr r1 True fl by (cases r2) auto
    have "csvRows f cc xs (rc + 1) (tr + 1) w3 = (Inr (rc', tr'), w1)"
      using Cons.prems len wr r1 True fl r2 by simp
    from Cons.IH[OF this] show ?thesis by simp
  qed
qed



text \<open>
  The outer loop over the pages: \<open>LIMIT 5000\<close> (the local \<open>batchSize\<close>) at a growing
  offset, until a page comes back with fewer rows. It returns \<open>totalRows\<close>.
\<close>


function csvPages :: "string \<Rightarrow> string \<Rightarrow> nat \<Rightarrow> nat \<Rightarrow> nat \<Rightarrow> world \<Rightarrow> (error + nat) \<times> world" where
  "csvPages tableName filename columnCount offset totalRows w =
     (case QueryPage tableName 5000 offset w of
        (Inl err, w1) \<Rightarrow> (Inl (Wrap ''failed to query data'' (DbError err)), w1)
      | (Inr dataRows, w1) \<Rightarrow>
          (case csvRows filename columnCount dataRows 0 totalRows w1 of
             (Inl err, w2) \<Rightarrow> (Inl err, w2)
           | (Inr (rowCount, totalRows1), w2) \<Rightarrow>
               (let w3 = (if rowCount > 0
                          then Info ''Exported %d rows to CSV...'' [I (int totalRows1)] w2 else w2)
                in if rowCount < 5000 then (Inr totalRows1, w3)
                   else csvPages tableName filename columnCount (offset + 5000) totalRows1 w3)))"
  by pat_completeness auto
termination
proof (relation "measure (\<lambda>(t, f, cc, offset, tr, w).
          case tables w t of None \<Rightarrow> 0 | Some tb \<Rightarrow> length (rows tb) - offset)", goal_cases)
  case 1
  then show ?case by simp
next
  case (2 tableName filename columnCount offset totalRows w x1 w1 dataRows x2 w2 y rowCount totalRows1 w3)
  from 2(1,2) have q: "QueryPage tableName 5000 offset w = (Inr dataRows, w1)" by simp
  from 2(3,4,5) have c: "csvRows filename columnCount dataRows 0 totalRows w1 = (Inr (rowCount, totalRows1), w2)"
    by simp
  from QueryPage_Inr[OF q] obtain tb where tb: "tables w tableName = Some tb"
    and dr: "dataRows = take 5000 (drop offset (rows tb))" by blast
  have t3: "tables w3 = tables w"
    using 2(6) csvRows_frame[OF c] QueryPage_frame[OF q] by (simp add: Info_def)
  have "rowCount = length dataRows" using csvRows_counts[OF c] by simp
  with 2(7) dr have "5000 \<le> length (rows tb) - offset" by simp
  then show ?case using tb t3 by simp
qed
text \<open>
  The deferred \<open>file.Close()\<close> and \<open>writer.Flush()\<close> discard their results and have no
  effect in the model.
\<close>

definition exportTableToCSV :: "string \<Rightarrow> Config \<Rightarrow> world \<Rightarrow> (error + unit) \<times> world" where
  "exportTableToCSV tableName config w0 =
     (case MkdirAll (ExportPath config) w0 of
        (Inl err, w1) \<Rightarrow> (Inl (Wrap ''failed to create export directory'' err), w1)
      | (Inr _, w1) \<Rightarrow>
          (case time_Now w1 of
             (t, w2) \<Rightarrow>
               (let timestamp = Format_stamp t;
                    filename = ExportPath config @ ''/'' @ tableName @ ''_'' @ timestamp @ ''.csv''
                in case Create filename w2 of
                     (Inl err, w3) \<Rightarrow> (Inl (Wrap ''failed to create CSV file'' err), w3)
                   | (Inr _, w3) \<Rightarrow>
                       (case QueryColumnNames tableName (Info ''Exporting to CSV file: %s'' [S filename] w3) of
                          (Inl err, w5) \<Rightarrow> (Inl (Wrap ''failed to get column names'' (DbError err)), w5)
                        | (Inr columns, w5) \<Rightarrow>
                            (case csvWrite filename columns w5 of
                               (Inl err, w6) \<Rightarrow> (Inl (Wrap ''failed to write CSV header'' err), w6)
                             | (Inr _, w6) \<Rightarrow>
                                 (case csvPages tableName filename (length columns) 0 0 w6 of
                                    (Inl err, w7) \<Rightarrow> (Inl err, w7)
                                  | (Inr totalRows, w7) \<Rightarrow>
                                      (case csvFlush w7 of
                                         (Inl err, w8) \<Rightarrow> (Inl (Wrap ''failed to flush CSV'' err), w8)
                                       | (Inr _, w8) \<Rightarrow>
                                           (Inr (),
                                            Info ''Successfully exported %d rows to %s''
                                              [I (int totalRows), S filename] w8))))))))"

subsection \<open>\<open>exportTableToSQL\<close>\<close>

definition getCreateTable :: "string \<Rightarrow> world \<Rightarrow> (error + string) \<times> world" where
  "getCreateTable tableName w =
     (case QueryShowCreateTable tableName w of
        (Inl err, w1) \<Rightarrow> (Inl (DbError err), w1)
      | (Inr createStmt, w1) \<Rightarrow> (Inr createStmt, w1))"

definition getColumnNames :: "string \<Rightarrow> world \<Rightarrow> (error + string list) \<times> world" where
  "getColumnNames tableName w =
     (case QueryColumnNames tableName w of
        (Inl err, w1) \<Rightarrow> (Inl (DbError err), w1)
      | (Inr names, w1) \<Rightarrow> (Inr (map (\<lambda>columnName. ''`'' @ columnName @ ''`'') names), w1))"

definition insertSQL :: "string \<Rightarrow> string list \<Rightarrow> string list \<Rightarrow> string" where
  "insertSQL tableName columns insertStatements =
     ''INSERT INTO `'' @ tableName @ ''` ('' @ Join columns '','' @ '') VALUES'' @ [LF] @
     Join insertStatements ('','' @ [LF]) @ '';'' @ [LF]"

text \<open>
  The inner loop over the rows of one page; it returns the value tuples not yet
  written, \<open>rowCount\<close> and \<open>totalRows\<close>. \<open>rows.ColumnTypes()\<close> is taken not to fail, and
  the column type it yields for a cell is not read.
\<close>

fun sqlRows ::
  "string \<Rightarrow> string \<Rightarrow> string list \<Rightarrow> row list \<Rightarrow> string list \<Rightarrow> nat \<Rightarrow> nat \<Rightarrow> world
     \<Rightarrow> (error + string list \<times> nat \<times> nat) \<times> world" where
  "sqlRows filename tableName columns [] insertStatements rowCount totalRows w =
     (Inr (insertStatements, rowCount, totalRows), w)"
| "sqlRows filename tableName columns (values # rest) insertStatements rowCount totalRows w =
     (if length values \<noteq> length columns then (Inl (Wrap ''failed to scan row'' (DbError ScanError)), w)
      else
        (let valueStrings = map (\<lambda>val. formatSQLValue val ()) values;
             insertStatements1 = insertStatements @ [''('' @ Join valueStrings '','' @ '')'']
         in if length insertStatements1 \<ge> 100
            then (case WriteString filename (insertSQL tableName columns insertStatements1) w of
                    (Inl err, w1) \<Rightarrow> (Inl (Wrap ''failed to write INSERT'' err), w1)
                  | (Inr _, w1) \<Rightarrow>
                      sqlRows filename tableName columns rest [] (rowCount + 1) (totalRows + 1) w1)
            else sqlRows filename tableName columns rest insertStatements1 (rowCount + 1) (totalRows + 1) w))"

lemma sqlRows_frame:
  "sqlRows f t cols xs ins rc tr w = (r, w1) \<Longrightarrow>
     tables w1 = tables w \<and> catalog w1 = catalog w \<and> trace w1 = trace w \<and> logs w1 = logs w \<and>
     now w1 = now w \<and> later w1 = later w \<and> rand w1 = rand w"
proof (induction xs arbitrary: ins rc tr w)
  case Nil
  then show ?case by simp
next
  case (Cons x xs)
  show ?case
  proof (cases "length x = length cols")
    case False
    then show ?thesis using Cons.prems by simp
  next
    case True
    define ins1 where "ins1 = ins @ [''('' @ Join (map (\<lambda>val. formatSQLValue val ()) x) '','' @ '')'']"
    show ?thesis
    proof (cases "length ins1 \<ge> 100")
      case False
      then have "sqlRows f t cols xs ins1 (rc + 1) (tr + 1) w = (r, w1)"
        using Cons.prems True by (simp add: ins1_def Let_def)
      from Cons.IH[OF this] show ?thesis by simp
    next
      case big: True
      obtain r1 w2 where wr: "WriteString f (insertSQL t cols ins1) w = (r1, w2)"
        by (cases "WriteString f (insertSQL t cols ins1) w")
      note f1 = WriteString_frame[OF wr]
      show ?thesis
      proof (cases r1)
        case (Inl e)
        then show ?thesis using Cons.prems True big wr f1 by (auto simp: ins1_def Let_def)
      next
        case (Inr u)
        then have "sqlRows f t cols xs [] (rc + 1) (tr + 1) w2 = (r, w1)"
          using Cons.prems True big wr by (simp add: ins1_def Let_def)
        from Cons.IH[OF this] f1 show ?thesis by simp
      qed
    qed
  qed
qed

lemma sqlRows_counts:
  "sqlRows f t cols xs ins rc tr w = (Inr (ins', rc', tr'), w1) \<Longrightarrow>
     rc' = rc + length xs \<and> tr' = tr + length xs"
proof (induction xs arbitrary: ins rc tr w)
  case Nil
  then show ?case by simp
next
  case (Cons x xs)
  have len: "length x = length cols" using Cons.prems by (auto split: if_splits)
  define ins1 where "ins1 = ins @ [''('' @ Join (map (\<lambda>val. formatSQLValue val ()) x) '','' @ '')'']"
  show ?case
  proof (cases "length ins1 \<ge> 100")
    case False
    then have "sqlRows f t cols xs ins1 (rc + 1) (tr + 1) w = (Inr (ins', rc', tr'), w1)"
      using Cons.prems len by (simp add: ins1_def Let_def)
    from Cons.IH[OF this] show ?thesis by simp
  next
    case True
    obtain r1 w2 where wr: "WriteString f (insertSQL t cols ins1) w = (r1, w2)"
      by (cases "WriteString f (insertSQL t cols ins1) w")
    obtain u where r1: "r1 = Inr u" using Cons.prems len True wr by (cases r1) (auto simp: ins1_def Let_def)
    have "sqlRows f t cols xs [] (rc + 1) (tr + 1) w2 = (Inr (ins', rc', tr'), w1)"
      using Cons.prems len True wr r1 by (simp add: ins1_def Let_def)
    from Cons.IH[OF this] show ?thesis by simp
  qed
qed

text \<open>The outer loop over the pages of 1000 rows; it returns \<open>totalRows\<close>.\<close>

function sqlPages :: "string \<Rightarrow> string \<Rightarrow> string list \<Rightarrow> nat \<Rightarrow> nat \<Rightarrow> world \<Rightarrow> (error + nat) \<times> world" where
  "sqlPages tableName filename columns offset totalRows w =
     (case QueryPage tableName 1000 offset w of
        (Inl err, w1) \<Rightarrow> (Inl (Wrap ''failed to query data'' (DbError err)), w1)
      | (Inr dataRows, w1) \<Rightarrow>
          (case sqlRows filename tableName columns dataRows [] 0 totalRows w1 of
             (Inl err, w2) \<Rightarrow> (Inl err, w2)
           | (Inr (insertStatements, rowCount, totalRows1), w2) \<Rightarrow>
               (case (if length insertStatements > 0
                      then WriteString filename (insertSQL tableName columns insertStatements) w2
                      else (Inr (), w2)) of
                  (Inl err, w3) \<Rightarrow> (Inl (Wrap ''failed to write INSERT'' err), w3)
                | (Inr _, w3) \<Rightarrow>
                    if rowCount < 1000 then (Inr totalRows1, w3)
                    else sqlPages tableName filename columns (offset + 1000) totalRows1
                           (Info ''Exported %d rows...'' [I (int totalRows1)] w3))))"
  by pat_completeness auto
termination
proof (relation "measure (\<lambda>(t, f, cols, offset, tr, w).
          case tables w t of None \<Rightarrow> 0 | Some tb \<Rightarrow> length (rows tb) - offset)", goal_cases)
  case 1
  then show ?case by simp
next
  case (2 tableName filename columns offset totalRows w x1 w1 dataRows x2 w2 y insertStatements z rowCount totalRows1 x3 w3 u)
  from 2(1,2) have q: "QueryPage tableName 1000 offset w = (Inr dataRows, w1)" by simp
  from 2(3-6) have c: "sqlRows filename tableName columns dataRows [] 0 totalRows w1
      = (Inr (insertStatements, rowCount, totalRows1), w2)"
    by simp
  from QueryPage_Inr[OF q] obtain tb where tb: "tables w tableName = Some tb"
    and dr: "dataRows = take 1000 (drop offset (rows tb))" by blast
  have "tables w3 = tables w2"
  proof (cases "0 < length insertStatements")
    case True
    with 2(7) have "WriteString filename (insertSQL tableName columns insertStatements) w2 = (x3, w3)"
      by simp
    from WriteString_frame[OF this] show ?thesis by simp
  next
    case False
    with 2(7) show ?thesis by simp
  qed
  then have t3: "tables (Info ''Exported %d rows...'' [I (int totalRows1)] w3) = tables w"
    using sqlRows_frame[OF c] QueryPage_frame[OF q] by (simp add: Info_def)
  have "rowCount = length dataRows" using sqlRows_counts[OF c] by simp
  with 2(9) dr have "1000 \<le> length (rows tb) - offset" by simp
  then show ?case using tb t3 by simp
qed



definition sqlHeader :: "string \<Rightarrow> string \<Rightarrow> string \<Rightarrow> string \<Rightarrow> string" where
  "sqlHeader tableName host database generated =
     ''-- MySQL dump of table '' @ tableName @ [LF] @
     ''-- Host: '' @ host @ ''    Database: '' @ database @ [LF] @
     ''-- Generated: '' @ generated @ [LF] @
     ''-- ------------------------------------------------------'' @ [LF] @
     [LF] @
     ''SET @OLD_UNIQUE_CHECKS=@@UNIQUE_CHECKS, UNIQUE_CHECKS=0;'' @ [LF] @
     ''SET @OLD_FOREIGN_KEY_CHECKS=@@FOREIGN_KEY_CHECKS, FOREIGN_KEY_CHECKS=0;'' @ [LF] @
     ''SET @OLD_SQL_MODE=@@SQL_MODE, SQL_MODE='' @ [squote] @ ''NO_AUTO_VALUE_ON_ZERO'' @ [squote] @ '';'' @ [LF] @
     ''SET @OLD_TIME_ZONE=@@TIME_ZONE, TIME_ZONE='' @ [squote] @ ''+00:00'' @ [squote] @ '';'' @ [LF] @
     [LF] @
     ''--'' @ [LF] @
     ''-- Table structure for table '' @ tableName @ [LF] @
     ''--'' @ [LF] @
     [LF] @
     ''DROP TABLE IF EXISTS `'' @ tableName @ ''`;'' @ [LF] @
     [LF]"

definition sqlDataHeader :: "string \<Rightarrow> string" where
  "sqlDataHeader tableName =
     ''--'' @ [LF] @ ''-- Dumping data for table `'' @ tableName @ ''`'' @ [LF] @ ''--'' @ [LF] @ [LF] @
     ''LOCK TABLES `'' @ tableName @ ''` WRITE;'' @ [LF]"

definition sqlFooter :: "string \<Rightarrow> nat \<Rightarrow> string" where
  "sqlFooter completed totalRows =
     ''UNLOCK TABLES;'' @ [LF] @
     [LF] @
     ''--'' @ [LF] @
     ''-- Dump completed on '' @ completed @ [LF] @
     ''-- Total rows exported: '' @ natstr totalRows @ [LF] @
     ''--'' @ [LF] @
     [LF] @
     ''SET SQL_MODE=@OLD_SQL_MODE;'' @ [LF] @
     ''SET FOREIGN_KEY_CHECKS=@OLD_FOREIGN_KEY_CHECKS;'' @ [LF] @
     ''SET UNIQUE_CHECKS=@OLD_UNIQUE_CHECKS;'' @ [LF] @
     ''SET TIME_ZONE=@OLD_TIME_ZONE;'' @ [LF]"

text \<open>
  The part of \<open>exportTableToSQL\<close> that runs after \<open>LOCK TABLES\<close> has succeeded, that is,
  under the deferred \<open>UNLOCK TABLES\<close>.
\<close>

definition exportTableToSQL_locked :: "string \<Rightarrow> string \<Rightarrow> world \<Rightarrow> (error + unit) \<times> world" where
  "exportTableToSQL_locked tableName filename w8 =
     (case getColumnNames tableName w8 of
        (Inl err, w9) \<Rightarrow> (Inl (Wrap ''failed to get column names'' err), w9)
      | (Inr columns, w9) \<Rightarrow>
          (case WriteString filename (sqlDataHeader tableName) w9 of
             (Inl err, w10) \<Rightarrow> (Inl (Wrap ''failed to write data header'' err), w10)
           | (Inr _, w10) \<Rightarrow>
               (case sqlPages tableName filename columns 0 0 w10 of
                  (Inl err, w11) \<Rightarrow> (Inl err, w11)
                | (Inr totalRows, w11) \<Rightarrow>
                    (case time_Now w11 of
                       (t, w12) \<Rightarrow>
                         (case WriteString filename (sqlFooter (Format_datetime t) totalRows) w12 of
                            (Inl err, w13) \<Rightarrow> (Inl (Wrap ''failed to write footer'' err), w13)
                          | (Inr _, w13) \<Rightarrow>
                              (Inr (),
                               Info ''Successfully exported %d rows to %s''
                                 [I (int totalRows), S filename] w13))))))"

text \<open>
  \<open>exportTableToSQL\<close>. Once the lock is taken, \<open>UNLOCK TABLES\<close> is sent on every way out
  and its result discarded. The deferred \<open>file.Close()\<close> has no effect in the model.
\<close>

definition exportTableToSQL :: "string \<Rightarrow> Config \<Rightarrow> world \<Rightarrow> (error + unit) \<times> world" where
  "exportTableToSQL tableName config w0 =
     (case MkdirAll (ExportPath config) w0 of
        (Inl err, w1) \<Rightarrow> (Inl (Wrap ''failed to create export directory'' err), w1)
      | (Inr _, w1) \<Rightarrow>
          (case time_Now w1 of
             (t, w2) \<Rightarrow>
               (let timestamp = Format_stamp t;
                    filename = ExportPath config @ ''/'' @ tableName @ ''_'' @ timestamp @ ''.sql''
                in case Create filename w2 of
                     (Inl err, w3) \<Rightarrow> (Inl (Wrap ''failed to create SQL file'' err), w3)
                   | (Inr _, w3) \<Rightarrow>
                       (case time_Now (Info ''Exporting to file: %s'' [S filename] w3) of
                          (g, w4) \<Rightarrow>
                            (case WriteString filename
                                    (sqlHeader tableName (Host config) (Database config) (Format_datetime g)) w4 of
                               (Inl err, w5) \<Rightarrow> (Inl (Wrap ''failed to write header'' err), w5)
                             | (Inr _, w5) \<Rightarrow>
                                 (case getCreateTable tableName w5 of
                                    (Inl err, w6) \<Rightarrow> (Inl (Wrap ''failed to get CREATE TABLE'' err), w6)
                                  | (Inr createStmt, w6) \<Rightarrow>
                                      (case WriteString filename (createStmt @ '';'' @ [LF, LF]) w6 of
                                         (Inl err, w7) \<Rightarrow> (Inl (Wrap ''failed to write CREATE TABLE'' err), w7)
                                       | (Inr _, w7) \<Rightarrow>
                                           (case Exec (LockTablesRead tableName) w7 of
                                              (Inl err, w8) \<Rightarrow>
                                                (Inl (Wrap ''failed to lock table'' (DbError err)), w8)
                                            | (Inr _, w8) \<Rightarrow>
                                                (case exportTableToSQL_locked tableName filename w8 of
                                                   (r, w9) \<Rightarrow> (r, snd (Exec UnlockTables w9)))))))))))"

subsection \<open>The cutover pipeline\<close>

text \<open>The priority list of \<open>detectDateColumn\<close>.\<close>

definition dateColumns :: "string list" where
  "dateColumns = [''smsdate'', ''request_time'', ''deli_date'', ''created_at'', ''updated_at'',
                  ''req_date'', ''res_date'', ''date_created'', ''created'']"

definition isDateType :: "string \<Rightarrow> bool" where
  "isDateType colType \<longleftrightarrow> Contains (ToLower colType) ''date'' \<or> Contains (ToLower colType) ''time''"

text \<open>
  The map \<open>availableColumns\<close> (every value in it is \<open>true\<close>) is the list of its keys,
  without repetition. The first loop of \<open>detectDateColumn\<close> fills it.
\<close>

definition mapInsert :: "string \<Rightarrow> string list \<Rightarrow> string list" where
  "mapInsert k m = (if k \<in> set m then m else m @ [k])"

fun collectAvailable :: "column list \<Rightarrow> string list \<Rightarrow> string list" where
  "collectAvailable [] availableColumns = availableColumns"
| "collectAvailable ((field, colType) # rest) availableColumns =
     collectAvailable rest (if isDateType colType then mapInsert field availableColumns
                            else availableColumns)"

text \<open>
  \<open>for col := range availableColumns { return col, nil }\<close>: the key the iteration
  starts with. Go does not specify the order of an iteration over a map, and the
  runtime starts it at a random position: any key can come first.
\<close>

definition rangeFirst :: "nat \<Rightarrow> string list \<Rightarrow> string option" where
  "rangeFirst r keys = (if keys = [] then None else Some (keys ! (r mod length keys)))"

definition detectDateColumn :: "string \<Rightarrow> world \<Rightarrow> (error + string) \<times> world" where
  "detectDateColumn tableName w =
     (case QueryShowColumns tableName w of
        (Inl err, w1) \<Rightarrow> (Inl (DbError err), w1)
      | (Inr cols, w1) \<Rightarrow>
          (let availableColumns = collectAvailable cols [] in
           case find (\<lambda>col. col \<in> set availableColumns) dateColumns of
             Some col \<Rightarrow> (Inr col, w1)
           | None \<Rightarrow>
               (case rangeFirst (rand w1) availableColumns of
                  Some col \<Rightarrow> (Inr col, w1)
                | None \<Rightarrow> (Inl (Msg (''no suitable date column found in table '' @ tableName)), w1))))"

definition countRecords :: "Config \<Rightarrow> world \<Rightarrow> (error + int \<times> int \<times> string) \<times> world" where
  "countRecords config w =
     (case detectDateColumn (Table config) w of
        (Inl err, w1) \<Rightarrow> (Inl err, w1)
      | (Inr dateColumn, w1) \<Rightarrow>
          (case time_Now (Info ''Using date column: %s'' [S dateColumn] w1) of
             (t, w2) \<Rightarrow>
               (let cutoffDate = AddDate_days t (- DaysToKeep config) in
                case QueryCount (CountOlder (Table config) dateColumn cutoffDate)
                       (Info ''Cutoff date: %s'' [S (Format_date cutoffDate)] w2) of
                  (Inl err, w3) \<Rightarrow> (Inl (DbError err), w3)
                | (Inr archiveCount, w3) \<Rightarrow>
                    (case QueryCount (CountNotOlder (Table config) dateColumn cutoffDate) w3 of
                       (Inl err, w4) \<Rightarrow> (Inl (DbError err), w4)
                     | (Inr keepCount, w4) \<Rightarrow> (Inr (archiveCount, keepCount, dateColumn), w4)))))"

definition copyOldRecords :: "string \<Rightarrow> string \<Rightarrow> string \<Rightarrow> time \<Rightarrow> world \<Rightarrow> (error + unit) \<times> world" where
  "copyOldRecords sourceTable destTable dateColumn cutoffDate w =
     (let query = InsertOlder destTable sourceTable dateColumn cutoffDate in
      case Exec query (Info ''Executing: %s with cutoff %s'' [S (sql_text query), S (Format_date cutoffDate)] w) of
        (Inl err, w1) \<Rightarrow> (Inl (DbError err), w1)
      | (Inr rowsAffected, w1) \<Rightarrow> (Inr (), Info ''Copied %d rows'' [I rowsAffected] w1))"

definition deleteOldRecords :: "string \<Rightarrow> string \<Rightarrow> time \<Rightarrow> world \<Rightarrow> (error + unit) \<times> world" where
  "deleteOldRecords table dateColumn cutoffDate w =
     (let query = DeleteOlder table dateColumn cutoffDate in
      case Exec query (Info ''Executing: %s with cutoff %s'' [S (sql_text query), S (Format_date cutoffDate)] w) of
        (Inl err, w1) \<Rightarrow> (Inl (DbError err), w1)
      | (Inr rowsAffected, w1) \<Rightarrow> (Inr (), Info ''Deleted %d rows'' [I rowsAffected] w1))"

definition getTableCount :: "string \<Rightarrow> world \<Rightarrow> (error + int) \<times> world" where
  "getTableCount tableName w =
     (case QueryCount (CountAll tableName) w of
        (Inl err, w1) \<Rightarrow> (Inl (DbError err), w1)
      | (Inr count, w1) \<Rightarrow> (Inr count, w1))"

definition truncateSQL :: "string \<Rightarrow> nat \<Rightarrow> string" where
  "truncateSQL sql maxLen = (if length sql \<le> maxLen then sql else take maxLen sql @ ''...'')"

definition executeSQL :: "stmt \<Rightarrow> world \<Rightarrow> (error + unit) \<times> world" where
  "executeSQL query w =
     (case Exec query (Info ''Executing SQL: %s'' [S (truncateSQL (sql_text query) 200)] w) of
        (Inl err, w1) \<Rightarrow> (Inl (DbError err), w1)
      | (Inr _, w1) \<Rightarrow> (Inr (), w1))"

text \<open>Step 9 of \<open>archiveTable\<close>: the optional exports, whose failures are logged only.\<close>

definition exportArchive :: "string \<Rightarrow> Config \<Rightarrow> world \<Rightarrow> world" where
  "exportArchive archiveTableName config w =
     (if ExportSQL config \<or> ExportCSV config then
        (let w1 =
           (if ExportSQL config then
              (case exportTableToSQL archiveTableName config
                      (Info ''Step 9a: Exporting archived table to SQL file'' [] w) of
                 (Inl err, wa) \<Rightarrow> Error ''Failed to export SQL: %v'' [E err] wa
               | (Inr _, wa) \<Rightarrow> Info ''SQL export completed successfully'' [] wa)
            else w)
         in if ExportCSV config then
              (case exportTableToCSV archiveTableName config
                      (Info ''Step 9b: Exporting archived table to CSV file'' [] w1) of
                 (Inl err, wb) \<Rightarrow> Error ''Failed to export CSV: %v'' [E err] wb
               | (Inr _, wb) \<Rightarrow> Info ''CSV export completed successfully'' [] wb)
            else w1)
      else w)"

text \<open>Steps 3 to 9 of \<open>archiveTable\<close>, after the counts and the dry-run exit.\<close>

definition cutover ::
  "Config \<Rightarrow> string \<Rightarrow> string \<Rightarrow> string \<Rightarrow> string \<Rightarrow> int \<Rightarrow> int \<Rightarrow> string \<Rightarrow> world
     \<Rightarrow> (error + unit) \<times> world" where
  "cutover config suffix newTableName archiveTableName createStmt archiveCount keepCount dateColumn w =
     (let newCreateStmt = modifyCreateStatement createStmt (Table config) newTableName suffix in
      case executeSQL (Raw newCreateStmt) (Info ''Step 3: Creating new table %s'' [S newTableName] w) of
        (Inl err, w1) \<Rightarrow> (Inl (Wrap ''failed to create new table'' err), w1)
      | (Inr _, w1) \<Rightarrow>
          (case time_Now (Info ''Step 4: Copying old records to %s'' [S newTableName] w1) of
             (t, w2) \<Rightarrow>
               (let cutoffDate = AddDate_days t (- DaysToKeep config) in
                case copyOldRecords (Table config) newTableName dateColumn cutoffDate w2 of
                  (Inl err, w3) \<Rightarrow>
                    (Inl (Wrap ''failed to copy records'' err),
                     snd (executeSQL (DropTableIfExists newTableName)
                            (Error ''Failed to copy records, dropping new table'' [] w3)))
                | (Inr _, w3) \<Rightarrow>
                    (case getTableCount newTableName (Info ''Step 5: Verifying copied records'' [] w3) of
                       (Inl err, w4) \<Rightarrow> (Inl (Wrap ''failed to verify copied records'' err), w4)
                     | (Inr copiedCount, w4) \<Rightarrow>
                         if copiedCount \<noteq> keepCount
                         then (Inl (Msg ''record count mismatch''),
                               Error ''Record count mismatch! Expected: %d, Got: %d''
                                 [I archiveCount, I copiedCount] w4)
                         else
                           (case deleteOldRecords (Table config) dateColumn cutoffDate
                                   (Info ''Step 6: Deleting archived records from %s'' [S (Table config)]
                                      (Info ''Verification successful: %d records copied'' [I copiedCount] w4)) of
                              (Inl err, w5) \<Rightarrow> (Inl (Wrap ''failed to delete old records'' err), w5)
                            | (Inr _, w5) \<Rightarrow>
                                (case executeSQL (RenameTable (Table config) archiveTableName)
                                        (Info ''Step 7: Renaming original table to %s'' [S archiveTableName] w5) of
                                   (Inl err, w6) \<Rightarrow> (Inl (Wrap ''failed to rename table'' err), w6)
                                 | (Inr _, w6) \<Rightarrow>
                                     (case executeSQL (RenameTable newTableName (Table config))
                                             (Info ''Step 8: Renaming %s to %s''
                                                [S newTableName, S (Table config)] w6) of
                                        (Inl err, w7) \<Rightarrow> (Inl (Wrap ''failed to rename new table'' err), w7)
                                      | (Inr _, w7) \<Rightarrow>
                                          (Inr (),
                                           exportArchive archiveTableName config
                                             (Info ''Archive complete! Old table renamed to %s, new table is now %s''
                                                [S archiveTableName, S (Table config)] w7)))))))))"

definition archiveTable :: "Config \<Rightarrow> world \<Rightarrow> (error + unit) \<times> world" where
  "archiveTable config w =
     (case time_Now w of
        (t, w0) \<Rightarrow>
          (let suffix = Format_compact t;
               newTableName = Table config @ ''_'' @ suffix;
               archiveTableName = Table config @ ''_archive_'' @ suffix
           in case getCreateTable (Table config)
                     (Info ''Step 1: Retrieving CREATE TABLE statement for %s'' [S (Table config)] w0) of
                (Inl err, w1) \<Rightarrow> (Inl (Wrap ''failed to get CREATE TABLE'' err), w1)
              | (Inr createStmt, w1) \<Rightarrow>
                  (case countRecords config (Info ''Step 2: Counting records'' [] w1) of
                     (Inl err, w2) \<Rightarrow> (Inl (Wrap ''failed to count records'' err), w2)
                   | (Inr (archiveCount, keepCount, dateColumn), w2) \<Rightarrow>
                       (let w3 = Info ''Records to archive: %d, Records to keep: %d''
                                   [I archiveCount, I keepCount] w2
                        in if archiveCount = 0
                           then (Inr (), Warning ''No records to archive. Exiting.'' [] w3)
                           else if DryRun config
                           then (Inr (),
                                 Info ''Would rename original table to: %s'' [S archiveTableName]
                                   (Info ''Would move %d records to archive'' [I archiveCount]
                                      (Info ''Would create archive table: %s'' [S newTableName]
                                         (Info ''DRY RUN MODE - No changes will be made'' [] w3))))
                           else cutover config suffix newTableName archiveTableName createStmt
                                  archiveCount keepCount dateColumn w3))))"


section \<open>Verification\<close>


subsection \<open>How each operation changes the world\<close>

lemma Info_fields [simp]:
  "tables (Info f a w) = tables w" "catalog (Info f a w) = catalog w" "faults (Info f a w) = faults w"
  "trace (Info f a w) = trace w" "logs (Info f a w) = logs w @ [(INFO, f, a)]" "now (Info f a w) = now w"
  "later (Info f a w) = later w" "rand (Info f a w) = rand w" "files (Info f a w) = files w"
  by (simp_all add: Info_def)

lemma Error_fields [simp]:
  "tables (Error f a w) = tables w" "catalog (Error f a w) = catalog w" "faults (Error f a w) = faults w"
  "trace (Error f a w) = trace w" "logs (Error f a w) = logs w @ [(ERROR, f, a)]" "now (Error f a w) = now w"
  "later (Error f a w) = later w" "rand (Error f a w) = rand w" "files (Error f a w) = files w"
  by (simp_all add: Error_def)

lemma Warning_fields [simp]:
  "tables (Warning f a w) = tables w" "catalog (Warning f a w) = catalog w" "faults (Warning f a w) = faults w"
  "trace (Warning f a w) = trace w" "logs (Warning f a w) = logs w @ [(WARNING, f, a)]" "now (Warning f a w) = now w"
  "later (Warning f a w) = later w" "rand (Warning f a w) = rand w" "files (Warning f a w) = files w"
  by (simp_all add: Warning_def)

lemma time_Now_frame:
  "time_Now w = (t, w1) \<Longrightarrow>
     t = now w \<and> now w1 = (case later w of [] \<Rightarrow> now w | x # xs \<Rightarrow> x) \<and>
     tables w1 = tables w \<and> catalog w1 = catalog w \<and> trace w1 = trace w \<and> logs w1 = logs w \<and>
     files w1 = files w \<and> rand w1 = rand w \<and> faults w1 = faults w"
  by (auto simp: time_Now_def split: list.splits)

lemma Exec_frame:
  "Exec q w = (r, w1) \<Longrightarrow>
     catalog w1 = catalog w \<and> trace w1 = trace w @ [q] \<and> logs w1 = logs w \<and>
     files w1 = files w \<and> now w1 = now w \<and> later w1 = later w \<and> rand w1 = rand w"
  by (auto simp: Exec_def split: prod.splits bool.splits sum.splits dest!: send_frame)

lemma Exec_Inl: "Exec q w = (Inl e, w1) \<Longrightarrow> tables w1 = tables w"
  by (auto simp: Exec_def split: prod.splits bool.splits sum.splits dest!: send_frame)

lemma Exec_Inr: "Exec q w = (Inr n, w1) \<Longrightarrow> effect (catalog w) q (tables w) = Inr (tables w1, n)"
  by (auto simp: Exec_def split: prod.splits bool.splits sum.splits dest!: send_frame)

lemma QueryCount_frame:
  "QueryCount q w = (r, w1) \<Longrightarrow>
     tables w1 = tables w \<and> catalog w1 = catalog w \<and> trace w1 = trace w @ [q] \<and> logs w1 = logs w \<and>
     files w1 = files w \<and> now w1 = now w \<and> later w1 = later w \<and> rand w1 = rand w"
  by (auto simp: QueryCount_def split: prod.splits bool.splits sum.splits dest!: send_frame)

lemma QueryCount_Inr: "QueryCount q w = (Inr n, w1) \<Longrightarrow> countResult (catalog w) q (tables w) = Inr n"
  by (auto simp: QueryCount_def split: prod.splits bool.splits sum.splits dest!: send_frame)

lemma QueryShowCreateTable_frame:
  "QueryShowCreateTable t w = (r, w1) \<Longrightarrow>
     tables w1 = tables w \<and> catalog w1 = catalog w \<and> trace w1 = trace w @ [ShowCreateTable t] \<and>
     logs w1 = logs w \<and> files w1 = files w \<and> now w1 = now w \<and> later w1 = later w \<and> rand w1 = rand w"
  by (auto simp: QueryShowCreateTable_def split: prod.splits bool.splits option.splits dest!: send_frame)

lemma QueryShowCreateTable_Inr:
  "QueryShowCreateTable t w = (Inr s, w1) \<Longrightarrow> \<exists>tb. tables w t = Some tb \<and> s = createHeader t @ body tb"
  by (auto simp: QueryShowCreateTable_def split: prod.splits bool.splits option.splits dest!: send_frame)

lemma QueryShowColumns_frame:
  "QueryShowColumns t w = (r, w1) \<Longrightarrow>
     tables w1 = tables w \<and> catalog w1 = catalog w \<and> trace w1 = trace w @ [ShowColumns t] \<and>
     logs w1 = logs w \<and> files w1 = files w \<and> now w1 = now w \<and> later w1 = later w \<and> rand w1 = rand w"
  by (auto simp: QueryShowColumns_def split: prod.splits bool.splits option.splits dest!: send_frame)

lemma QueryShowColumns_Inr:
  "QueryShowColumns t w = (Inr cols, w1) \<Longrightarrow> \<exists>tb. tables w t = Some tb \<and> cols = catalog w (body tb)"
  by (auto simp: QueryShowColumns_def split: prod.splits bool.splits option.splits dest!: send_frame)

lemma QueryColumnNames_frame:
  "QueryColumnNames t w = (r, w1) \<Longrightarrow>
     tables w1 = tables w \<and> catalog w1 = catalog w \<and> trace w1 = trace w @ [SelectColumnNames t] \<and>
     logs w1 = logs w \<and> files w1 = files w \<and> now w1 = now w \<and> later w1 = later w \<and> rand w1 = rand w"
  by (auto simp: QueryColumnNames_def split: prod.splits bool.splits option.splits dest!: send_frame)

lemma MkdirAll_frame:
  "MkdirAll p w = (r, w1) \<Longrightarrow>
     tables w1 = tables w \<and> catalog w1 = catalog w \<and> trace w1 = trace w \<and> logs w1 = logs w \<and>
     files w1 = files w \<and> now w1 = now w \<and> later w1 = later w \<and> rand w1 = rand w"
  by (auto simp: MkdirAll_def split: prod.splits bool.splits dest!: fails_frame)

lemma Create_frame:
  "Create f w = (r, w1) \<Longrightarrow>
     tables w1 = tables w \<and> catalog w1 = catalog w \<and> trace w1 = trace w \<and> logs w1 = logs w \<and>
     now w1 = now w \<and> later w1 = later w \<and> rand w1 = rand w"
  by (auto simp: Create_def split: prod.splits bool.splits dest!: fails_frame)

text \<open>The statements an exporter sends.\<close>

fun isExportStmt :: "stmt \<Rightarrow> bool" where
  "isExportStmt (ShowCreateTable t) = True"
| "isExportStmt (SelectColumnNames t) = True"
| "isExportStmt (SelectPage t l off) = True"
| "isExportStmt (LockTablesRead t) = True"
| "isExportStmt UnlockTables = True"
| "isExportStmt q = False"

declare csvPages.simps [simp del]
declare sqlPages.simps [simp del]

lemma csvPages_frame:
  "csvPages t f cc off tr w = (r, w1) \<Longrightarrow>
     tables w1 = tables w \<and> catalog w1 = catalog w \<and> rand w1 = rand w \<and>
     (\<exists>new. trace w1 = trace w @ new \<and> list_all isExportStmt new)"
proof (induction t f cc off tr w rule: csvPages.induct)
  case (1 tableName filename columnCount offset totalRows w)
  obtain x1 wa where q: "QueryPage tableName 5000 offset w = (x1, wa)"
    by (cases "QueryPage tableName 5000 offset w")
  note fq = QueryPage_frame[OF q]
  show ?case
  proof (cases x1)
    case (Inl e)
    then show ?thesis using "1.prems" q fq by (subst (asm) csvPages.simps) auto
  next
    case (Inr dataRows)
    obtain x2 wb where c: "csvRows filename columnCount dataRows 0 totalRows wa = (x2, wb)"
      by (cases "csvRows filename columnCount dataRows 0 totalRows wa")
    note fc = csvRows_frame[OF c]
    show ?thesis
    proof (cases x2)
      case (Inl e)
      then show ?thesis using "1.prems" q Inr c fq fc by (subst (asm) csvPages.simps) auto
    next
      case r2: (Inr y)
      obtain rowCount totalRows1 where y: "y = (rowCount, totalRows1)" by (cases y)
      define w3 where "w3 = (if 0 < rowCount
          then Info ''Exported %d rows to CSV...'' [I (int totalRows1)] wb else wb)"
      have f3: "tables w3 = tables w \<and> catalog w3 = catalog w \<and> rand w3 = rand w \<and>
          trace w3 = trace w @ [SelectPage tableName 5000 offset]"
        using fq fc by (simp add: w3_def)
      show ?thesis
      proof (cases "rowCount < 5000")
        case True
        then have "w1 = w3" using "1.prems" q Inr c r2 y
          by (subst (asm) csvPages.simps) (simp add: w3_def)
        then show ?thesis using f3 by simp
      next
        case False
        then have rec: "csvPages tableName filename columnCount (offset + 5000) totalRows1 w3 = (r, w1)"
          using "1.prems" q Inr c r2 y by (subst (asm) csvPages.simps) (simp add: w3_def)
        from "1.IH"[OF q[symmetric] Inr c[symmetric] r2 y[symmetric] w3_def False rec]
        show ?thesis using f3 by auto
      qed
    qed
  qed
qed

lemma sqlPages_frame:
  "sqlPages t f cols off tr w = (r, w1) \<Longrightarrow>
     tables w1 = tables w \<and> catalog w1 = catalog w \<and> rand w1 = rand w \<and>
     (\<exists>new. trace w1 = trace w @ new \<and> list_all isExportStmt new)"
proof (induction t f cols off tr w rule: sqlPages.induct)
  case (1 tableName filename columns offset totalRows w)
  obtain x1 wa where q: "QueryPage tableName 1000 offset w = (x1, wa)"
    by (cases "QueryPage tableName 1000 offset w")
  note fq = QueryPage_frame[OF q]
  show ?case
  proof (cases x1)
    case (Inl e)
    then show ?thesis using "1.prems" q fq by (subst (asm) sqlPages.simps) auto
  next
    case (Inr dataRows)
    obtain x2 wb where c: "sqlRows filename tableName columns dataRows [] 0 totalRows wa = (x2, wb)"
      by (cases "sqlRows filename tableName columns dataRows [] 0 totalRows wa")
    note fc = sqlRows_frame[OF c]
    show ?thesis
    proof (cases x2)
      case (Inl e)
      then show ?thesis using "1.prems" q Inr c fq fc by (subst (asm) sqlPages.simps) auto
    next
      case r2: (Inr y)
      obtain insertStatements z where y: "y = (insertStatements, z)" by (cases y)
      obtain rowCount totalRows1 where z: "z = (rowCount, totalRows1)" by (cases z)
      obtain x3 wc where wr: "(if 0 < length insertStatements
            then WriteString filename (insertSQL tableName columns insertStatements) wb
            else (Inr (), wb)) = (x3, wc)"
        by (cases "(if 0 < length insertStatements
            then WriteString filename (insertSQL tableName columns insertStatements) wb
            else (Inr (), wb))")
      have f3: "tables wc = tables w \<and> catalog wc = catalog w \<and> rand wc = rand w \<and>
          trace wc = trace w @ [SelectPage tableName 1000 offset]"
      proof (cases "0 < length insertStatements")
        case True
        with wr have "WriteString filename (insertSQL tableName columns insertStatements) wb = (x3, wc)"
          by simp
        from WriteString_frame[OF this] fq fc show ?thesis by simp
      next
        case False
        with wr fq fc show ?thesis by simp
      qed
      show ?thesis
      proof (cases x3)
        case (Inl e)
        then show ?thesis using "1.prems" q Inr c r2 y z wr f3
          by (subst (asm) sqlPages.simps) auto
      next
        case r3: (Inr u)
        show ?thesis
        proof (cases "rowCount < 1000")
          case True
          then have "w1 = wc" using "1.prems" q Inr c r2 y z wr r3
            by (subst (asm) sqlPages.simps) simp
          then show ?thesis using f3 by simp
        next
          case False
          then have rec: "sqlPages tableName filename columns (offset + 1000) totalRows1
              (Info ''Exported %d rows...'' [I (int totalRows1)] wc) = (r, w1)"
            using "1.prems" q Inr c r2 y z wr r3 by (subst (asm) sqlPages.simps) simp
          from "1.IH"[OF q[symmetric] Inr c[symmetric] r2 y[symmetric] z[symmetric] wr[symmetric] r3 False rec]
          show ?thesis using f3 by auto
        qed
      qed
    qed
  qed
qed

lemma csvWrite_frame:
  "csvWrite f rec w = (r, w1) \<Longrightarrow>
     tables w1 = tables w \<and> catalog w1 = catalog w \<and> trace w1 = trace w \<and> logs w1 = logs w \<and>
     now w1 = now w \<and> later w1 = later w \<and> rand w1 = rand w"
  unfolding csvWrite_def by (rule WriteString_frame)

lemma exportTableToCSV_frame:
  assumes "exportTableToCSV t cfg w = (r, w')"
  shows "tables w' = tables w \<and> catalog w' = catalog w \<and> rand w' = rand w \<and>
         (\<exists>new. trace w' = trace w @ new \<and> list_all isExportStmt new)"
proof -
  obtain r1 w1 where 1: "MkdirAll (ExportPath cfg) w = (r1, w1)" by (cases "MkdirAll (ExportPath cfg) w")
  note f1 = MkdirAll_frame[OF 1]
  obtain tm w2 where 2: "time_Now w1 = (tm, w2)" by (cases "time_Now w1")
  note f2 = time_Now_frame[OF 2]
  define fn where "fn = ExportPath cfg @ ''/'' @ t @ ''_'' @ Format_stamp tm @ ''.csv''"
  obtain r3 w3 where 3: "Create fn w2 = (r3, w3)" by (cases "Create fn w2")
  note f3 = Create_frame[OF 3]
  obtain r5 w5 where 5: "QueryColumnNames t (Info ''Exporting to CSV file: %s'' [S fn] w3) = (r5, w5)"
    by (cases "QueryColumnNames t (Info ''Exporting to CSV file: %s'' [S fn] w3)")
  note f5 = QueryColumnNames_frame[OF 5]
  show ?thesis
  proof (cases r1)
    case (Inl e)
    then show ?thesis using assms 1 f1 by (auto simp: exportTableToCSV_def)
  next
    case a: (Inr u1)
    show ?thesis
    proof (cases r3)
      case (Inl e)
      then show ?thesis using assms 1 a 2 3 f1 f2 f3 by (auto simp: exportTableToCSV_def fn_def Let_def)
    next
      case b: (Inr u3)
      show ?thesis
      proof (cases r5)
        case (Inl e)
        then show ?thesis using assms 1 a 2 3 b 5 f1 f2 f3 f5
          by (auto simp: exportTableToCSV_def fn_def Let_def)
      next
        case c: (Inr columns)
        obtain r6 w6 where 6: "csvWrite fn columns w5 = (r6, w6)" by (cases "csvWrite fn columns w5")
        note f6 = csvWrite_frame[OF 6]
        show ?thesis
        proof (cases r6)
          case (Inl e)
          then show ?thesis using assms 1 a 2 3 b 5 c 6 f1 f2 f3 f5 f6
            by (auto simp: exportTableToCSV_def fn_def Let_def)
        next
          case d: (Inr u6)
          obtain r7 w7 where 7: "csvPages t fn (length columns) 0 0 w6 = (r7, w7)"
            by (cases "csvPages t fn (length columns) 0 0 w6")
          from csvPages_frame[OF 7] obtain new where f7: "tables w7 = tables w6" "catalog w7 = catalog w6"
            "rand w7 = rand w6" "trace w7 = trace w6 @ new" "list_all isExportStmt new" by blast
          show ?thesis
          proof (cases r7)
            case (Inl e)
            then show ?thesis using assms 1 a 2 3 b 5 c 6 d 7 f1 f2 f3 f5 f6 f7
              by (auto simp: exportTableToCSV_def fn_def Let_def)
          next
            case e: (Inr totalRows)
            obtain r8 w8 where 8: "csvFlush w7 = (r8, w8)" by (cases "csvFlush w7")
            note f8 = csvFlush_frame[OF 8]
            show ?thesis using assms 1 a 2 3 b 5 c 6 d 7 e 8 f1 f2 f3 f5 f6 f7 f8
              by (cases r8) (auto simp: exportTableToCSV_def fn_def Let_def)
          qed
        qed
      qed
    qed
  qed
qed

lemma Exec_lock_tables:
  "Exec (LockTablesRead t) w = (r, w1) \<Longrightarrow> tables w1 = tables w"
  by (auto simp: Exec_def split: prod.splits bool.splits sum.splits option.splits dest!: send_frame)

lemma Exec_unlock_tables:
  "Exec UnlockTables w = (r, w1) \<Longrightarrow> tables w1 = tables w"
  by (auto simp: Exec_def split: prod.splits bool.splits sum.splits dest!: send_frame)

lemma getCreateTable_frame:
  "getCreateTable t w = (r, w1) \<Longrightarrow>
     tables w1 = tables w \<and> catalog w1 = catalog w \<and> trace w1 = trace w @ [ShowCreateTable t] \<and>
     logs w1 = logs w \<and> files w1 = files w \<and> now w1 = now w \<and> later w1 = later w \<and> rand w1 = rand w"
  by (auto simp: getCreateTable_def split: prod.splits sum.splits dest!: QueryShowCreateTable_frame)

lemma getCreateTable_Inr:
  "getCreateTable t w = (Inr s, w1) \<Longrightarrow> \<exists>tb. tables w t = Some tb \<and> s = createHeader t @ body tb"
  by (auto simp: getCreateTable_def split: prod.splits sum.splits dest!: QueryShowCreateTable_Inr)

lemma getColumnNames_frame:
  "getColumnNames t w = (r, w1) \<Longrightarrow>
     tables w1 = tables w \<and> catalog w1 = catalog w \<and> trace w1 = trace w @ [SelectColumnNames t] \<and>
     logs w1 = logs w \<and> files w1 = files w \<and> now w1 = now w \<and> later w1 = later w \<and> rand w1 = rand w"
  by (auto simp: getColumnNames_def split: prod.splits sum.splits dest!: QueryColumnNames_frame)

lemma exportTableToSQL_locked_frame:
  assumes "exportTableToSQL_locked t fn w = (r, w')"
  shows "tables w' = tables w \<and> catalog w' = catalog w \<and> rand w' = rand w \<and>
         (\<exists>new. trace w' = trace w @ new \<and> list_all isExportStmt new)"
proof -
  obtain r1 w1 where 1: "getColumnNames t w = (r1, w1)" by (cases "getColumnNames t w")
  note f1 = getColumnNames_frame[OF 1]
  show ?thesis
  proof (cases r1)
    case (Inl e)
    then show ?thesis using assms 1 f1 by (auto simp: exportTableToSQL_locked_def)
  next
    case a: (Inr columns)
    obtain r2 w2 where 2: "WriteString fn (sqlDataHeader t) w1 = (r2, w2)"
      by (cases "WriteString fn (sqlDataHeader t) w1")
    note f2 = WriteString_frame[OF 2]
    show ?thesis
    proof (cases r2)
      case (Inl e)
      then show ?thesis using assms 1 a 2 f1 f2 by (auto simp: exportTableToSQL_locked_def)
    next
      case b: (Inr u2)
      obtain r3 w3 where 3: "sqlPages t fn columns 0 0 w2 = (r3, w3)" by (cases "sqlPages t fn columns 0 0 w2")
      from sqlPages_frame[OF 3] obtain new where f3: "tables w3 = tables w2" "catalog w3 = catalog w2"
        "rand w3 = rand w2" "trace w3 = trace w2 @ new" "list_all isExportStmt new" by blast
      show ?thesis
      proof (cases r3)
        case (Inl e)
        then show ?thesis using assms 1 a 2 b 3 f1 f2 f3 by (auto simp: exportTableToSQL_locked_def)
      next
        case c: (Inr totalRows)
        obtain tm w4 where 4: "time_Now w3 = (tm, w4)" by (cases "time_Now w3")
        note f4 = time_Now_frame[OF 4]
        obtain r5 w5 where 5: "WriteString fn (sqlFooter (Format_datetime tm) totalRows) w4 = (r5, w5)"
          by (cases "WriteString fn (sqlFooter (Format_datetime tm) totalRows) w4")
        note f5 = WriteString_frame[OF 5]
        show ?thesis using assms 1 a 2 b 3 c 4 5 f1 f2 f3 f4 f5
          by (cases r5) (auto simp: exportTableToSQL_locked_def)
      qed
    qed
  qed
qed

lemma exportTableToSQL_frame:
  assumes "exportTableToSQL t cfg w = (r, w')"
  shows "tables w' = tables w \<and> catalog w' = catalog w \<and> rand w' = rand w \<and>
         (\<exists>new. trace w' = trace w @ new \<and> list_all isExportStmt new)"
proof -
  obtain r1 w1 where 1: "MkdirAll (ExportPath cfg) w = (r1, w1)" by (cases "MkdirAll (ExportPath cfg) w")
  note f1 = MkdirAll_frame[OF 1]
  obtain tm w2 where 2: "time_Now w1 = (tm, w2)" by (cases "time_Now w1")
  note f2 = time_Now_frame[OF 2]
  define fn where "fn = ExportPath cfg @ ''/'' @ t @ ''_'' @ Format_stamp tm @ ''.sql''"
  obtain r3 w3 where 3: "Create fn w2 = (r3, w3)" by (cases "Create fn w2")
  note f3 = Create_frame[OF 3]
  obtain g w4 where 4: "time_Now (Info ''Exporting to file: %s'' [S fn] w3) = (g, w4)"
    by (cases "time_Now (Info ''Exporting to file: %s'' [S fn] w3)")
  note f4 = time_Now_frame[OF 4]
  obtain r5 w5 where 5: "WriteString fn (sqlHeader t (Host cfg) (Database cfg) (Format_datetime g)) w4 = (r5, w5)"
    by (cases "WriteString fn (sqlHeader t (Host cfg) (Database cfg) (Format_datetime g)) w4")
  note f5 = WriteString_frame[OF 5]
  obtain r6 w6 where 6: "getCreateTable t w5 = (r6, w6)" by (cases "getCreateTable t w5")
  note f6 = getCreateTable_frame[OF 6]
  show ?thesis
  proof (cases r1)
    case (Inl e)
    then show ?thesis using assms 1 f1 by (auto simp: exportTableToSQL_def)
  next
    case a: (Inr u1)
    show ?thesis
    proof (cases r3)
      case (Inl e)
      then show ?thesis using assms 1 a 2 3 f1 f2 f3 by (auto simp: exportTableToSQL_def fn_def Let_def)
    next
      case b: (Inr u3)
      show ?thesis
      proof (cases r5)
        case (Inl e)
        then show ?thesis using assms 1 a 2 3 b 4 5 f1 f2 f3 f4 f5
          by (auto simp: exportTableToSQL_def fn_def Let_def)
      next
        case c: (Inr u5)
        show ?thesis
        proof (cases r6)
          case (Inl e)
          then show ?thesis using assms 1 a 2 3 b 4 5 c 6 f1 f2 f3 f4 f5 f6
            by (auto simp: exportTableToSQL_def fn_def Let_def)
        next
          case d: (Inr createStmt)
          obtain r7 w7 where 7: "WriteString fn (createStmt @ '';'' @ [LF, LF]) w6 = (r7, w7)"
            by (cases "WriteString fn (createStmt @ '';'' @ [LF, LF]) w6")
          note f7 = WriteString_frame[OF 7]
          show ?thesis
          proof (cases r7)
            case (Inl e)
            then show ?thesis using assms 1 a 2 3 b 4 5 c 6 d 7 f1 f2 f3 f4 f5 f6 f7
              by (auto simp: exportTableToSQL_def fn_def Let_def)
          next
            case e: (Inr u7)
            obtain r8 w8 where 8: "Exec (LockTablesRead t) w7 = (r8, w8)" by (cases "Exec (LockTablesRead t) w7")
            note f8 = Exec_frame[OF 8] Exec_lock_tables[OF 8]
            show ?thesis
            proof (cases r8)
              case (Inl e)
              then show ?thesis using assms 1 a 2 3 b 4 5 c 6 d 7 \<open>r7 = Inr u7\<close> 8 f1 f2 f3 f4 f5 f6 f7 f8
                by (auto simp: exportTableToSQL_def fn_def Let_def)
            next
              case f: (Inr u8)
              obtain r9 w9 where 9: "exportTableToSQL_locked t fn w8 = (r9, w9)"
                by (cases "exportTableToSQL_locked t fn w8")
              from exportTableToSQL_locked_frame[OF 9] obtain new where f9: "tables w9 = tables w8"
                "catalog w9 = catalog w8" "rand w9 = rand w8" "trace w9 = trace w8 @ new"
                "list_all isExportStmt new" by blast
              obtain r10 w10 where 10: "Exec UnlockTables w9 = (r10, w10)" by (cases "Exec UnlockTables w9")
              note f10 = Exec_frame[OF 10] Exec_unlock_tables[OF 10]
              have "w' = w10" using assms 1 a 2 3 b 4 5 c 6 d 7 \<open>r7 = Inr u7\<close> 8 f 9 10
                by (auto simp: exportTableToSQL_def fn_def Let_def)
              then show ?thesis using f1 f2 f3 f4 f5 f6 f7 f8 f9 f10 by auto
            qed
          qed
        qed
      qed
    qed
  qed
qed

lemma exportArchive_frame:
  "tables (exportArchive a cfg w) = tables w \<and> catalog (exportArchive a cfg w) = catalog w \<and>
   rand (exportArchive a cfg w) = rand w \<and>
   (\<exists>new. trace (exportArchive a cfg w) = trace w @ new \<and> list_all isExportStmt new)"
proof -
  define w1 where "w1 = (if ExportSQL cfg then
              (case exportTableToSQL a cfg (Info ''Step 9a: Exporting archived table to SQL file'' [] w) of
                 (Inl err, wa) \<Rightarrow> Error ''Failed to export SQL: %v'' [E err] wa
               | (Inr _, wa) \<Rightarrow> Info ''SQL export completed successfully'' [] wa)
            else w)"
  define w2 where "w2 = (if ExportCSV cfg then
              (case exportTableToCSV a cfg (Info ''Step 9b: Exporting archived table to CSV file'' [] w1) of
                 (Inl err, wb) \<Rightarrow> Error ''Failed to export CSV: %v'' [E err] wb
               | (Inr _, wb) \<Rightarrow> Info ''CSV export completed successfully'' [] wb)
            else w1)"
  have e: "exportArchive a cfg w = (if ExportSQL cfg \<or> ExportCSV cfg then w2 else w)"
    by (simp add: exportArchive_def w1_def w2_def Let_def)
  have s1: "tables w1 = tables w \<and> catalog w1 = catalog w \<and> rand w1 = rand w \<and>
         (\<exists>new. trace w1 = trace w @ new \<and> list_all isExportStmt new)"
  proof (cases "ExportSQL cfg")
    case False
    then show ?thesis by (simp add: w1_def)
  next
    case True
    obtain r wa where x: "exportTableToSQL a cfg (Info ''Step 9a: Exporting archived table to SQL file'' [] w) = (r, wa)"
      by (cases "exportTableToSQL a cfg (Info ''Step 9a: Exporting archived table to SQL file'' [] w)")
    from exportTableToSQL_frame[OF x] show ?thesis using True x by (cases r) (auto simp: w1_def)
  qed
  have s2: "tables w2 = tables w1 \<and> catalog w2 = catalog w1 \<and> rand w2 = rand w1 \<and>
         (\<exists>new. trace w2 = trace w1 @ new \<and> list_all isExportStmt new)"
  proof (cases "ExportCSV cfg")
    case False
    then show ?thesis by (simp add: w2_def)
  next
    case True
    obtain r wb where x: "exportTableToCSV a cfg (Info ''Step 9b: Exporting archived table to CSV file'' [] w1) = (r, wb)"
      by (cases "exportTableToCSV a cfg (Info ''Step 9b: Exporting archived table to CSV file'' [] w1)")
    from exportTableToCSV_frame[OF x] show ?thesis using True x by (cases r) (auto simp: w2_def)
  qed
  show ?thesis
  proof (cases "ExportSQL cfg \<or> ExportCSV cfg")
    case False
    then show ?thesis using e by simp
  next
    case True
    from s1 s2 obtain n1 n2 where "trace w1 = trace w @ n1" "list_all isExportStmt n1"
      "trace w2 = trace w1 @ n2" "list_all isExportStmt n2" by blast
    then have "trace w2 = trace w @ (n1 @ n2) \<and> list_all isExportStmt (n1 @ n2)" by simp
    then show ?thesis using True e s1 s2 by (auto simp del: append_assoc)
  qed
qed



subsection \<open>The steps of the pipeline\<close>

text \<open>The readings of the clock to come: \<open>reading k w\<close> is what the \<open>k\<close>-th call of
  \<open>time.Now()\<close> from now returns, counting from zero.\<close>

fun reading :: "nat \<Rightarrow> world \<Rightarrow> time" where
  "reading 0 w = now w"
| "reading (Suc k) w = reading k (snd (time_Now w))"

lemma reading_cong:
  "now w1 = now w2 \<Longrightarrow> later w1 = later w2 \<Longrightarrow> reading k w1 = reading k w2"
proof (induction k arbitrary: w1 w2)
  case 0
  then show ?case by simp
next
  case (Suc k)
  have "now (snd (time_Now w1)) = now (snd (time_Now w2))" "later (snd (time_Now w1)) = later (snd (time_Now w2))"
    using Suc.prems by (auto simp: time_Now_def split: list.splits)
  from Suc.IH[OF this] show ?case by simp
qed

lemma time_Now_reading:
  "time_Now w = (t, w1) \<Longrightarrow> t = reading 0 w \<and> (\<forall>k. reading k w1 = reading (Suc k) w)"
  by (auto simp: time_Now_def)

text \<open>The choice \<open>detectDateColumn\<close> makes from the answer to \<open>SHOW COLUMNS\<close>.\<close>

definition chooseDateColumn :: "nat \<Rightarrow> column list \<Rightarrow> string option" where
  "chooseDateColumn r cols =
     (case find (\<lambda>col. col \<in> set (collectAvailable cols [])) dateColumns of
        Some col \<Rightarrow> Some col
      | None \<Rightarrow> rangeFirst r (collectAvailable cols []))"

lemma detectDateColumn_frame:
  "detectDateColumn t w = (r, w1) \<Longrightarrow>
     tables w1 = tables w \<and> catalog w1 = catalog w \<and> trace w1 = trace w @ [ShowColumns t] \<and>
     logs w1 = logs w \<and> files w1 = files w \<and> now w1 = now w \<and> later w1 = later w \<and> rand w1 = rand w"
  by (auto simp: detectDateColumn_def Let_def split: prod.splits sum.splits option.splits
      dest!: QueryShowColumns_frame)

lemma detectDateColumn_Inr:
  "detectDateColumn t w = (Inr col, w1) \<Longrightarrow>
     \<exists>tb. tables w t = Some tb \<and> chooseDateColumn (rand w) (catalog w (body tb)) = Some col"
proof -
  assume a: "detectDateColumn t w = (Inr col, w1)"
  obtain r wa where q: "QueryShowColumns t w = (r, wa)" by (cases "QueryShowColumns t w")
  from a q obtain cols where r: "r = Inr cols" by (cases r) (auto simp: detectDateColumn_def)
  from QueryShowColumns_Inr[OF q[unfolded r]] obtain tb where tb: "tables w t = Some tb"
    and cols: "cols = catalog w (body tb)" by blast
  have "rand wa = rand w" using QueryShowColumns_frame[OF q] by simp
  with a q r cols have "chooseDateColumn (rand w) (catalog w (body tb)) = Some col"
    by (auto simp: detectDateColumn_def chooseDateColumn_def Let_def split: option.splits)
  with tb show ?thesis by blast
qed

lemma countResult_CountOlder:
  "countResult cat (CountOlder t c p) ts = Inr n \<Longrightarrow>
     \<exists>tb. ts t = Some tb \<and> n = int (length (filter (older (cat (body tb)) c p) (rows tb)))"
  by (auto split: option.splits if_splits)

lemma countResult_CountNotOlder:
  "countResult cat (CountNotOlder t c p) ts = Inr n \<Longrightarrow>
     \<exists>tb. ts t = Some tb \<and> n = int (length (filter (notOlder (cat (body tb)) c p) (rows tb)))"
  by (auto split: option.splits if_splits)

lemma countResult_CountAll:
  "countResult cat (CountAll t) ts = Inr n \<Longrightarrow> \<exists>tb. ts t = Some tb \<and> n = int (length (rows tb))"
  by (auto split: option.splits)

lemma countRecords_frame:
  "countRecords cfg w = (r, w1) \<Longrightarrow>
     tables w1 = tables w \<and> catalog w1 = catalog w \<and> files w1 = files w \<and> rand w1 = rand w"
  by (auto simp: countRecords_def Let_def split: prod.splits sum.splits
      dest!: detectDateColumn_frame time_Now_frame QueryCount_frame)

lemma countRecords_Inr:
  assumes "countRecords cfg w = (Inr (a, k, col), w1)"
  shows "\<exists>tb. tables w (Table cfg) = Some tb \<and>
           chooseDateColumn (rand w) (catalog w (body tb)) = Some col \<and>
           a = int (length (filter (older (catalog w (body tb)) col
                 (AddDate_days (reading 0 w) (- DaysToKeep cfg))) (rows tb))) \<and>
           k = int (length (filter (notOlder (catalog w (body tb)) col
                 (AddDate_days (reading 0 w) (- DaysToKeep cfg))) (rows tb))) \<and>
           trace w1 = trace w @ [ShowColumns (Table cfg),
              CountOlder (Table cfg) col (AddDate_days (reading 0 w) (- DaysToKeep cfg)),
              CountNotOlder (Table cfg) col (AddDate_days (reading 0 w) (- DaysToKeep cfg))] \<and>
           (\<forall>j. reading j w1 = reading (Suc j) w)"
proof -
  obtain r1 wa where 1: "detectDateColumn (Table cfg) w = (r1, wa)" by (cases "detectDateColumn (Table cfg) w")
  from assms 1 have r1: "r1 = Inr col"
    by (cases r1) (auto simp: countRecords_def Let_def split: prod.splits sum.splits)
  note f1 = detectDateColumn_frame[OF 1]
  from detectDateColumn_Inr[OF 1[unfolded r1]] obtain tb where tb: "tables w (Table cfg) = Some tb"
    and ch: "chooseDateColumn (rand w) (catalog w (body tb)) = Some col" by blast
  obtain t wb where 2: "time_Now (Info ''Using date column: %s'' [S col] wa) = (t, wb)"
    by (cases "time_Now (Info ''Using date column: %s'' [S col] wa)")
  note f2 = time_Now_frame[OF 2]
  have t: "t = reading 0 w" using f2 f1 by simp
  have rd: "\<forall>j. reading j wb = reading (Suc j) w"
  proof
    fix j
    have "reading j wb = reading (Suc j) (Info ''Using date column: %s'' [S col] wa)"
      using time_Now_reading[OF 2] by simp
    also have "\<dots> = reading (Suc j) w" by (rule reading_cong) (use f1 in simp_all)
    finally show "reading j wb = reading (Suc j) w" .
  qed
  define c where "c = AddDate_days (reading 0 w) (- DaysToKeep cfg)"
  obtain r3 wc where 3: "QueryCount (CountOlder (Table cfg) col c)
       (Info ''Cutoff date: %s'' [S (Format_date c)] wb) = (r3, wc)"
    by (cases "QueryCount (CountOlder (Table cfg) col c) (Info ''Cutoff date: %s'' [S (Format_date c)] wb)")
  from assms 1 r1 2 t 3 have r3: "r3 = Inr a"
    by (cases r3) (auto simp: countRecords_def Let_def c_def split: prod.splits sum.splits)
  note f3 = QueryCount_frame[OF 3]
  obtain r4 wd where 4: "QueryCount (CountNotOlder (Table cfg) col c) wc = (r4, wd)"
    by (cases "QueryCount (CountNotOlder (Table cfg) col c) wc")
  from assms 1 r1 2 t 3 r3 4 have r4: "r4 = Inr k" and w1: "w1 = wd"
    by (cases r4; auto simp: countRecords_def Let_def c_def split: prod.splits sum.splits)+
  note f4 = QueryCount_frame[OF 4]
  from countResult_CountOlder[OF QueryCount_Inr[OF 3[unfolded r3]]] tb f1 f2
  have a: "a = int (length (filter (older (catalog w (body tb)) col c) (rows tb)))" by simp
  from countResult_CountNotOlder[OF QueryCount_Inr[OF 4[unfolded r4]]] tb f1 f2 f3
  have k: "k = int (length (filter (notOlder (catalog w (body tb)) col c) (rows tb)))" by simp
  have tr: "trace w1 = trace w @ [ShowColumns (Table cfg), CountOlder (Table cfg) col c,
      CountNotOlder (Table cfg) col c]"
    using w1 f1 f2 f3 f4 by simp
  have rd1: "\<forall>j. reading j w1 = reading (Suc j) w"
  proof
    fix j
    have "reading j w1 = reading j wb" by (rule reading_cong) (use w1 f3 f4 in simp_all)
    then show "reading j w1 = reading (Suc j) w" using rd by simp
  qed
  show ?thesis using tb ch a k tr rd1 unfolding c_def by blast
qed

lemma executeSQL_frame:
  "executeSQL q w = (r, w1) \<Longrightarrow>
     catalog w1 = catalog w \<and> trace w1 = trace w @ [q] \<and> files w1 = files w \<and> now w1 = now w \<and>
     later w1 = later w \<and> rand w1 = rand w \<and>
     logs w1 = logs w @ [(INFO, ''Executing SQL: %s'', [S (truncateSQL (sql_text q) 200)])]"
  by (auto simp: executeSQL_def split: prod.splits sum.splits dest!: Exec_frame)

lemma executeSQL_Inr:
  "executeSQL q w = (Inr u, w1) \<Longrightarrow> \<exists>n. effect (catalog w) q (tables w) = Inr (tables w1, n)"
  by (auto simp: executeSQL_def split: prod.splits sum.splits dest!: Exec_Inr)

lemma executeSQL_Inl: "executeSQL q w = (Inl e, w1) \<Longrightarrow> tables w1 = tables w"
  by (auto simp: executeSQL_def split: prod.splits sum.splits dest!: Exec_Inl)

lemma copyOldRecords_frame:
  "copyOldRecords src dst col c w = (r, w1) \<Longrightarrow>
     catalog w1 = catalog w \<and> trace w1 = trace w @ [InsertOlder dst src col c] \<and> files w1 = files w \<and>
     now w1 = now w \<and> later w1 = later w \<and> rand w1 = rand w"
  by (auto simp: copyOldRecords_def Let_def split: prod.splits sum.splits dest!: Exec_frame)

lemma copyOldRecords_Inr:
  "copyOldRecords src dst col c w = (Inr u, w1) \<Longrightarrow>
     \<exists>n. effect (catalog w) (InsertOlder dst src col c) (tables w) = Inr (tables w1, n)"
  by (auto simp: copyOldRecords_def Let_def split: prod.splits sum.splits dest!: Exec_Inr)

lemma copyOldRecords_Inl:
  "copyOldRecords src dst col c w = (Inl e, w1) \<Longrightarrow>
     tables w1 = tables w \<and>
     logs w1 = logs w @ [(INFO, ''Executing: %s with cutoff %s'',
                          [S (sql_text (InsertOlder dst src col c)), S (Format_date c)])]"
proof -
  assume a: "copyOldRecords src dst col c w = (Inl e, w1)"
  define w0 where "w0 = Info ''Executing: %s with cutoff %s''
      [S (sql_text (InsertOlder dst src col c)), S (Format_date c)] w"
  obtain r wa where x: "Exec (InsertOlder dst src col c) w0 = (r, wa)"
    by (cases "Exec (InsertOlder dst src col c) w0")
  from a x obtain e' where r: "r = Inl e'" and w1: "w1 = wa"
    by (cases r) (auto simp: copyOldRecords_def Let_def w0_def)
  from Exec_Inl[OF x[unfolded r]] Exec_frame[OF x] show ?thesis
    unfolding w1 by (simp add: w0_def del: sql_text.simps)
qed

lemma deleteOldRecords_frame:
  "deleteOldRecords t col c w = (r, w1) \<Longrightarrow>
     catalog w1 = catalog w \<and> trace w1 = trace w @ [DeleteOlder t col c] \<and> files w1 = files w \<and>
     now w1 = now w \<and> later w1 = later w \<and> rand w1 = rand w"
  by (auto simp: deleteOldRecords_def Let_def split: prod.splits sum.splits dest!: Exec_frame)

lemma deleteOldRecords_Inr:
  "deleteOldRecords t col c w = (Inr u, w1) \<Longrightarrow>
     \<exists>n. effect (catalog w) (DeleteOlder t col c) (tables w) = Inr (tables w1, n)"
  by (auto simp: deleteOldRecords_def Let_def split: prod.splits sum.splits dest!: Exec_Inr)

lemma getTableCount_frame:
  "getTableCount t w = (r, w1) \<Longrightarrow>
     tables w1 = tables w \<and> catalog w1 = catalog w \<and> trace w1 = trace w @ [CountAll t] \<and>
     logs w1 = logs w \<and> files w1 = files w \<and> now w1 = now w \<and> later w1 = later w \<and> rand w1 = rand w"
  by (auto simp: getTableCount_def split: prod.splits sum.splits dest!: QueryCount_frame)

lemma getTableCount_Inr:
  "getTableCount t w = (Inr n, w1) \<Longrightarrow> \<exists>tb. tables w t = Some tb \<and> n = int (length (rows tb))"
  by (auto simp: getTableCount_def split: prod.splits sum.splits dest!: QueryCount_Inr countResult_CountAll)

lemma effect_Raw:
  "effect cat (Raw q) ts = Inr (ts', n) \<Longrightarrow>
     \<exists>nm b. parseCreate q = Some (nm, b) \<and> ts nm = None \<and> ts' = ts(nm \<mapsto> \<lparr>body = b, rows = []\<rparr>)"
  by (auto split: option.splits)

lemma effect_InsertOlder:
  "effect cat (InsertOlder d s c p) ts = Inr (ts', n) \<Longrightarrow>
     \<exists>src dst. ts s = Some src \<and> ts d = Some dst \<and>
       ts' = ts(d \<mapsto> dst\<lparr>rows := rows dst @ filter (older (cat (body src)) c p) (rows src)\<rparr>)"
  by (auto split: option.splits if_splits)

lemma effect_DeleteOlder:
  "effect cat (DeleteOlder t c p) ts = Inr (ts', n) \<Longrightarrow>
     \<exists>tb. ts t = Some tb \<and>
       ts' = ts(t \<mapsto> tb\<lparr>rows := filter (\<lambda>r. \<not> older (cat (body tb)) c p r) (rows tb)\<rparr>)"
  by (auto split: option.splits if_splits)

lemma effect_RenameTable:
  "effect cat (RenameTable a b) ts = Inr (ts', n) \<Longrightarrow>
     \<exists>tb. ts a = Some tb \<and> ts b = None \<and> ts' = ts(a := None, b \<mapsto> tb)"
  by (auto split: option.splits)

text \<open>
  A run of steps 3 to 9 that returns success: what it sent and what it left behind.
  \<open>nm\<close> is the name the engine reads from the \<open>CREATE TABLE\<close> text, and \<open>d\<close> is the
  table the copy inserts into.
\<close>

lemma cutover_Inr_general:
  assumes run: "cutover cfg suffix newT archT createStmt a k col w = (Inr (), w')"
      and src: "tables w (Table cfg) = Some tb"
      and ne: "newT \<noteq> Table cfg" "archT \<noteq> newT"
  shows "\<exists>nm b d rest.
           parseCreate (modifyCreateStatement createStmt (Table cfg) newT suffix) = Some (nm, b) \<and>
           tables w nm = None \<and> ((tables w)(nm \<mapsto> \<lparr>body = b, rows = []\<rparr>)) newT = Some d \<and>
           tables w archT = None \<and>
           tables w' = (tables w)
              (nm \<mapsto> \<lparr>body = b, rows = []\<rparr>,
               newT := None,
               archT \<mapsto> tb\<lparr>rows := filter (\<lambda>r. \<not> older (catalog w (body tb)) col
                                      (AddDate_days (reading 0 w) (- DaysToKeep cfg)) r) (rows tb)\<rparr>,
               Table cfg \<mapsto> d\<lparr>rows := rows d @ filter (older (catalog w (body tb)) col
                                      (AddDate_days (reading 0 w) (- DaysToKeep cfg))) (rows tb)\<rparr>) \<and>
           k = int (length (rows d)) + int (length (filter (older (catalog w (body tb)) col
                     (AddDate_days (reading 0 w) (- DaysToKeep cfg))) (rows tb))) \<and>
           catalog w' = catalog w \<and> rand w' = rand w \<and>
           trace w' = trace w @
             [Raw (modifyCreateStatement createStmt (Table cfg) newT suffix),
              InsertOlder newT (Table cfg) col (AddDate_days (reading 0 w) (- DaysToKeep cfg)),
              CountAll newT,
              DeleteOlder (Table cfg) col (AddDate_days (reading 0 w) (- DaysToKeep cfg)),
              RenameTable (Table cfg) archT,
              RenameTable newT (Table cfg)] @ rest \<and>
           list_all isExportStmt rest"
proof -
  define T where "T = Table cfg"
  define ddl where "ddl = modifyCreateStatement createStmt T newT suffix"
  define c where "c = AddDate_days (reading 0 w) (- DaysToKeep cfg)"
  define cols where "cols = catalog w (body tb)"
  note defs = cutover_def Let_def T_def[symmetric] ddl_def[symmetric]
  \<comment> \<open>Step 3\<close>
  obtain r1 w1 where 1: "executeSQL (Raw ddl) (Info ''Step 3: Creating new table %s'' [S newT] w) = (r1, w1)"
    by (cases "executeSQL (Raw ddl) (Info ''Step 3: Creating new table %s'' [S newT] w)")
  from run 1 have r1: "r1 = Inr ()" by (cases r1) (auto simp: defs)
  note f1 = executeSQL_frame[OF 1]
  from executeSQL_Inr[OF 1[unfolded r1]] obtain n1 where
    "effect (catalog w) (Raw ddl) (tables w) = Inr (tables w1, n1)" by auto
  from effect_Raw[OF this] obtain nm b where pc: "parseCreate ddl = Some (nm, b)"
    and nmfree: "tables w nm = None" and t1: "tables w1 = (tables w)(nm \<mapsto> \<lparr>body = b, rows = []\<rparr>)"
    by blast
  \<comment> \<open>Step 4\<close>
  obtain t w2 where 2: "time_Now (Info ''Step 4: Copying old records to %s'' [S newT] w1) = (t, w2)"
    by (cases "time_Now (Info ''Step 4: Copying old records to %s'' [S newT] w1)")
  note f2 = time_Now_frame[OF 2]
  have t: "AddDate_days t (- DaysToKeep cfg) = c" using f2 f1 by (simp add: c_def)
  obtain r3 w3 where 3: "copyOldRecords T newT col c w2 = (r3, w3)" by (cases "copyOldRecords T newT col c w2")
  from run 1 r1 2 t 3 have r3: "r3 = Inr ()" by (cases r3) (auto simp: defs)
  note f3 = copyOldRecords_frame[OF 3]
  from copyOldRecords_Inr[OF 3[unfolded r3]] obtain n3 where
    "effect (catalog w2) (InsertOlder newT T col c) (tables w2) = Inr (tables w3, n3)" by auto
  from effect_InsertOlder[OF this] obtain s d where s: "tables w2 T = Some s" and d: "tables w2 newT = Some d"
    and t3: "tables w3 = (tables w2)(newT \<mapsto> d\<lparr>rows := rows d @ filter (older (catalog w2 (body s)) col c) (rows s)\<rparr>)"
    by blast
  have tw2: "tables w2 = (tables w)(nm \<mapsto> \<lparr>body = b, rows = []\<rparr>)" "catalog w2 = catalog w"
    using f2 f1 t1 by simp_all
  define t1 where "t1 = (tables w)(nm \<mapsto> \<lparr>body = b, rows = []\<rparr>)"
  define d' where "d' = d\<lparr>rows := rows d @ filter (older cols col c) (rows tb)\<rparr>"
  define keep where "keep = tb\<lparr>rows := filter (\<lambda>r. \<not> older cols col c r) (rows tb)\<rparr>"
  have nmT: "nm \<noteq> T" using nmfree src by (auto simp: T_def)
  have s': "s = tb" using s tw2 nmT src by (simp add: T_def)
  have d1: "t1 newT = Some d" using d tw2 by (simp add: t1_def)
  have t3': "tables w3 = t1(newT \<mapsto> d')"
    using t3 tw2 s' by (simp add: cols_def t1_def d'_def)
  \<comment> \<open>Step 5\<close>
  obtain r4 w4 where 4: "getTableCount newT (Info ''Step 5: Verifying copied records'' [] w3) = (r4, w4)"
    by (cases "getTableCount newT (Info ''Step 5: Verifying copied records'' [] w3)")
  from run 1 r1 2 t 3 r3 4 obtain copied where r4: "r4 = Inr copied" by (cases r4) (auto simp: defs)
  note f4 = getTableCount_frame[OF 4]
  from getTableCount_Inr[OF 4[unfolded r4]] t3'
  have copied: "copied = int (length (rows d)) + int (length (filter (older cols col c) (rows tb)))"
    by (auto simp: d'_def)
  from run 1 r1 2 t 3 r3 4 r4 have eq: "copied = k" by (auto simp: defs split: if_splits)
  \<comment> \<open>Step 6\<close>
  define w4' where "w4' = Info ''Step 6: Deleting archived records from %s'' [S T]
       (Info ''Verification successful: %d records copied'' [I copied] w4)"
  obtain r5 w5 where 5: "deleteOldRecords T col c w4' = (r5, w5)" by (cases "deleteOldRecords T col c w4'")
  from run 1 r1 2 t 3 r3 4 r4 eq 5 have r5: "r5 = Inr ()" by (cases r5) (auto simp: defs w4'_def)
  note f5 = deleteOldRecords_frame[OF 5]
  have tw4: "tables w4' = t1(newT \<mapsto> d')" "catalog w4' = catalog w"
    using f4 f3 tw2 t3' by (simp_all add: w4'_def)
  have T1: "t1 T = Some tb" using src nmT by (simp add: t1_def T_def)
  from deleteOldRecords_Inr[OF 5[unfolded r5]] obtain n5 where
    "effect (catalog w4') (DeleteOlder T col c) (tables w4') = Inr (tables w5, n5)" by auto
  from effect_DeleteOlder[OF this] tw4 ne(1) T1
  have t5: "tables w5 = t1(newT \<mapsto> d', T \<mapsto> keep)"
    by (auto simp: T_def cols_def keep_def)
  \<comment> \<open>Step 7\<close>
  obtain r6 w6 where 6: "executeSQL (RenameTable T archT)
       (Info ''Step 7: Renaming original table to %s'' [S archT] w5) = (r6, w6)"
    by (cases "executeSQL (RenameTable T archT) (Info ''Step 7: Renaming original table to %s'' [S archT] w5)")
  from run 1 r1 2 t 3 r3 4 r4 eq 5 r5 6 have r6: "r6 = Inr ()" by (cases r6) (auto simp: defs w4'_def)
  note f6 = executeSQL_frame[OF 6]
  from executeSQL_Inr[OF 6[unfolded r6]] obtain n6 where
    "effect (catalog w5) (RenameTable T archT) (tables w5) = Inr (tables w6, n6)" by auto
  from effect_RenameTable[OF this] obtain x where x: "tables w5 T = Some x" and afree5: "tables w5 archT = None"
    and t6: "tables w6 = (tables w5)(T := None, archT \<mapsto> x)" by auto
  have aT: "archT \<noteq> T" using afree5 t5 by auto
  have afree1: "t1 archT = None" using afree5 t5 ne(2) aT by (auto split: if_splits)
  have afree: "tables w archT = None" using afree1 by (auto simp: t1_def split: if_splits)
  have x': "x = keep" using x t5 by simp
  \<comment> \<open>Step 8\<close>
  obtain r7 w7 where 7: "executeSQL (RenameTable newT T)
       (Info ''Step 8: Renaming %s to %s'' [S newT, S T] w6) = (r7, w7)"
    by (cases "executeSQL (RenameTable newT T) (Info ''Step 8: Renaming %s to %s'' [S newT, S T] w6)")
  from run 1 r1 2 t 3 r3 4 r4 eq 5 r5 6 r6 7 have r7: "r7 = Inr ()" by (cases r7) (auto simp: defs w4'_def)
  note f7 = executeSQL_frame[OF 7]
  from executeSQL_Inr[OF 7[unfolded r7]] obtain n7 where
    "effect (catalog w6) (RenameTable newT T) (tables w6) = Inr (tables w7, n7)" by auto
  from effect_RenameTable[OF this] obtain y where y: "tables w6 newT = Some y"
    and t7: "tables w7 = (tables w6)(newT := None, T \<mapsto> y)" by auto
  have y': "y = d'"
    using y t6 t5 ne(1,2) by (auto simp: T_def split: if_splits)
  have t7': "tables w7 = t1(newT := None, archT \<mapsto> keep, T \<mapsto> d')"
    using t7 t6 t5 x' y' ne aT by (auto simp: T_def fun_eq_iff)
  \<comment> \<open>Step 9\<close>
  define w8 where "w8 = Info ''Archive complete! Old table renamed to %s, new table is now %s''
       [S archT, S T] w7"
  have w': "w' = exportArchive archT cfg w8"
    using run 1 r1 2 t 3 r3 4 r4 eq 5 r5 6 r6 7 r7 by (auto simp: defs w4'_def w8_def)
  from exportArchive_frame[of archT cfg w8] obtain rest where
    f9: "tables w' = tables w8" "catalog w' = catalog w8" "rand w' = rand w8"
        "trace w' = trace w8 @ rest" "list_all isExportStmt rest"
    unfolding w' by blast
  have tr: "trace w8 = trace w @ [Raw ddl, InsertOlder newT T col c, CountAll newT, DeleteOlder T col c,
      RenameTable T archT, RenameTable newT T]"
    using f1 f2 f3 f4 f5 f6 f7 by (simp add: w8_def w4'_def)
  have cr: "catalog w8 = catalog w" "rand w8 = rand w"
    using f1 f2 f3 f4 f5 f6 f7 by (simp_all add: w8_def w4'_def)
  have "parseCreate ddl = Some (nm, b)" using pc by simp
  moreover have "tables w' = t1(newT := None, archT \<mapsto> keep, T \<mapsto> d')"
    using f9(1) t7' by (simp add: w8_def)
  moreover have "k = int (length (rows d)) + int (length (filter (older cols col c) (rows tb)))"
    using eq copied by simp
  moreover have "trace w' = trace w @ [Raw ddl, InsertOlder newT T col c, CountAll newT, DeleteOlder T col c,
      RenameTable T archT, RenameTable newT T] @ rest"
    using f9(4) tr by simp
  ultimately show ?thesis
    using afree nmfree d1 cr f9(2,3,5) unfolding T_def ddl_def c_def cols_def t1_def d'_def keep_def
    by (intro exI[of _ nm] exI[of _ b] exI[of _ d] exI[of _ rest]) simp
qed





text \<open>The names of a run: the temporary table and the final archive table.\<close>

definition newTableName_of :: "Config \<Rightarrow> world \<Rightarrow> string" where
  "newTableName_of cfg w = Table cfg @ ''_'' @ Format_compact (now w)"

definition archiveTableName_of :: "Config \<Rightarrow> world \<Rightarrow> string" where
  "archiveTableName_of cfg w = Table cfg @ ''_archive_'' @ Format_compact (now w)"

lemma run_names_distinct:
  "newTableName_of cfg w \<noteq> Table cfg" "archiveTableName_of cfg w \<noteq> newTableName_of cfg w"
  "archiveTableName_of cfg w \<noteq> Table cfg"
proof -
  show "newTableName_of cfg w \<noteq> Table cfg"
  proof
    assume "newTableName_of cfg w = Table cfg"
    then have "length (newTableName_of cfg w) = length (Table cfg)" by simp
    then show False by (simp add: newTableName_of_def)
  qed
  show "archiveTableName_of cfg w \<noteq> newTableName_of cfg w"
  proof
    assume "archiveTableName_of cfg w = newTableName_of cfg w"
    then have "length (archiveTableName_of cfg w) = length (newTableName_of cfg w)" by simp
    then show False by (simp add: newTableName_of_def archiveTableName_of_def)
  qed
  show "archiveTableName_of cfg w \<noteq> Table cfg"
  proof
    assume "archiveTableName_of cfg w = Table cfg"
    then have "length (archiveTableName_of cfg w) = length (Table cfg)" by simp
    then show False by (simp add: archiveTableName_of_def)
  qed
qed

text \<open>
  Every run of \<open>archiveTable\<close> ends in one of five ways: step 1 fails, step 2 fails,
  there is nothing to archive, it is a dry run, or steps 3 to 9 run from a world that
  differs from the first one in the clock, the log and the four statements sent.
\<close>

lemma archiveTable_run:
  assumes run: "archiveTable cfg w = (r, w')"
  obtains
    (create_failed) e where "r = Inl (Wrap ''failed to get CREATE TABLE'' e)"
  | (count_failed) e where "r = Inl (Wrap ''failed to count records'' e)"
  | (exit) tb col where "r = Inr ()" "tables w (Table cfg) = Some tb"
      "chooseDateColumn (rand w) (catalog w (body tb)) = Some col"
      "filter (older (catalog w (body tb)) col (AddDate_days (reading 1 w) (- DaysToKeep cfg))) (rows tb) = []
        \<or> DryRun cfg"
      "tables w' = tables w" "files w' = files w" "catalog w' = catalog w"
      "trace w' = trace w @ [ShowCreateTable (Table cfg), ShowColumns (Table cfg),
         CountOlder (Table cfg) col (AddDate_days (reading 1 w) (- DaysToKeep cfg)),
         CountNotOlder (Table cfg) col (AddDate_days (reading 1 w) (- DaysToKeep cfg))]"
  | (cut) tb col w3 where "tables w (Table cfg) = Some tb"
      "chooseDateColumn (rand w) (catalog w (body tb)) = Some col"
      "filter (older (catalog w (body tb)) col (AddDate_days (reading 1 w) (- DaysToKeep cfg))) (rows tb) \<noteq> []"
      "\<not> DryRun cfg"
      "tables w3 = tables w" "files w3 = files w" "catalog w3 = catalog w" "rand w3 = rand w"
      "trace w3 = trace w @ [ShowCreateTable (Table cfg), ShowColumns (Table cfg),
         CountOlder (Table cfg) col (AddDate_days (reading 1 w) (- DaysToKeep cfg)),
         CountNotOlder (Table cfg) col (AddDate_days (reading 1 w) (- DaysToKeep cfg))]"
      "reading 0 w3 = reading 2 w"
      "cutover cfg (Format_compact (now w)) (newTableName_of cfg w) (archiveTableName_of cfg w)
         (createHeader (Table cfg) @ body tb)
         (int (length (filter (older (catalog w (body tb)) col
                 (AddDate_days (reading 1 w) (- DaysToKeep cfg))) (rows tb))))
         (int (length (filter (notOlder (catalog w (body tb)) col
                 (AddDate_days (reading 1 w) (- DaysToKeep cfg))) (rows tb))))
         col w3 = (r, w')"
proof -
  define T where "T = Table cfg"
  obtain t w0 where 0: "time_Now w = (t, w0)" by (cases "time_Now w")
  note f0 = time_Now_frame[OF 0]
  have t: "t = now w" using f0 by simp
  have rd0: "\<forall>j. reading j w0 = reading (Suc j) w" using time_Now_reading[OF 0] by simp
  obtain r1 w1 where 1: "getCreateTable T
       (Info ''Step 1: Retrieving CREATE TABLE statement for %s'' [S T] w0) = (r1, w1)"
    by (cases "getCreateTable T (Info ''Step 1: Retrieving CREATE TABLE statement for %s'' [S T] w0)")
  note f1 = getCreateTable_frame[OF 1]
  note defs = archiveTable_def Let_def T_def[symmetric]
  show ?thesis
  proof (cases r1)
    case (Inl e)
    then have "r = Inl (Wrap ''failed to get CREATE TABLE'' e)" using run 0 1 by (auto simp: defs)
    then show ?thesis by (rule create_failed)
  next
    case (Inr createStmt)
    from getCreateTable_Inr[OF 1[unfolded Inr]] f0 obtain tb where tb: "tables w T = Some tb"
      and cs: "createStmt = createHeader T @ body tb" by auto
    obtain r2 w2 where 2: "countRecords cfg (Info ''Step 2: Counting records'' [] w1) = (r2, w2)"
      by (cases "countRecords cfg (Info ''Step 2: Counting records'' [] w1)")
    note f2 = countRecords_frame[OF 2]
    show ?thesis
    proof (cases r2)
      case (Inl e)
      then have "r = Inl (Wrap ''failed to count records'' e)" using run 0 1 Inr 2 by (auto simp: defs)
      then show ?thesis by (rule count_failed)
    next
      case r2: (Inr res)
      obtain a k col where res: "res = (a, k, col)" by (cases res)
      define c1 where "c1 = AddDate_days (reading 1 w) (- DaysToKeep cfg)"
      define cols where "cols = catalog w (body tb)"
      have rdw1: "reading j (Info ''Step 2: Counting records'' [] w1) = reading (Suc j) w" for j
      proof -
        have "reading j (Info ''Step 2: Counting records'' [] w1) = reading j w0"
          by (rule reading_cong) (use f1 in simp_all)
        then show ?thesis using rd0 by simp
      qed
      from countRecords_Inr[OF 2[unfolded r2 res]] tb f1 f0 rdw1
      have ch: "chooseDateColumn (rand w) cols = Some col"
        and a: "a = int (length (filter (older cols col c1) (rows tb)))"
        and k: "k = int (length (filter (notOlder cols col c1) (rows tb)))"
        and tr2: "trace w2 = trace w @ [ShowCreateTable T, ShowColumns T, CountOlder T col c1, CountNotOlder T col c1]"
        and rd2: "\<forall>j. reading j w2 = reading (Suc (Suc j)) w"
        by (auto simp: T_def cols_def c1_def)
      define w3 where "w3 = Info ''Records to archive: %d, Records to keep: %d'' [I a, I k] w2"
      have fr3: "tables w3 = tables w" "files w3 = files w" "catalog w3 = catalog w" "rand w3 = rand w"
        "trace w3 = trace w @ [ShowCreateTable T, ShowColumns T, CountOlder T col c1, CountNotOlder T col c1]"
        using f2 f1 f0 tr2 by (simp_all add: w3_def)
      have rd3: "reading 0 w3 = reading 2 w"
      proof -
        have "reading 0 w3 = reading 0 w2" by (simp add: w3_def)
        then show ?thesis using rd2 by (simp add: numeral_2_eq_2)
      qed
      show ?thesis
      proof (cases "a = 0 \<or> DryRun cfg")
        case True
        then have "r = Inr ()" "tables w' = tables w3" "files w' = files w3" "catalog w' = catalog w3"
          "trace w' = trace w3"
          using run 0 1 Inr 2 r2 res by (auto simp: defs w3_def split: if_splits)
        moreover have "filter (older cols col c1) (rows tb) = [] \<or> DryRun cfg" using True a by auto
        ultimately show ?thesis using tb ch fr3 unfolding T_def cols_def c1_def by (intro exit) simp_all
      next
        case False
        then have "cutover cfg (Format_compact (now w)) (newTableName_of cfg w) (archiveTableName_of cfg w)
            createStmt a k col w3 = (r, w')"
          using run 0 t 1 Inr 2 r2 res
          by (auto simp: archiveTable_def Let_def T_def w3_def newTableName_of_def archiveTableName_of_def)
        moreover have "filter (older cols col c1) (rows tb) \<noteq> []" "\<not> DryRun cfg" using False a by auto
        ultimately show ?thesis using tb ch fr3 rd3 cs a k unfolding T_def cols_def c1_def
          by (intro cut) simp_all
      qed
    qed
  qed
qed



text \<open>Steps 3 to 5 when the verification finds another count than the keep-count.\<close>

lemma cutover_mismatch:
  assumes run: "cutover cfg suffix newT archT createStmt a k col w = (Inl (Msg ''record count mismatch''), w')"
      and src: "tables w (Table cfg) = Some tb"
      and ne: "newT \<noteq> Table cfg"
  shows "tables w' (Table cfg) = Some tb \<and>
         (\<exists>tmp. tables w' newT = Some tmp \<and> int (length (rows tmp)) \<noteq> k) \<and>
         files w' = files w \<and>
         trace w' = trace w @
           [Raw (modifyCreateStatement createStmt (Table cfg) newT suffix),
            InsertOlder newT (Table cfg) col (AddDate_days (reading 0 w) (- DaysToKeep cfg)),
            CountAll newT]"
proof -
  define T where "T = Table cfg"
  define ddl where "ddl = modifyCreateStatement createStmt T newT suffix"
  define c where "c = AddDate_days (reading 0 w) (- DaysToKeep cfg)"
  note defs = cutover_def Let_def T_def[symmetric] ddl_def[symmetric]
  obtain r1 w1 where 1: "executeSQL (Raw ddl) (Info ''Step 3: Creating new table %s'' [S newT] w) = (r1, w1)"
    by (cases "executeSQL (Raw ddl) (Info ''Step 3: Creating new table %s'' [S newT] w)")
  from run 1 have r1: "r1 = Inr ()" by (cases r1) (auto simp: defs)
  note f1 = executeSQL_frame[OF 1]
  from executeSQL_Inr[OF 1[unfolded r1]] obtain n1 where
    "effect (catalog w) (Raw ddl) (tables w) = Inr (tables w1, n1)" by auto
  from effect_Raw[OF this] obtain nm b where nmfree: "tables w nm = None"
    and t1: "tables w1 = (tables w)(nm \<mapsto> \<lparr>body = b, rows = []\<rparr>)" by blast
  have nmT: "nm \<noteq> T" using nmfree src by (auto simp: T_def)
  obtain t w2 where 2: "time_Now (Info ''Step 4: Copying old records to %s'' [S newT] w1) = (t, w2)"
    by (cases "time_Now (Info ''Step 4: Copying old records to %s'' [S newT] w1)")
  note f2 = time_Now_frame[OF 2]
  have t: "AddDate_days t (- DaysToKeep cfg) = c" using f2 f1 by (simp add: c_def)
  obtain r3 w3 where 3: "copyOldRecords T newT col c w2 = (r3, w3)" by (cases "copyOldRecords T newT col c w2")
  from run 1 r1 2 t 3 have r3: "r3 = Inr ()" by (cases r3) (auto simp: defs)
  note f3 = copyOldRecords_frame[OF 3]
  from copyOldRecords_Inr[OF 3[unfolded r3]] obtain n3 where
    "effect (catalog w2) (InsertOlder newT T col c) (tables w2) = Inr (tables w3, n3)" by auto
  from effect_InsertOlder[OF this] obtain s d where s: "tables w2 T = Some s" and d: "tables w2 newT = Some d"
    and t3: "tables w3 = (tables w2)(newT \<mapsto> d\<lparr>rows := rows d @ filter (older (catalog w2 (body s)) col c) (rows s)\<rparr>)"
    by blast
  have T3: "tables w3 T = Some tb" using t3 f2 t1 nmT ne src by (simp add: T_def)
  obtain r4 w4 where 4: "getTableCount newT (Info ''Step 5: Verifying copied records'' [] w3) = (r4, w4)"
    by (cases "getTableCount newT (Info ''Step 5: Verifying copied records'' [] w3)")
  from run 1 r1 2 t 3 r3 4 obtain copied where r4: "r4 = Inr copied" by (cases r4) (auto simp: defs)
  note f4 = getTableCount_frame[OF 4]
  from getTableCount_Inr[OF 4[unfolded r4]] obtain tmp where tmp: "tables w3 newT = Some tmp"
    and copied: "copied = int (length (rows tmp))" by auto
  have mm: "copied \<noteq> k"
  proof
    assume "copied = k"
    with run 1 r1 2 t 3 r3 4 r4 show False
      by (auto simp: defs split: prod.splits sum.splits)
  qed
  with run 1 r1 2 t 3 r3 4 r4
  have w': "w' = Error ''Record count mismatch! Expected: %d, Got: %d'' [I a, I copied] w4"
    by (auto simp: defs)
  have "tables w' = tables w3" "files w' = files w"
    "trace w' = trace w @ [Raw ddl, InsertOlder newT T col c, CountAll newT]"
    using w' f4 f3 f2 f1 by simp_all
  then show ?thesis using T3 tmp copied mm unfolding T_def ddl_def c_def by simp
qed

text \<open>Steps 3 and 4 when the copy fails, with the compensating drop.\<close>

lemma cutover_copy_failed:
  assumes run: "cutover cfg suffix newT archT createStmt a k col w = (Inl (Wrap ''failed to copy records'' e), w')"
      and src: "tables w (Table cfg) = Some tb"
      and ne: "newT \<noteq> Table cfg"
  shows "tables w' (Table cfg) = Some tb \<and> files w' = files w \<and>
         (\<exists>de. e = DbError de) \<and>
         trace w' = trace w @
           [Raw (modifyCreateStatement createStmt (Table cfg) newT suffix),
            InsertOlder newT (Table cfg) col (AddDate_days (reading 0 w) (- DaysToKeep cfg)),
            DropTableIfExists newT] \<and>
         (\<exists>before. logs w' = before @
           [(ERROR, ''Failed to copy records, dropping new table'', []),
            (INFO, ''Executing SQL: %s'', [S (truncateSQL (sql_text (DropTableIfExists newT)) 200)])])"
proof -
  define T where "T = Table cfg"
  define ddl where "ddl = modifyCreateStatement createStmt T newT suffix"
  define c where "c = AddDate_days (reading 0 w) (- DaysToKeep cfg)"
  note defs = cutover_def Let_def T_def[symmetric] ddl_def[symmetric]
  obtain r1 w1 where 1: "executeSQL (Raw ddl) (Info ''Step 3: Creating new table %s'' [S newT] w) = (r1, w1)"
    by (cases "executeSQL (Raw ddl) (Info ''Step 3: Creating new table %s'' [S newT] w)")
  from run 1 have r1: "r1 = Inr ()" by (cases r1) (auto simp: defs)
  note f1 = executeSQL_frame[OF 1]
  from executeSQL_Inr[OF 1[unfolded r1]] obtain n1 where
    "effect (catalog w) (Raw ddl) (tables w) = Inr (tables w1, n1)" by auto
  from effect_Raw[OF this] obtain nm b where nmfree: "tables w nm = None"
    and t1: "tables w1 = (tables w)(nm \<mapsto> \<lparr>body = b, rows = []\<rparr>)" by blast
  have nmT: "nm \<noteq> T" using nmfree src by (auto simp: T_def)
  obtain t w2 where 2: "time_Now (Info ''Step 4: Copying old records to %s'' [S newT] w1) = (t, w2)"
    by (cases "time_Now (Info ''Step 4: Copying old records to %s'' [S newT] w1)")
  note f2 = time_Now_frame[OF 2]
  have t: "AddDate_days t (- DaysToKeep cfg) = c" using f2 f1 by (simp add: c_def)
  obtain r3 w3 where 3: "copyOldRecords T newT col c w2 = (r3, w3)" by (cases "copyOldRecords T newT col c w2")
  note f3 = copyOldRecords_frame[OF 3]
  have r3: "r3 = Inl e"
  proof (cases r3)
    case (Inl e')
    with run 1 r1 2 t 3 show ?thesis by (auto simp: defs)
  next
    case (Inr u)
    with run 1 r1 2 t 3 show ?thesis
      by (auto simp: defs split: prod.splits sum.splits if_splits)
  qed
  have de: "\<exists>de. e = DbError de"
    using 3 r3 by (auto simp: copyOldRecords_def Let_def split: prod.splits sum.splits)
  note i3 = copyOldRecords_Inl[OF 3[unfolded r3]]
  define w3' where "w3' = Error ''Failed to copy records, dropping new table'' [] w3"
  obtain r4 w4 where 4: "executeSQL (DropTableIfExists newT) w3' = (r4, w4)"
    by (cases "executeSQL (DropTableIfExists newT) w3'")
  note f4 = executeSQL_frame[OF 4]
  have w': "w' = w4" using run 1 r1 2 t 3 r3 4 by (auto simp: defs w3'_def)
  have T3: "tables w3' T = Some tb" using i3 f2 t1 nmT src by (simp add: w3'_def T_def)
  have T4: "tables w4 T = Some tb"
  proof (cases r4)
    case (Inl e4)
    from executeSQL_Inl[OF 4[unfolded Inl]] T3 show ?thesis by simp
  next
    case (Inr u)
    from executeSQL_Inr[OF 4[unfolded Inr]] obtain n where
      "effect (catalog w3') (DropTableIfExists newT) (tables w3') = Inr (tables w4, n)" by auto
    then have "tables w4 = (tables w3')(newT := None)" by simp
    then show ?thesis using T3 ne by (simp add: T_def)
  qed
  have "files w' = files w" "trace w' = trace w @ [Raw ddl, InsertOlder newT T col c, DropTableIfExists newT]"
    "logs w' = logs w3 @ [(ERROR, ''Failed to copy records, dropping new table'', []),
        (INFO, ''Executing SQL: %s'', [S (truncateSQL (sql_text (DropTableIfExists newT)) 200)])]"
    using w' f4 f3 f2 f1 by (simp_all add: w3'_def del: sql_text.simps)
  then show ?thesis using T4 w' de unfolding T_def ddl_def c_def by blast
qed



subsection \<open>Sample data\<close>

definition orders_columns :: "column list" where
  "orders_columns = [(''id'', ''int''), (''created_at'', ''datetime'')]"

definition at_time :: "int \<Rightarrow> int \<Rightarrow> int \<Rightarrow> int \<Rightarrow> int \<Rightarrow> int \<Rightarrow> time" where
  "at_time y m d h mi s = \<lparr>year = y, month = m, day = d, hour = h, minute = mi, second = s, nsec = 0\<rparr>"

text \<open>
  A world with the one table \<open>orders\<close> (columns \<open>id\<close> and \<open>created_at\<close>), the given
  rows, the given faults to come and the given later readings of the clock, which
  shows noon of 2025-10-01 first.
\<close>

definition orders_world :: "row list \<Rightarrow> bool list \<Rightarrow> time list \<Rightarrow> world" where
  "orders_world rs fs ls =
     \<lparr>tables = [''orders'' \<mapsto> \<lparr>body = plain_body, rows = rs\<rparr>],
      catalog = (\<lambda>b. orders_columns), faults = fs, trace = [], logs = [],
      now = at_time 2025 10 1 12 0 0, later = ls, rand = 0, files = Map.empty\<rparr>"

definition orders_config :: Config where
  "orders_config =
     \<lparr>Host = ''localhost'', Port = 3306, User = ''root'', Password = '''', Database = ''shop'',
      Table = ''orders'', DaysToKeep = 90, DryRun = False, ExportSQL = False, ExportCSV = False,
      ExportPath = ''./archives''\<rparr>"

definition old_row :: row where "old_row = [VInt 1, VTime (at_time 2025 1 1 8 0 0)]"
definition old_row2 :: row where "old_row2 = [VInt 4, VTime (at_time 2025 2 2 8 0 0)]"
definition recent_row :: row where "recent_row = [VInt 2, VTime (at_time 2025 9 30 8 0 0)]"
definition null_row :: row where "null_row = [VInt 3, VNil]"
definition edge_row :: row where "edge_row = [VInt 5, VTime (at_time 2025 7 3 12 0 2)]"

definition cutoff1 :: time where "cutoff1 = at_time 2025 7 3 12 0 0"
definition cutoff2 :: time where "cutoff2 = at_time 2025 7 3 12 0 5"

lemmas sample_defs = orders_columns_def at_time_def plain_body_def
  old_row_def old_row2_def recent_row_def null_row_def edge_row_def cutoff1_def cutoff2_def


text \<open>
  \<open>detectDateColumn\<close> is the query followed by \<open>chooseDateColumn\<close>.
\<close>

lemma detectDateColumn_alt:
  "detectDateColumn tableName w =
     (case QueryShowColumns tableName w of
        (Inl err, w1) \<Rightarrow> (Inl (DbError err), w1)
      | (Inr cols, w1) \<Rightarrow>
          (case chooseDateColumn (rand w1) cols of
             Some col \<Rightarrow> (Inr col, w1)
           | None \<Rightarrow> (Inl (Msg (''no suitable date column found in table '' @ tableName)), w1)))"
  by (auto simp: detectDateColumn_def chooseDateColumn_def Let_def split: prod.splits sum.splits option.splits)

text \<open>The values the sample runs compute, each evaluated on its own.\<close>

lemma leaf_suffix: "Format_compact (at_time 2025 10 1 12 0 0) = ''20251001''"
  unfolding at_time_def by code_simp

lemma leaf_cutoff1: "AddDate_days (at_time 2025 10 1 12 0 0) (- 90) = cutoff1"
  unfolding sample_defs by code_simp

lemma leaf_cutoff2: "AddDate_days (at_time 2025 10 1 12 0 5) (- 90) = cutoff2"
  unfolding sample_defs by code_simp

lemma leaf_cutoffs_differ: "cutoff1 \<noteq> cutoff2"
  unfolding sample_defs by simp

lemma leaf_ddl:
  "modifyCreateStatement (createHeader ''orders'' @ plain_body) ''orders'' ''orders_20251001'' ''20251001''
     = createHeader ''orders_20251001'' @ plain_body"
  unfolding createHeader_def plain_body_def by code_simp

lemma leaf_parse:
  "parseCreate (createHeader ''orders_20251001'' @ plain_body) = Some (''orders_20251001'', plain_body)"
  unfolding createHeader_def plain_body_def by code_simp

lemma leaf_choose: "chooseDateColumn 0 orders_columns = Some ''created_at''"
  unfolding orders_columns_def by code_simp

lemma leaf_cols: "map fst orders_columns = [''id'', ''created_at'']"
  unfolding orders_columns_def by simp

lemma leaf_old_row_cutoff1:
  "older orders_columns ''created_at'' cutoff1 old_row = True" "notOlder orders_columns ''created_at'' cutoff1 old_row = False"
  unfolding sample_defs by code_simp+

lemma leaf_old_row_cutoff2:
  "older orders_columns ''created_at'' cutoff2 old_row = True" "notOlder orders_columns ''created_at'' cutoff2 old_row = False"
  unfolding sample_defs by code_simp+

lemma leaf_old_row2_cutoff1:
  "older orders_columns ''created_at'' cutoff1 old_row2 = True" "notOlder orders_columns ''created_at'' cutoff1 old_row2 = False"
  unfolding sample_defs by code_simp+

lemma leaf_old_row2_cutoff2:
  "older orders_columns ''created_at'' cutoff2 old_row2 = True" "notOlder orders_columns ''created_at'' cutoff2 old_row2 = False"
  unfolding sample_defs by code_simp+

lemma leaf_recent_row_cutoff1:
  "older orders_columns ''created_at'' cutoff1 recent_row = False" "notOlder orders_columns ''created_at'' cutoff1 recent_row = True"
  unfolding sample_defs by code_simp+

lemma leaf_recent_row_cutoff2:
  "older orders_columns ''created_at'' cutoff2 recent_row = False" "notOlder orders_columns ''created_at'' cutoff2 recent_row = True"
  unfolding sample_defs by code_simp+

lemma leaf_null_row_cutoff1:
  "older orders_columns ''created_at'' cutoff1 null_row = False" "notOlder orders_columns ''created_at'' cutoff1 null_row = False"
  unfolding sample_defs by code_simp+

lemma leaf_null_row_cutoff2:
  "older orders_columns ''created_at'' cutoff2 null_row = False" "notOlder orders_columns ''created_at'' cutoff2 null_row = False"
  unfolding sample_defs by code_simp+

lemma leaf_edge_row_cutoff1:
  "older orders_columns ''created_at'' cutoff1 edge_row = False" "notOlder orders_columns ''created_at'' cutoff1 edge_row = True"
  unfolding sample_defs by code_simp+

lemma leaf_edge_row_cutoff2:
  "older orders_columns ''created_at'' cutoff2 edge_row = True" "notOlder orders_columns ''created_at'' cutoff2 edge_row = False"
  unfolding sample_defs by code_simp+

lemmas leafs = leaf_suffix leaf_cutoff1 leaf_cutoff2 leaf_ddl leaf_parse leaf_choose leaf_cols
  leaf_old_row_cutoff1 leaf_old_row_cutoff2 leaf_old_row2_cutoff1 leaf_old_row2_cutoff2 leaf_recent_row_cutoff1
  leaf_recent_row_cutoff2 leaf_null_row_cutoff1 leaf_null_row_cutoff2 leaf_edge_row_cutoff1 leaf_edge_row_cutoff2

lemmas run_defs = archiveTable_def cutover_def exportArchive_def getCreateTable_def countRecords_def
  detectDateColumn_alt copyOldRecords_def deleteOldRecords_def getTableCount_def executeSQL_def Exec_def
  QueryShowCreateTable_def QueryShowColumns_def QueryCount_def send_def fails_def time_Now_def
  Info_def Error_def Warning_def Let_def orders_world_def orders_config_def


lemma run_pair: "archiveTable cfg w = (fst (archiveTable cfg w), snd (archiveTable cfg w))"
  by simp

subsection \<open>The claims about the pipeline\<close>

text \<open>
  Where the error \<open>record count mismatch\<close> comes from. A run that returns it found, in
  step 5, a row count of the temporary table other than the keep-count of step 2; it
  has sent the two inspecting statements, the two count queries, the \<open>CREATE TABLE\<close>, the
  copy and the verifying count, and nothing after them.
\<close>

lemma mismatch_error_origin:
  assumes "fst (archiveTable cfg w) = Inl (Msg ''record count mismatch'')"
  shows "\<exists>tb col tmp ddl.
           tables w (Table cfg) = Some tb \<and>
           tables (snd (archiveTable cfg w)) (Table cfg) = Some tb \<and>
           tables (snd (archiveTable cfg w)) (newTableName_of cfg w) = Some tmp \<and>
           int (length (rows tmp)) \<noteq>
             int (length (filter (notOlder (catalog w (body tb)) col
                    (AddDate_days (reading 1 w) (- DaysToKeep cfg))) (rows tb))) \<and>
           files (snd (archiveTable cfg w)) = files w \<and>
           trace (snd (archiveTable cfg w)) = trace w @
             [ShowCreateTable (Table cfg), ShowColumns (Table cfg),
              CountOlder (Table cfg) col (AddDate_days (reading 1 w) (- DaysToKeep cfg)),
              CountNotOlder (Table cfg) col (AddDate_days (reading 1 w) (- DaysToKeep cfg)),
              Raw ddl,
              InsertOlder (newTableName_of cfg w) (Table cfg) col (AddDate_days (reading 2 w) (- DaysToKeep cfg)),
              CountAll (newTableName_of cfg w)]"
proof -
  define w' where "w' = snd (archiveTable cfg w)"
  have run: "archiveTable cfg w = (Inl (Msg ''record count mismatch''), w')"
    using assms by (simp add: w'_def prod_eq_iff)
  from run show ?thesis
  proof (cases rule: archiveTable_run)
    case (cut tb col w3)
    note m = cutover_mismatch[OF cut(11) _ run_names_distinct(1)]
    have "tables w3 (Table cfg) = Some tb" using cut(1,5) by simp
    from m[OF this] cut show ?thesis unfolding w'_def[symmetric] by auto
  qed simp_all
qed

definition world_mismatch :: world where
  "world_mismatch = orders_world [old_row, old_row2, recent_row] [] []"

text \<open>
  Where the error \<open>failed to copy records\<close> comes from. A run that returns it has sent
  \<open>DROP TABLE IF EXISTS\<close> for the temporary table right after the failed copy and
  nothing after it, and the error it wraps is the one of the database.
\<close>

lemma copy_error_origin:
  assumes "fst (archiveTable cfg w) = Inl (Wrap ''failed to copy records'' e)"
  shows "\<exists>tb col ddl de before.
           e = DbError de \<and>
           tables w (Table cfg) = Some tb \<and>
           tables (snd (archiveTable cfg w)) (Table cfg) = Some tb \<and>
           files (snd (archiveTable cfg w)) = files w \<and>
           trace (snd (archiveTable cfg w)) = trace w @
             [ShowCreateTable (Table cfg), ShowColumns (Table cfg),
              CountOlder (Table cfg) col (AddDate_days (reading 1 w) (- DaysToKeep cfg)),
              CountNotOlder (Table cfg) col (AddDate_days (reading 1 w) (- DaysToKeep cfg)),
              Raw ddl,
              InsertOlder (newTableName_of cfg w) (Table cfg) col (AddDate_days (reading 2 w) (- DaysToKeep cfg)),
              DropTableIfExists (newTableName_of cfg w)] \<and>
           logs (snd (archiveTable cfg w)) = before @
             [(ERROR, ''Failed to copy records, dropping new table'', []),
              (INFO, ''Executing SQL: %s'',
                 [S (truncateSQL (sql_text (DropTableIfExists (newTableName_of cfg w))) 200)])]"
proof -
  define w' where "w' = snd (archiveTable cfg w)"
  have run: "archiveTable cfg w = (Inl (Wrap ''failed to copy records'' e), w')"
    using assms by (simp add: w'_def prod_eq_iff)
  from run show ?thesis
  proof (cases rule: archiveTable_run)
    case (cut tb col w3)
    note m = cutover_copy_failed[OF cut(11) _ run_names_distinct(1)]
    have "tables w3 (Table cfg) = Some tb" using cut(1,5) by simp
    from m[OF this] cut show ?thesis unfolding w'_def[symmetric] by (auto simp del: sql_text.simps)
  qed simp_all
qed

definition world_copy_and_drop_fail :: world where
  "world_copy_and_drop_fail =
     orders_world [old_row, recent_row] [False, False, False, False, False, True, True] []"

definition world_copy_fails :: world where
  "world_copy_fails = orders_world [old_row, recent_row] [False, False, False, False, False, True] []"





declare reading.simps [simp del]

text \<open>Successful runs that changed the database\<close>

lemma archiveTable_changed:
  assumes run: "archiveTable cfg w = (Inr (), w')" and changed: "tables w' \<noteq> tables w"
  obtains tb col w3 where "tables w (Table cfg) = Some tb"
      "chooseDateColumn (rand w) (catalog w (body tb)) = Some col"
      "tables w3 = tables w" "catalog w3 = catalog w"
      "trace w3 = trace w @ [ShowCreateTable (Table cfg), ShowColumns (Table cfg),
         CountOlder (Table cfg) col (AddDate_days (reading 1 w) (- DaysToKeep cfg)),
         CountNotOlder (Table cfg) col (AddDate_days (reading 1 w) (- DaysToKeep cfg))]"
      "reading 0 w3 = reading 2 w"
      "cutover cfg (Format_compact (now w)) (newTableName_of cfg w) (archiveTableName_of cfg w)
         (createHeader (Table cfg) @ body tb)
         (int (length (filter (older (catalog w (body tb)) col
                 (AddDate_days (reading 1 w) (- DaysToKeep cfg))) (rows tb))))
         (int (length (filter (notOlder (catalog w (body tb)) col
                 (AddDate_days (reading 1 w) (- DaysToKeep cfg))) (rows tb))))
         col w3 = (Inr (), w')"
  using run
proof (cases rule: archiveTable_run)
  case (exit tb col)
  then show ?thesis using changed by simp
next
  case (cut tb col w3)
  then show ?thesis using that by blast
qed simp_all

text \<open>
  Claim C2, as amended. The cutoff is computed twice in a run: \<open>countRecords\<close> computes
  it from its own reading of the clock (the second of the run) and passes it to both
  count queries; \<open>archiveTable\<close> computes it again before the copy, from the third
  reading of the clock, and passes that value to the copy and to the delete. So the
  two count queries agree on one cutoff, the copy and the delete agree on one cutoff,
  and the two cutoffs are equal when the clock shows the same at both readings.
\<close>

theorem C2_two_cutoffs:
  assumes "fst (archiveTable cfg w) = Inr ()"
      and "tables (snd (archiveTable cfg w)) \<noteq> tables w"
  shows "\<exists>col ddl rest.
           trace (snd (archiveTable cfg w)) = trace w @
             [ShowCreateTable (Table cfg), ShowColumns (Table cfg),
              CountOlder (Table cfg) col (AddDate_days (reading 1 w) (- DaysToKeep cfg)),
              CountNotOlder (Table cfg) col (AddDate_days (reading 1 w) (- DaysToKeep cfg)),
              Raw ddl,
              InsertOlder (newTableName_of cfg w) (Table cfg) col (AddDate_days (reading 2 w) (- DaysToKeep cfg)),
              CountAll (newTableName_of cfg w),
              DeleteOlder (Table cfg) col (AddDate_days (reading 2 w) (- DaysToKeep cfg)),
              RenameTable (Table cfg) (archiveTableName_of cfg w),
              RenameTable (newTableName_of cfg w) (Table cfg)] @ rest \<and>
           list_all isExportStmt rest"
proof -
  define w' where "w' = snd (archiveTable cfg w)"
  have run: "archiveTable cfg w = (Inr (), w')" using assms(1) by (simp add: w'_def prod_eq_iff)
  from run assms(2)[folded w'_def] show ?thesis
  proof (cases rule: archiveTable_changed)
    case (1 tb col w3)
    have tb3: "tables w3 (Table cfg) = Some tb" using 1(1,3) by simp
    from cutover_Inr_general[OF 1(7) tb3 run_names_distinct(1,2)] obtain rest where
      "trace w' = trace w3 @
             [Raw (modifyCreateStatement (createHeader (Table cfg) @ body tb) (Table cfg)
                     (newTableName_of cfg w) (Format_compact (now w))),
              InsertOlder (newTableName_of cfg w) (Table cfg) col (AddDate_days (reading 0 w3) (- DaysToKeep cfg)),
              CountAll (newTableName_of cfg w),
              DeleteOlder (Table cfg) col (AddDate_days (reading 0 w3) (- DaysToKeep cfg)),
              RenameTable (Table cfg) (archiveTableName_of cfg w),
              RenameTable (newTableName_of cfg w) (Table cfg)] @ rest"
      "list_all isExportStmt rest" by blast
    then show ?thesis unfolding 1(5) 1(6) w'_def[symmetric] by (simp del: reading.simps)
  qed
qed

definition world_clock_moves :: world where
  "world_clock_moves =
     orders_world [old_row, edge_row, recent_row] []
       [at_time 2025 10 1 12 0 0, at_time 2025 10 1 12 0 5]"

lemma clock_moves_success: "fst (archiveTable orders_config world_clock_moves) = Inr ()"
  unfolding world_clock_moves_def by (simp add: run_defs leafs del: sql_text.simps)

lemma clock_moves_trace:
  "trace (snd (archiveTable orders_config world_clock_moves)) =
     [ShowCreateTable ''orders'', ShowColumns ''orders'',
      CountOlder ''orders'' ''created_at'' cutoff1,
      CountNotOlder ''orders'' ''created_at'' cutoff1,
      Raw (createHeader ''orders_20251001'' @ plain_body),
      InsertOlder ''orders_20251001'' ''orders'' ''created_at'' cutoff2,
      CountAll ''orders_20251001'',
      DeleteOlder ''orders'' ''created_at'' cutoff2,
      RenameTable ''orders'' ''orders_archive_20251001'',
      RenameTable ''orders_20251001'' ''orders'']"
  unfolding world_clock_moves_def by (simp add: run_defs leafs del: sql_text.simps)

lemma clock_moves_archive:
  "map_option rows (tables (snd (archiveTable orders_config world_clock_moves)) ''orders_archive_20251001'')
     = Some [recent_row]"
  unfolding world_clock_moves_def by (simp add: run_defs leafs del: sql_text.simps)

theorem C2_two_cutoffs_witness:
  "fst (archiveTable orders_config world_clock_moves) = Inr () \<and>
   tables (snd (archiveTable orders_config world_clock_moves)) \<noteq> tables world_clock_moves \<and>
   (\<exists>col ddl rest.
           trace (snd (archiveTable orders_config world_clock_moves)) = trace world_clock_moves @
             [ShowCreateTable (Table orders_config), ShowColumns (Table orders_config),
              CountOlder (Table orders_config) col
                (AddDate_days (reading 1 world_clock_moves) (- DaysToKeep orders_config)),
              CountNotOlder (Table orders_config) col
                (AddDate_days (reading 1 world_clock_moves) (- DaysToKeep orders_config)),
              Raw ddl,
              InsertOlder (newTableName_of orders_config world_clock_moves) (Table orders_config) col
                (AddDate_days (reading 2 world_clock_moves) (- DaysToKeep orders_config)),
              CountAll (newTableName_of orders_config world_clock_moves),
              DeleteOlder (Table orders_config) col
                (AddDate_days (reading 2 world_clock_moves) (- DaysToKeep orders_config)),
              RenameTable (Table orders_config) (archiveTableName_of orders_config world_clock_moves),
              RenameTable (newTableName_of orders_config world_clock_moves) (Table orders_config)] @ rest \<and>
           list_all isExportStmt rest)"
proof -
  have h2: "tables (snd (archiveTable orders_config world_clock_moves)) \<noteq> tables world_clock_moves"
  proof
    assume "tables (snd (archiveTable orders_config world_clock_moves)) = tables world_clock_moves"
    then have "map_option rows (tables (snd (archiveTable orders_config world_clock_moves)) ''orders_archive_20251001'')
        = map_option rows (tables world_clock_moves ''orders_archive_20251001'')" by simp
    then show False unfolding clock_moves_archive by (simp add: world_clock_moves_def orders_world_def)
  qed
  show ?thesis using clock_moves_success h2 C2_two_cutoffs[OF clock_moves_success h2] by blast
qed

text \<open>
  The claim as stated fails: in this run the clock moves on by five seconds between
  the counting and the copy, and the copy and the delete are sent with another cutoff
  than the two count queries.
\<close>

theorem C2_cutoff_computed_twice_counterexample:
  "trace (snd (archiveTable orders_config world_clock_moves)) =
     [ShowCreateTable ''orders'', ShowColumns ''orders'',
      CountOlder ''orders'' ''created_at'' cutoff1,
      CountNotOlder ''orders'' ''created_at'' cutoff1,
      Raw (createHeader ''orders_20251001'' @ plain_body),
      InsertOlder ''orders_20251001'' ''orders'' ''created_at'' cutoff2,
      CountAll ''orders_20251001'',
      DeleteOlder ''orders'' ''created_at'' cutoff2,
      RenameTable ''orders'' ''orders_archive_20251001'',
      RenameTable ''orders_20251001'' ''orders''] \<and>
   cutoff1 \<noteq> cutoff2"
  using clock_moves_trace leaf_cutoffs_differ by simp











text \<open>
  Claim C1 evaluated on the code. The table \<open>orders\<close> holds one row older than the
  cutoff and one row that is not; retention is 90 days and the clock shows
  2025-10-01. The run returns success. Afterwards the table named \<open>orders\<close> holds the old
  row, and the table named \<open>orders_archive_20251001\<close> holds the recent row: the rows
  the claim expects in the one table are in the other.
\<close>

theorem C1_archive_and_kept_rows_swapped:
  "fst (archiveTable orders_config (orders_world [old_row, recent_row] [] [])) = Inr () \<and>
   map_option rows (tables (snd (archiveTable orders_config (orders_world [old_row, recent_row] [] []))) ''orders'')
     = Some [old_row] \<and>
   map_option rows (tables (snd (archiveTable orders_config (orders_world [old_row, recent_row] [] [])))
       ''orders_archive_20251001'')
     = Some [recent_row] \<and>
   older orders_columns ''created_at'' cutoff1 old_row \<and>
   notOlder orders_columns ''created_at'' cutoff1 recent_row"
  by (simp add: run_defs leafs del: sql_text.simps)

subsection \<open>The choice of the date column\<close>

text \<open>
  A table whose date and time columns are none of the preferred names, in two worlds
  that differ in nothing but the number the runtime draws for the map iteration.
\<close>

definition events_columns :: "column list" where
  "events_columns = [(''id'', ''int''), (''event_date'', ''date''), (''expires_on'', ''datetime'')]"

definition events_world :: "nat \<Rightarrow> world" where
  "events_world r =
     \<lparr>tables = [''events'' \<mapsto> \<lparr>body = plain_body, rows = []\<rparr>],
      catalog = (\<lambda>b. events_columns), faults = [], trace = [], logs = [],
      now = at_time 2025 10 1 12 0 0, later = [], rand = r, files = Map.empty\<rparr>"

lemma leaf_events_0: "chooseDateColumn 0 events_columns = Some ''event_date''"
  unfolding events_columns_def by code_simp

lemma leaf_events_1: "chooseDateColumn (Suc 0) events_columns = Some ''expires_on''"
  unfolding events_columns_def by code_simp

text \<open>
  Claim C3 evaluated on the code. With the columns \<open>event_date\<close> (date) and
  \<open>expires_on\<close> (datetime) and no preferred name among them, \<open>detectDateColumn\<close>
  returns the key at which the iteration over the map \<open>availableColumns\<close> starts: one
  column in one invocation, the other column in another, on the same schema.
\<close>

theorem C3_choice_follows_map_order:
  "fst (detectDateColumn ''events'' (events_world 0)) = Inr ''event_date'' \<and>
   fst (detectDateColumn ''events'' (events_world 1)) = Inr ''expires_on'' \<and>
   tables (events_world 0) = tables (events_world 1) \<and>
   catalog (events_world 0) = catalog (events_world 1)"
  by (simp add: detectDateColumn_alt QueryShowColumns_def send_def fails_def events_world_def
      leaf_events_0 leaf_events_1)

text \<open>
  When a preferred name is among the date and time columns, or there is at most one
  such column, the choice does not depend on the iteration.
\<close>

lemma chooseDateColumn_preferred:
  "find (\<lambda>col. col \<in> set (collectAvailable cols [])) dateColumns = Some c \<Longrightarrow>
     chooseDateColumn r cols = Some c"
  by (simp add: chooseDateColumn_def)

lemma chooseDateColumn_single:
  "length (collectAvailable cols []) \<le> 1 \<Longrightarrow> chooseDateColumn r cols = chooseDateColumn r' cols"
proof -
  assume a: "length (collectAvailable cols []) \<le> 1"
  then have "rangeFirst r (collectAvailable cols []) = rangeFirst r' (collectAvailable cols [])"
    by (cases "collectAvailable cols []") (auto simp: rangeFirst_def)
  then show ?thesis by (simp add: chooseDateColumn_def split: option.splits)
qed

subsection \<open>The CSV export when no operation fails\<close>

lemma fails_nofault: "faults w = [] \<Longrightarrow> fails w = (False, w)"
  by (simp add: fails_def)

lemma WriteString_nofault:
  "faults w = [] \<Longrightarrow> files w f = Some c \<Longrightarrow>
     WriteString f s w = (Inr (), w\<lparr>files := (files w)(f \<mapsto> c @ s)\<rparr>)"
  by (simp add: WriteString_def fails_nofault)

lemma csvFlush_nofault: "faults w = [] \<Longrightarrow> csvFlush w = (Inr (), w)"
  by (simp add: csvFlush_def fails_nofault)

lemma QueryPage_nofault:
  "faults w = [] \<Longrightarrow> tables w t = Some tb \<Longrightarrow>
     QueryPage t limit offset w
       = (Inr (take limit (drop offset (rows tb))), w\<lparr>trace := trace w @ [SelectPage t limit offset]\<rparr>)"
  by (simp add: QueryPage_def send_def fails_def)

text \<open>The bytes the rows of a page add to the file.\<close>

definition csvLines :: "row list \<Rightarrow> string" where
  "csvLines rs = concat (map (\<lambda>r. csvRecord (map formatCSVValue r)) rs)"

lemma csvLines_simps [simp]:
  "csvLines [] = []" "csvLines (r # rs) = csvRecord (map formatCSVValue r) @ csvLines rs"
  "csvLines (xs @ ys) = csvLines xs @ csvLines ys"
  by (simp_all add: csvLines_def)

lemma csvRows_nofault:
  "faults w = [] \<Longrightarrow> \<forall>r \<in> set xs. length r = cc \<Longrightarrow> files w f = Some c \<Longrightarrow>
     csvRows f cc xs rc tr w
       = (Inr (rc + length xs, tr + length xs), w\<lparr>files := (files w)(f \<mapsto> c @ csvLines xs)\<rparr>)"
proof (induction xs arbitrary: rc tr w c)
  case Nil
  have "(files w)(f \<mapsto> c) = files w" using Nil(3) by (auto simp: fun_eq_iff)
  then show ?case by simp
next
  case (Cons x xs)
  define w1 where "w1 = w\<lparr>files := (files w)(f \<mapsto> c @ csvRecord (map formatCSVValue x))\<rparr>"
  have wr: "csvWrite f (map formatCSVValue x) w = (Inr (), w1)"
    using Cons.prems by (simp add: csvWrite_def WriteString_nofault w1_def)
  have p1: "faults w1 = []" "\<forall>r \<in> set xs. length r = cc"
    "files w1 f = Some (c @ csvRecord (map formatCSVValue x))"
    using Cons.prems by (simp_all add: w1_def)
  have fl: "csvFlush w1 = (Inr (), w1)" using p1(1) by (rule csvFlush_nofault)
  have len: "length x = cc" using Cons.prems(2) by simp
  have "csvRows f cc (x # xs) rc tr w = csvRows f cc xs (rc + 1) (tr + 1) w1"
    using wr fl len by simp
  also have "\<dots> = (Inr (rc + 1 + length xs, tr + 1 + length xs),
      w1\<lparr>files := (files w1)(f \<mapsto> (c @ csvRecord (map formatCSVValue x)) @ csvLines xs)\<rparr>)"
    by (rule Cons.IH[OF p1])
  finally have run: "csvRows f cc (x # xs) rc tr w
      = (Inr (rc + 1 + length xs, tr + 1 + length xs),
         w1\<lparr>files := (files w1)(f \<mapsto> (c @ csvRecord (map formatCSVValue x)) @ csvLines xs)\<rparr>)" .
  have "w1\<lparr>files := (files w1)(f \<mapsto> (c @ csvRecord (map formatCSVValue x)) @ csvLines xs)\<rparr>
      = w\<lparr>files := (files w)(f \<mapsto> c @ csvLines (x # xs))\<rparr>"
    by (simp add: w1_def)
  moreover have "rc + 1 + length xs = rc + length (x # xs)" "tr + 1 + length xs = tr + length (x # xs)"
    by simp_all
  ultimately show ?case using run by (simp only:)
qed

text \<open>The page queries of an export of \<open>n\<close> rows from offset \<open>off\<close> on.\<close>

definition pageQueries :: "string \<Rightarrow> nat \<Rightarrow> nat \<Rightarrow> nat \<Rightarrow> stmt list" where
  "pageQueries t sz off n = map (\<lambda>i. SelectPage t sz (off + sz * i)) [0..<n div sz + 1]"

lemma pageQueries_last: "n < sz \<Longrightarrow> pageQueries t sz off n = [SelectPage t sz off]"
  by (simp add: pageQueries_def)

lemma pageQueries_step:
  assumes "sz \<le> n" "0 < sz"
  shows "pageQueries t sz off n = SelectPage t sz off # pageQueries t sz (off + sz) (n - sz)"
proof -
  have d: "n div sz = Suc ((n - sz) div sz)" using assms by (simp add: le_div_geq)
  have "map (\<lambda>i. SelectPage t sz (off + sz * i)) [0..<Suc (Suc ((n - sz) div sz))]
      = SelectPage t sz off # map (\<lambda>i. SelectPage t sz (off + sz + sz * i)) [0..<Suc ((n - sz) div sz)]"
    by (subst upt_conv_Cons) (auto simp: map_Suc_upt[symmetric] add.assoc simp del: upt_Suc)
  then show ?thesis by (simp add: pageQueries_def d)
qed

lemma csvPages_nofault:
  "faults w = [] \<Longrightarrow> tables w t = Some tb \<Longrightarrow> \<forall>r \<in> set (rows tb). length r = cc \<Longrightarrow>
   files w f = Some c \<Longrightarrow>
     \<exists>w'. csvPages t f cc off tr w = (Inr (tr + (length (rows tb) - off)), w') \<and>
          faults w' = [] \<and> tables w' = tables w \<and>
          files w' = (files w)(f \<mapsto> c @ csvLines (drop off (rows tb))) \<and>
          trace w' = trace w @ pageQueries t 5000 off (length (rows tb) - off)"
proof (induction t f cc off tr w arbitrary: c rule: csvPages.induct)
  case (1 tableName filename columnCount offset totalRows w)
  define page where "page = take 5000 (drop offset (rows tb))"
  define w1 where "w1 = w\<lparr>trace := trace w @ [SelectPage tableName 5000 offset]\<rparr>"
  define w2 where "w2 = w1\<lparr>files := (files w1)(filename \<mapsto> c @ csvLines page)\<rparr>"
  define w3 where "w3 = (if 0 < length page
      then Info ''Exported %d rows to CSV...'' [I (int (totalRows + length page))] w2 else w2)"
  have q: "QueryPage tableName 5000 offset w = (Inr page, w1)"
    using "1.prems"(1,2) by (simp add: QueryPage_nofault page_def w1_def)
  have wfp: "\<forall>r \<in> set page. length r = columnCount"
    using "1.prems"(3) by (auto simp: page_def dest: in_set_takeD in_set_dropD)
  have "csvRows filename columnCount page 0 totalRows w1 = (Inr (0 + length page, totalRows + length page), w2)"
    unfolding w2_def by (rule csvRows_nofault) (use "1.prems" wfp in \<open>simp_all add: w1_def\<close>)
  then have r: "csvRows filename columnCount page 0 totalRows w1 = (Inr (length page, totalRows + length page), w2)"
    by simp
  have f3: "faults w3 = []" "tables w3 = tables w" "files w3 = (files w)(filename \<mapsto> c @ csvLines page)"
    "trace w3 = trace w @ [SelectPage tableName 5000 offset]"
    using "1.prems" by (simp_all add: w3_def w2_def w1_def)
  show ?case
  proof (cases "length page < 5000")
    case True
    then have pg: "page = drop offset (rows tb)" by (simp add: page_def)
    have n: "length (rows tb) - offset < 5000" using True pg by simp
    have a: "csvPages tableName filename columnCount offset totalRows w
        = (Inr (totalRows + (length (rows tb) - offset)), w3)"
      using q r True pg by (subst csvPages.simps) (simp add: w3_def)
    have d: "files w3 = (files w)(filename \<mapsto> c @ csvLines (drop offset (rows tb)))"
      using f3(3) by (simp only: pg)
    have e: "trace w3 = trace w @ pageQueries tableName 5000 offset (length (rows tb) - offset)"
      using f3(4) n by (simp add: pageQueries_last)
    from a f3(1,2) d e show ?thesis by blast
  next
    case False
    then have lp: "length page = 5000" by (simp add: page_def)
    then have n: "5000 \<le> length (rows tb) - offset" by (simp add: page_def)
    have rec: "csvPages tableName filename columnCount offset totalRows w
        = csvPages tableName filename columnCount (offset + 5000) (totalRows + length page) w3"
      using q r False by (subst csvPages.simps) (simp add: w3_def)
    have p3: "faults w3 = []" "tables w3 tableName = Some tb" "\<forall>r \<in> set (rows tb). length r = columnCount"
      "files w3 filename = Some (c @ csvLines page)"
      using f3 "1.prems" by simp_all
    from "1.IH"[OF q[symmetric] refl r[symmetric] refl refl w3_def False p3]
    obtain w' where
      x: "csvPages tableName filename columnCount (offset + 5000) (totalRows + length page) w3
            = (Inr (totalRows + length page + (length (rows tb) - (offset + 5000))), w')"
      and y: "faults w' = []" "tables w' = tables w3"
        "files w' = (files w3)(filename \<mapsto> (c @ csvLines page) @ csvLines (drop (offset + 5000) (rows tb)))"
        "trace w' = trace w3 @ pageQueries tableName 5000 (offset + 5000) (length (rows tb) - (offset + 5000))"
      by blast
    have dr: "drop offset (rows tb) = page @ drop (offset + 5000) (rows tb)"
      unfolding page_def by (metis add.commute append_take_drop_id drop_drop)
    have cl: "csvLines (drop offset (rows tb)) = csvLines page @ csvLines (drop (offset + 5000) (rows tb))"
      by (subst dr) simp
    have pq: "pageQueries tableName 5000 offset (length (rows tb) - offset)
        = SelectPage tableName 5000 offset
            # pageQueries tableName 5000 (offset + 5000) (length (rows tb) - (offset + 5000))"
      using pageQueries_step[OF n, of tableName offset] by simp
    have a: "csvPages tableName filename columnCount offset totalRows w
        = (Inr (totalRows + (length (rows tb) - offset)), w')"
      using rec x n lp by simp
    have b: "tables w' = tables w" using y(2) f3(2) by simp
    have d: "files w' = (files w)(filename \<mapsto> c @ csvLines (drop offset (rows tb)))"
      by (simp only: y(3) f3(3) fun_upd_upd append_assoc cl)
    have e: "trace w' = trace w @ pageQueries tableName 5000 offset (length (rows tb) - offset)"
      by (simp only: y(4) f3(4) pq append_assoc append.simps)
    from a y(1) b d e show ?thesis by blast
  qed
qed


lemma QueryColumnNames_nofault:
  "faults w = [] \<Longrightarrow> tables w t = Some tb \<Longrightarrow>
     QueryColumnNames t w
       = (Inr (map fst (catalog w (body tb))), w\<lparr>trace := trace w @ [SelectColumnNames t]\<rparr>)"
  by (simp add: QueryColumnNames_def send_def fails_def)

text \<open>The name of the file an export of table \<open>t\<close> started in world \<open>w\<close> writes.\<close>

definition csvFileName :: "Config \<Rightarrow> string \<Rightarrow> world \<Rightarrow> string" where
  "csvFileName config t w = ExportPath config @ ''/'' @ t @ ''_'' @ Format_stamp (now w) @ ''.csv''"

lemma exportTableToCSV_nofault:
  assumes nf: "faults w = []" and tb: "tables w t = Some tb"
    and wf: "\<forall>r \<in> set (rows tb). length r = length (catalog w (body tb))"
  shows "\<exists>w'. exportTableToCSV t config w = (Inr (), w') \<and> tables w' = tables w \<and>
           files w' (csvFileName config t w)
             = Some (csvRecord (map fst (catalog w (body tb))) @ csvLines (rows tb)) \<and>
           trace w' = trace w @ SelectColumnNames t # pageQueries t 5000 0 (length (rows tb))"
proof -
  define fn where "fn = csvFileName config t w"
  define names where "names = map fst (catalog w (body tb))"
  obtain w2 where n: "time_Now w = (now w, w2)" by (simp add: time_Now_def)
  note f2 = time_Now_frame[OF n]
  define w3 where "w3 = w2\<lparr>files := (files w2)(fn \<mapsto> [])\<rparr>"
  define w4 where "w4 = Info ''Exporting to CSV file: %s'' [S fn] w3"
  define w5 where "w5 = w4\<lparr>trace := trace w4 @ [SelectColumnNames t]\<rparr>"
  define w6 where "w6 = w5\<lparr>files := (files w5)(fn \<mapsto> [] @ csvRecord names)\<rparr>"
  have m: "MkdirAll (ExportPath config) w = (Inr (), w)"
    using nf by (simp add: MkdirAll_def fails_nofault)
  have c: "Create fn w2 = (Inr (), w3)"
    using nf f2 by (simp add: Create_def fails_nofault w3_def)
  have f4: "faults w4 = []" "tables w4 t = Some tb" "catalog w4 = catalog w"
    using nf tb f2 by (simp_all add: w4_def w3_def)
  have q: "QueryColumnNames t w4 = (Inr names, w5)"
    using QueryColumnNames_nofault[OF f4(1,2)] by (simp add: f4(3) names_def w5_def)
  have f5: "faults w5 = []" "files w5 fn = Some []"
    using f4 by (simp_all add: w5_def w4_def w3_def)
  have h: "csvWrite fn names w5 = (Inr (), w6)"
    unfolding csvWrite_def w6_def by (rule WriteString_nofault[OF f5])
  have f6: "faults w6 = []" "tables w6 t = Some tb" "\<forall>r \<in> set (rows tb). length r = length names"
    "files w6 fn = Some (csvRecord names)" "trace w6 = trace w @ [SelectColumnNames t]"
    "tables w6 = tables w"
    using f5 f4 wf f2 by (simp_all add: w6_def w5_def w4_def w3_def names_def)
  from csvPages_nofault[OF f6(1-4), of 0 0] obtain w7 where
    p: "csvPages t fn (length names) 0 0 w6 = (Inr (0 + (length (rows tb) - 0)), w7)"
    and f7: "faults w7 = []" "tables w7 = tables w6"
      "files w7 = (files w6)(fn \<mapsto> csvRecord names @ csvLines (drop 0 (rows tb)))"
      "trace w7 = trace w6 @ pageQueries t 5000 0 (length (rows tb) - 0)"
    by blast
  have fl: "csvFlush w7 = (Inr (), w7)" using f7(1) by (rule csvFlush_nofault)
  have "exportTableToCSV t config w
      = (Inr (), Info ''Successfully exported %d rows to %s'' [I (int (length (rows tb))), S fn] w7)"
    using m n c q h p fl by (simp add: exportTableToCSV_def Let_def fn_def csvFileName_def w4_def)
  moreover have "files w7 fn = Some (csvRecord names @ csvLines (rows tb))"
    by (simp add: f7(3))
  ultimately show ?thesis using f7 f6 unfolding fn_def names_def by simp
qed

subsection \<open>Line feeds in a CSV file\<close>

lemma count_list_concat: "count_list (concat xss) a = sum_list (map (\<lambda>xs. count_list xs a) xss)"
  by (induction xss) simp_all

lemma csvField_LF: "count_list (csvField field) LF = count_list field LF"
proof -
  have "count_list (concat (map (\<lambda>c. if c = dquote then [dquote, dquote] else [c]) s)) LF
      = count_list s LF" for s
    by (induction s) (simp_all add: LF_def dquote_def)
  then show ?thesis by (simp add: csvField_def LF_def dquote_def)
qed

lemma Join_comma_LF: "count_list (Join xs '','') LF = count_list (concat xs) LF"
  by (induction xs "'',''" rule: Join.induct) (simp_all add: LF_def)

lemma csvRecord_LF: "count_list (csvRecord record) LF = 1 + count_list (concat record) LF"
proof -
  have "count_list (concat (map csvField r)) LF = count_list (concat r) LF" for r
    by (induction r) (simp_all add: csvField_LF)
  then show ?thesis by (simp add: csvRecord_def Join_comma_LF)
qed

lemma csvLines_LF:
  "count_list (csvLines rs) LF
     = length rs + count_list (concat (concat (map (map formatCSVValue) rs))) LF"
  by (induction rs) (simp_all add: csvRecord_LF)

lemma csvLines_records: "csvLines rs = concat (map csvRecord (map (map formatCSVValue) rs))"
  by (simp add: csvLines_def comp_def)


lemma QueryPage_bounded: "QueryPage t limit offset w = (Inr page, w1) \<Longrightarrow> length page \<le> limit"
  by (auto dest: QueryPage_Inr)

subsection \<open>Sample data of the CSV export\<close>

definition orders_table :: table where
  "orders_table = \<lparr>body = plain_body, rows = [old_row, recent_row]\<rparr>"

text \<open>A table \<open>notes\<close> whose one row has a text of two lines in its second column.\<close>

definition notes_columns :: "column list" where
  "notes_columns = [(''id'', ''int''), (''note'', ''text'')]"

definition notes_row :: row where
  "notes_row = [VInt 7, VBytes (''first line'' @ [LF] @ ''second line'')]"

definition notes_table :: table where
  "notes_table = \<lparr>body = plain_body, rows = [notes_row]\<rparr>"

definition notes_world :: world where
  "notes_world =
     \<lparr>tables = [''notes'' \<mapsto> notes_table],
      catalog = (\<lambda>b. notes_columns), faults = [], trace = [], logs = [],
      now = at_time 2025 10 1 12 0 0, later = [], rand = 0, files = Map.empty\<rparr>"

definition notes_file :: string where
  "notes_file = ''id,note'' @ [LF] @ ''7,'' @ [dquote] @ ''first line'' @ [LF] @ ''second line'' @ [dquote] @ [LF]"

lemma leaf_stamp: "Format_stamp (at_time 2025 10 1 12 0 0) = ''20251001_120000''"
  by code_simp

lemma leaf_notes_file:
  "csvRecord (map fst notes_columns) @ csvLines [notes_row] = notes_file"
  unfolding csvLines_def by code_simp

lemma leaf_notes_lines: "count_list notes_file LF = 3"
  by code_simp

text \<open>
  Claim C9, as amended. When no operation fails and every row has a cell for every
  column of the table, \<open>exportTableToCSV\<close> returns without an error and leaves the tables
  as they were. The file it wrote holds one CSV record of the column names followed by
  one CSV record for each of the N rows of the table, every row once and in the order of
  the scan. The rows are fetched by the queries \<open>LIMIT 5000 OFFSET 0\<close>,
  \<open>LIMIT 5000 OFFSET 5000\<close>, and so on, N div 5000 + 1 queries in all, so the loop over the pages
  ends. The file has N + 1 line feeds and one more for every line feed inside a column name
  or a formatted value: it has N + 1 lines when no name and no value holds a line feed.
\<close>

theorem C9_csv_export_records:
  assumes "faults w = []" and "tables w t = Some tb"
    and "\<forall>r \<in> set (rows tb). length r = length (catalog w (body tb))"
  shows "\<exists>w' content.
           exportTableToCSV t config w = (Inr (), w') \<and> tables w' = tables w \<and>
           files w' (csvFileName config t w) = Some content \<and>
           content = concat (map csvRecord
                       (map fst (catalog w (body tb)) # map (map formatCSVValue) (rows tb))) \<and>
           trace w' = trace w @ SelectColumnNames t
                        # map (\<lambda>i. SelectPage t 5000 (5000 * i)) [0..<length (rows tb) div 5000 + 1] \<and>
           count_list content LF
             = length (rows tb) + 1
               + count_list (concat (map fst (catalog w (body tb)))) LF
               + count_list (concat (concat (map (map formatCSVValue) (rows tb)))) LF"
proof -
  from exportTableToCSV_nofault[OF assms, of config] obtain w' where
    e: "exportTableToCSV t config w = (Inr (), w')" "tables w' = tables w"
      "files w' (csvFileName config t w)
         = Some (csvRecord (map fst (catalog w (body tb))) @ csvLines (rows tb))"
      "trace w' = trace w @ SelectColumnNames t # pageQueries t 5000 0 (length (rows tb))"
    by blast
  have c: "csvRecord (map fst (catalog w (body tb))) @ csvLines (rows tb)
      = concat (map csvRecord (map fst (catalog w (body tb)) # map (map formatCSVValue) (rows tb)))"
    by (simp add: csvLines_records)
  have l: "count_list (csvRecord (map fst (catalog w (body tb))) @ csvLines (rows tb)) LF
      = length (rows tb) + 1
        + count_list (concat (map fst (catalog w (body tb)))) LF
        + count_list (concat (concat (map (map formatCSVValue) (rows tb)))) LF"
    by (simp add: csvRecord_LF csvLines_LF)
  have q: "pageQueries t 5000 0 (length (rows tb))
      = map (\<lambda>i. SelectPage t 5000 (5000 * i)) [0..<length (rows tb) div 5000 + 1]"
    by (simp add: pageQueries_def)
  from e(1,2) e(3)[unfolded c] e(4)[unfolded q] l[unfolded c] show ?thesis by blast
qed

theorem C9_csv_export_records_witness:
  "faults (orders_world [old_row, recent_row] [] []) = [] \<and>
   tables (orders_world [old_row, recent_row] [] []) ''orders'' = Some orders_table \<and>
   list_all (\<lambda>r. length r = length (catalog (orders_world [old_row, recent_row] [] []) (body orders_table)))
     (rows orders_table) \<and>
   (\<exists>w' content.
      exportTableToCSV ''orders'' orders_config (orders_world [old_row, recent_row] [] []) = (Inr (), w') \<and>
      tables w' = tables (orders_world [old_row, recent_row] [] []) \<and>
      files w' (csvFileName orders_config ''orders'' (orders_world [old_row, recent_row] [] [])) = Some content \<and>
      content = concat (map csvRecord
                  (map fst (catalog (orders_world [old_row, recent_row] [] []) (body orders_table))
                   # map (map formatCSVValue) (rows orders_table))) \<and>
      trace w' = trace (orders_world [old_row, recent_row] [] []) @ SelectColumnNames ''orders''
                   # map (\<lambda>i. SelectPage ''orders'' 5000 (5000 * i)) [0..<length (rows orders_table) div 5000 + 1] \<and>
      count_list content LF
        = length (rows orders_table) + 1
          + count_list (concat (map fst (catalog (orders_world [old_row, recent_row] [] []) (body orders_table)))) LF
          + count_list (concat (concat (map (map formatCSVValue) (rows orders_table)))) LF)"
proof -
  have h1: "faults (orders_world [old_row, recent_row] [] []) = []"
    by (simp add: orders_world_def)
  have h2: "tables (orders_world [old_row, recent_row] [] []) ''orders'' = Some orders_table"
    by (simp add: orders_world_def orders_table_def)
  have h3: "list_all (\<lambda>r. length r = length (catalog (orders_world [old_row, recent_row] [] []) (body orders_table)))
      (rows orders_table)"
    by (simp add: orders_world_def orders_table_def orders_columns_def old_row_def recent_row_def)
  show ?thesis
    using h1 h2 h3 C9_csv_export_records[OF h1 h2 h3[unfolded list_all_iff], of orders_config] by blast
qed

text \<open>
  The claim as it stands counts lines. The table \<open>notes\<close> has one row, and the export
  succeeds, but the file has three lines: the text of the row has a line feed, which the
  CSV writer keeps inside the quoted field.
\<close>

theorem C9_line_feed_in_value_counterexample:
  "fst (exportTableToCSV ''notes'' orders_config notes_world) = Inr () \<and>
   files (snd (exportTableToCSV ''notes'' orders_config notes_world))
     ''./archives/notes_20251001_120000.csv'' = Some notes_file \<and>
   count_list notes_file LF = 3 \<and>
   map_option (\<lambda>tb. length (rows tb)) (tables notes_world ''notes'') = Some 1"
proof -
  have h1: "faults notes_world = []" by (simp add: notes_world_def)
  have h2: "tables notes_world ''notes'' = Some notes_table" by (simp add: notes_world_def)
  have h3: "\<forall>r \<in> set (rows notes_table). length r = length (catalog notes_world (body notes_table))"
    by (simp add: notes_world_def notes_table_def notes_columns_def notes_row_def)
  have n: "csvFileName orders_config ''notes'' notes_world = ''./archives/notes_20251001_120000.csv''"
    by (simp add: csvFileName_def orders_config_def notes_world_def leaf_stamp)
  have c: "csvRecord (map fst (catalog notes_world (body notes_table))) @ csvLines (rows notes_table)
      = notes_file"
    using leaf_notes_file by (simp add: notes_world_def notes_table_def)
  from exportTableToCSV_nofault[OF h1 h2 h3, of orders_config] obtain w' where
    "exportTableToCSV ''notes'' orders_config notes_world = (Inr (), w')"
    "files w' (csvFileName orders_config ''notes'' notes_world)
       = Some (csvRecord (map fst (catalog notes_world (body notes_table))) @ csvLines (rows notes_table))"
    by blast
  then have "fst (exportTableToCSV ''notes'' orders_config notes_world) = Inr ()"
    "files (snd (exportTableToCSV ''notes'' orders_config notes_world))
       ''./archives/notes_20251001_120000.csv'' = Some notes_file"
    unfolding n c by simp_all
  moreover have "map_option (\<lambda>tb. length (rows tb)) (tables notes_world ''notes'') = Some 1"
    by (simp add: h2 notes_table_def)
  ultimately show ?thesis using leaf_notes_lines by blast
qed

subsection \<open>The failure paths of steps 4 and 5\<close>

text \<open>
  Steps 1 to 3 of a run, each returning without an error: the original table is there
  and untouched, no file is written, five statements are sent, and the clock has been
  read twice.
\<close>

lemma archiveTable_steps_1_to_3:
  assumes t0: "time_Now w = (t, w0)"
      and s1: "getCreateTable (Table cfg)
                 (Info ''Step 1: Retrieving CREATE TABLE statement for %s'' [S (Table cfg)] w0)
                 = (Inr createStmt, w1)"
      and s2: "countRecords cfg (Info ''Step 2: Counting records'' [] w1)
                 = (Inr (archiveCount, keepCount, dateColumn), w2)"
      and s3: "executeSQL (Raw ddl)
                 (Info ''Step 3: Creating new table %s'' [S newTableName]
                    (Info ''Records to archive: %d, Records to keep: %d'' [I archiveCount, I keepCount] w2))
                 = (Inr (), w3)"
  shows "t = now w \<and> tables w (Table cfg) \<noteq> None \<and> tables w3 (Table cfg) = tables w (Table cfg) \<and>
         files w3 = files w \<and> catalog w3 = catalog w \<and> now w3 = reading 2 w \<and>
         trace w3 = trace w @
           [ShowCreateTable (Table cfg), ShowColumns (Table cfg),
            CountOlder (Table cfg) dateColumn (AddDate_days (reading 1 w) (- DaysToKeep cfg)),
            CountNotOlder (Table cfg) dateColumn (AddDate_days (reading 1 w) (- DaysToKeep cfg)),
            Raw ddl]"
proof -
  define T where "T = Table cfg"
  define c1 where "c1 = AddDate_days (reading 1 w) (- DaysToKeep cfg)"
  note f0 = time_Now_frame[OF t0]
  have rd0: "\<forall>j. reading j w0 = reading (Suc j) w" using time_Now_reading[OF t0] by simp
  note f1 = getCreateTable_frame[OF s1]
  from getCreateTable_Inr[OF s1] f0 obtain tb where tb: "tables w T = Some tb" by (auto simp: T_def)
  note f2 = countRecords_frame[OF s2]
  have rdw1: "reading j (Info ''Step 2: Counting records'' [] w1) = reading (Suc j) w" for j
  proof -
    have "reading j (Info ''Step 2: Counting records'' [] w1) = reading j w0"
      by (rule reading_cong) (use f1 in simp_all)
    then show ?thesis using rd0 by simp
  qed
  from countRecords_Inr[OF s2] f1 f0 rdw1
  have tr2: "trace w2 = trace w @ [ShowCreateTable T, ShowColumns T, CountOlder T dateColumn c1,
                CountNotOlder T dateColumn c1]"
    and rd2: "\<forall>j. reading j w2 = reading (Suc (Suc j)) w"
    by (auto simp: T_def c1_def)
  note f3 = executeSQL_frame[OF s3]
  from executeSQL_Inr[OF s3] obtain n where
    "effect (catalog w2) (Raw ddl) (tables w2) = Inr (tables w3, n)" by auto
  from effect_Raw[OF this] obtain nm b where nmfree: "tables w2 nm = None"
    and t3: "tables w3 = (tables w2)(nm \<mapsto> \<lparr>body = b, rows = []\<rparr>)" by blast
  have t2: "tables w2 = tables w" using f2 f1 f0 by simp
  have nmT: "nm \<noteq> T" using nmfree tb t2 by auto
  have "now w3 = reading 0 w2" using f3 by (simp add: reading.simps)
  then have n3: "now w3 = reading 2 w" using rd2 by (simp add: numeral_2_eq_2)
  have "tables w3 T = tables w T" using t3 t2 nmT by simp
  moreover have "files w3 = files w" "catalog w3 = catalog w" using f3 f2 f1 f0 by simp_all
  moreover have "trace w3 = trace w @ [ShowCreateTable T, ShowColumns T, CountOlder T dateColumn c1,
                CountNotOlder T dateColumn c1, Raw ddl]"
    using f3 tr2 by simp
  ultimately show ?thesis using f0 tb n3 unfolding T_def c1_def by simp
qed

lemma temporary_name_differs: "Table cfg @ ''_'' @ suffix \<noteq> Table cfg"
proof
  assume "Table cfg @ ''_'' @ suffix = Table cfg"
  then have "length (Table cfg @ ''_'' @ suffix) = length (Table cfg)" by simp
  then show False by simp
qed

text \<open>
  Claim C4. Steps 1 to 4 return without an error, there is something to archive and the
  run is not a dry run; in step 5 the count of the temporary table is read, and it is
  another number than the keep-count of step 2. Then \<open>archiveTable\<close> returns the error
  \<open>record count mismatch\<close>. The verifying count is the last statement of the run: no
  delete, no rename, no drop and no export statement is sent, and no file is written. The
  original table is as it was before the run, and the temporary table is still there, with
  the rows that were counted.
\<close>

theorem C4_mismatch_aborts:
  assumes "time_Now w = (t, w0)"
      and "getCreateTable (Table cfg)
             (Info ''Step 1: Retrieving CREATE TABLE statement for %s'' [S (Table cfg)] w0)
             = (Inr createStmt, w1)"
      and "countRecords cfg (Info ''Step 2: Counting records'' [] w1)
             = (Inr (archiveCount, keepCount, dateColumn), w2)"
      and "archiveCount \<noteq> 0" and "\<not> DryRun cfg"
      and "newTableName = Table cfg @ ''_'' @ Format_compact t"
      and "executeSQL (Raw (modifyCreateStatement createStmt (Table cfg) newTableName (Format_compact t)))
             (Info ''Step 3: Creating new table %s'' [S newTableName]
                (Info ''Records to archive: %d, Records to keep: %d'' [I archiveCount, I keepCount] w2))
             = (Inr (), w3)"
      and "time_Now (Info ''Step 4: Copying old records to %s'' [S newTableName] w3) = (t', w4)"
      and "copyOldRecords (Table cfg) newTableName dateColumn (AddDate_days t' (- DaysToKeep cfg)) w4
             = (Inr (), w5)"
      and "getTableCount newTableName (Info ''Step 5: Verifying copied records'' [] w5)
             = (Inr copiedCount, w6)"
      and "copiedCount \<noteq> keepCount"
  shows "fst (archiveTable cfg w) = Inl (Msg ''record count mismatch'') \<and>
         trace (snd (archiveTable cfg w)) = trace w @
           [ShowCreateTable (Table cfg), ShowColumns (Table cfg),
            CountOlder (Table cfg) dateColumn (AddDate_days (reading 1 w) (- DaysToKeep cfg)),
            CountNotOlder (Table cfg) dateColumn (AddDate_days (reading 1 w) (- DaysToKeep cfg)),
            Raw (modifyCreateStatement createStmt (Table cfg) newTableName (Format_compact t)),
            InsertOlder newTableName (Table cfg) dateColumn (AddDate_days (reading 2 w) (- DaysToKeep cfg)),
            CountAll newTableName] \<and>
         tables w (Table cfg) \<noteq> None \<and>
         tables (snd (archiveTable cfg w)) (Table cfg) = tables w (Table cfg) \<and>
         (\<exists>tmp. tables (snd (archiveTable cfg w)) newTableName = Some tmp \<and>
                int (length (rows tmp)) = copiedCount) \<and>
         files (snd (archiveTable cfg w)) = files w"
proof -
  note t0 = assms(1) and s1 = assms(2) and s2 = assms(3) and nz = assms(4) and live = assms(5)
    and nm = assms(6) and s3 = assms(7) and t4 = assms(8) and s4 = assms(9) and s5 = assms(10)
    and ne = assms(11)
  define T where "T = Table cfg"
  define ddl where "ddl = modifyCreateStatement createStmt T newTableName (Format_compact t)"
  define w' where "w' = Error ''Record count mismatch! Expected: %d, Got: %d''
      [I archiveCount, I copiedCount] w6"
  have run: "archiveTable cfg w = (Inl (Msg ''record count mismatch''), w')"
    using t0 s1 s2 nz live s3[unfolded nm] t4[unfolded nm] s4[unfolded nm] s5[unfolded nm] ne
    by (simp add: archiveTable_def cutover_def Let_def w'_def)
  from archiveTable_steps_1_to_3[OF t0 s1 s2 s3]
  have p: "tables w T \<noteq> None" "tables w3 T = tables w T" "files w3 = files w" "now w3 = reading 2 w"
    "trace w3 = trace w @
           [ShowCreateTable T, ShowColumns T,
            CountOlder T dateColumn (AddDate_days (reading 1 w) (- DaysToKeep cfg)),
            CountNotOlder T dateColumn (AddDate_days (reading 1 w) (- DaysToKeep cfg)),
            Raw ddl]"
    by (simp_all add: T_def ddl_def)
  note f4 = time_Now_frame[OF t4]
  have t': "t' = reading 2 w" using f4 p(4) by simp
  note f5 = copyOldRecords_frame[OF s4]
  from copyOldRecords_Inr[OF s4] obtain n5 where
    "effect (catalog w4) (InsertOlder newTableName (Table cfg) dateColumn (AddDate_days t' (- DaysToKeep cfg)))
       (tables w4) = Inr (tables w5, n5)" by auto
  from effect_InsertOlder[OF this] obtain s d where
    "tables w4 (Table cfg) = Some s" and "tables w4 newTableName = Some d" and
    t5: "tables w5 = (tables w4)(newTableName \<mapsto>
           d\<lparr>rows := rows d @ filter (older (catalog w4 (body s)) dateColumn
                                    (AddDate_days t' (- DaysToKeep cfg))) (rows s)\<rparr>)"
    by blast
  have neq: "newTableName \<noteq> T" unfolding nm T_def by (rule temporary_name_differs)
  have T5: "tables w5 T = tables w T" using t5 neq f4 p(2) by simp
  note f6 = getTableCount_frame[OF s5]
  from getTableCount_Inr[OF s5] obtain tmp where tmp: "tables w5 newTableName = Some tmp"
    and copied: "copiedCount = int (length (rows tmp))" by auto
  have "tables w' = tables w5" "files w' = files w"
    "trace w' = trace w3 @ [InsertOlder newTableName T dateColumn (AddDate_days (reading 2 w) (- DaysToKeep cfg)),
                            CountAll newTableName]"
    using f6 f5 f4 p(3) t' by (simp_all add: w'_def T_def)
  then show ?thesis using run p(1,5) T5 tmp copied unfolding T_def ddl_def by simp
qed

theorem C4_mismatch_aborts_witness:
  "fst (archiveTable orders_config world_mismatch) = Inl (Msg ''record count mismatch'') \<and>
   trace (snd (archiveTable orders_config world_mismatch)) = trace world_mismatch @
     [ShowCreateTable (Table orders_config), ShowColumns (Table orders_config),
      CountOlder (Table orders_config) ''created_at''
        (AddDate_days (reading 1 world_mismatch) (- DaysToKeep orders_config)),
      CountNotOlder (Table orders_config) ''created_at''
        (AddDate_days (reading 1 world_mismatch) (- DaysToKeep orders_config)),
      Raw (modifyCreateStatement (createHeader ''orders'' @ plain_body) (Table orders_config)
             ''orders_20251001'' (Format_compact (at_time 2025 10 1 12 0 0))),
      InsertOlder ''orders_20251001'' (Table orders_config) ''created_at''
        (AddDate_days (reading 2 world_mismatch) (- DaysToKeep orders_config)),
      CountAll ''orders_20251001''] \<and>
   tables world_mismatch (Table orders_config) \<noteq> None \<and>
   tables (snd (archiveTable orders_config world_mismatch)) (Table orders_config)
     = tables world_mismatch (Table orders_config) \<and>
   (\<exists>tmp. tables (snd (archiveTable orders_config world_mismatch)) ''orders_20251001'' = Some tmp \<and>
          int (length (rows tmp)) = 2) \<and>
   files (snd (archiveTable orders_config world_mismatch)) = files world_mismatch"
proof -
  define w0 where "w0 = snd (time_Now world_mismatch)"
  define r1 where "r1 = getCreateTable (Table orders_config)
      (Info ''Step 1: Retrieving CREATE TABLE statement for %s'' [S (Table orders_config)] w0)"
  define r2 where "r2 = countRecords orders_config (Info ''Step 2: Counting records'' [] (snd r1))"
  define r3 where "r3 = executeSQL
      (Raw (modifyCreateStatement (createHeader ''orders'' @ plain_body) (Table orders_config)
              ''orders_20251001'' (Format_compact (at_time 2025 10 1 12 0 0))))
      (Info ''Step 3: Creating new table %s'' [S ''orders_20251001'']
         (Info ''Records to archive: %d, Records to keep: %d'' [I 2, I 1] (snd r2)))"
  define r4 where "r4 = time_Now (Info ''Step 4: Copying old records to %s'' [S ''orders_20251001''] (snd r3))"
  define r5 where "r5 = copyOldRecords (Table orders_config) ''orders_20251001'' ''created_at''
      (AddDate_days (at_time 2025 10 1 12 0 0) (- DaysToKeep orders_config)) (snd r4)"
  note unfold = r5_def r4_def r3_def r2_def r1_def w0_def world_mismatch_def run_defs leafs
  have t0: "time_Now world_mismatch = (at_time 2025 10 1 12 0 0, w0)"
    by (simp add: w0_def world_mismatch_def time_Now_def orders_world_def)
  have "fst r1 = Inr (createHeader ''orders'' @ plain_body)"
    by (simp add: r1_def w0_def world_mismatch_def run_defs)
  then have s1: "getCreateTable (Table orders_config)
      (Info ''Step 1: Retrieving CREATE TABLE statement for %s'' [S (Table orders_config)] w0)
      = (Inr (createHeader ''orders'' @ plain_body), snd r1)"
    unfolding r1_def[symmetric] by (simp add: prod_eq_iff)
  have "fst r2 = Inr (2, 1, ''created_at'')"
    by (simp add: r2_def r1_def w0_def world_mismatch_def run_defs leafs del: sql_text.simps)
  then have s2: "countRecords orders_config (Info ''Step 2: Counting records'' [] (snd r1))
      = (Inr (2, 1, ''created_at''), snd r2)"
    unfolding r2_def[symmetric] by (simp add: prod_eq_iff)
  have nz: "(2::int) \<noteq> 0" by simp
  have live: "\<not> DryRun orders_config" by (simp add: orders_config_def)
  have nm: "''orders_20251001'' = Table orders_config @ ''_'' @ Format_compact (at_time 2025 10 1 12 0 0)"
    by (simp add: orders_config_def leaf_suffix)
  have "fst r3 = Inr ()"
    by (simp add: r3_def r2_def r1_def w0_def world_mismatch_def run_defs leafs del: sql_text.simps)
  then have s3: "executeSQL
      (Raw (modifyCreateStatement (createHeader ''orders'' @ plain_body) (Table orders_config)
              ''orders_20251001'' (Format_compact (at_time 2025 10 1 12 0 0))))
      (Info ''Step 3: Creating new table %s'' [S ''orders_20251001'']
         (Info ''Records to archive: %d, Records to keep: %d'' [I 2, I 1] (snd r2)))
      = (Inr (), snd r3)"
    unfolding r3_def[symmetric] by (simp add: prod_eq_iff)
  have "fst r4 = at_time 2025 10 1 12 0 0"
    by (simp add: r4_def r3_def r2_def r1_def w0_def world_mismatch_def run_defs leafs del: sql_text.simps)
  then have t4: "time_Now (Info ''Step 4: Copying old records to %s'' [S ''orders_20251001''] (snd r3))
      = (at_time 2025 10 1 12 0 0, snd r4)"
    unfolding r4_def[symmetric] by (simp add: prod_eq_iff)
  define r6 where "r6 = getTableCount ''orders_20251001'' (Info ''Step 5: Verifying copied records'' [] (snd r5))"
  have "fst r5 = Inr ()"
    by (simp add: unfold del: sql_text.simps)
  then have s4: "copyOldRecords (Table orders_config) ''orders_20251001'' ''created_at''
      (AddDate_days (at_time 2025 10 1 12 0 0) (- DaysToKeep orders_config)) (snd r4) = (Inr (), snd r5)"
    unfolding r5_def[symmetric] by (simp add: prod_eq_iff)
  have "fst r6 = Inr 2"
    by (simp add: r6_def unfold del: sql_text.simps)
  then have s5: "getTableCount ''orders_20251001'' (Info ''Step 5: Verifying copied records'' [] (snd r5))
      = (Inr 2, snd r6)"
    unfolding r6_def[symmetric] by (simp add: prod_eq_iff)
  have ne: "(2::int) \<noteq> 1" by simp
  show ?thesis by (rule C4_mismatch_aborts[OF t0 s1 s2 nz live nm s3 t4 s4 s5 ne])
qed

text \<open>
  Claim C5, as amended. Steps 1 to 3 return without an error, there is something to
  archive and the run is not a dry run; in step 4 \<open>copyOldRecords\<close> returns an error. Then
  \<open>archiveTable\<close> sends \<open>DROP TABLE IF EXISTS\<close> for the temporary table as its last
  statement and returns the error of the copy, wrapped as \<open>failed to copy records\<close>. The
  original table is as it was before the run and no file is written. After the copy, the
  log receives the announcement of the drop and the line \<open>Executing SQL\<close> for it, and
  nothing else: whether the drop itself failed is written nowhere and changes nothing in
  what is returned.
\<close>

theorem C5_copy_failure_compensated:
  assumes "time_Now w = (t, w0)"
      and "getCreateTable (Table cfg)
             (Info ''Step 1: Retrieving CREATE TABLE statement for %s'' [S (Table cfg)] w0)
             = (Inr createStmt, w1)"
      and "countRecords cfg (Info ''Step 2: Counting records'' [] w1)
             = (Inr (archiveCount, keepCount, dateColumn), w2)"
      and "archiveCount \<noteq> 0" and "\<not> DryRun cfg"
      and "newTableName = Table cfg @ ''_'' @ Format_compact t"
      and "executeSQL (Raw (modifyCreateStatement createStmt (Table cfg) newTableName (Format_compact t)))
             (Info ''Step 3: Creating new table %s'' [S newTableName]
                (Info ''Records to archive: %d, Records to keep: %d'' [I archiveCount, I keepCount] w2))
             = (Inr (), w3)"
      and "time_Now (Info ''Step 4: Copying old records to %s'' [S newTableName] w3) = (t', w4)"
      and "copyOldRecords (Table cfg) newTableName dateColumn (AddDate_days t' (- DaysToKeep cfg)) w4
             = (Inl err, w5)"
  shows "fst (archiveTable cfg w) = Inl (Wrap ''failed to copy records'' err) \<and>
         trace (snd (archiveTable cfg w)) = trace w @
           [ShowCreateTable (Table cfg), ShowColumns (Table cfg),
            CountOlder (Table cfg) dateColumn (AddDate_days (reading 1 w) (- DaysToKeep cfg)),
            CountNotOlder (Table cfg) dateColumn (AddDate_days (reading 1 w) (- DaysToKeep cfg)),
            Raw (modifyCreateStatement createStmt (Table cfg) newTableName (Format_compact t)),
            InsertOlder newTableName (Table cfg) dateColumn (AddDate_days (reading 2 w) (- DaysToKeep cfg)),
            DropTableIfExists newTableName] \<and>
         tables w (Table cfg) \<noteq> None \<and>
         tables (snd (archiveTable cfg w)) (Table cfg) = tables w (Table cfg) \<and>
         files (snd (archiveTable cfg w)) = files w \<and>
         logs (snd (archiveTable cfg w)) = logs w5 @
           [(ERROR, ''Failed to copy records, dropping new table'', []),
            (INFO, ''Executing SQL: %s'', [S (truncateSQL (sql_text (DropTableIfExists newTableName)) 200)])]"
proof -
  note t0 = assms(1) and s1 = assms(2) and s2 = assms(3) and nz = assms(4) and live = assms(5)
    and nm = assms(6) and s3 = assms(7) and t4 = assms(8) and s4 = assms(9)
  define T where "T = Table cfg"
  define ddl where "ddl = modifyCreateStatement createStmt T newTableName (Format_compact t)"
  define w5' where "w5' = Error ''Failed to copy records, dropping new table'' [] w5"
  obtain r6 w6 where 6: "executeSQL (DropTableIfExists newTableName) w5' = (r6, w6)"
    by (cases "executeSQL (DropTableIfExists newTableName) w5'")
  have run: "archiveTable cfg w = (Inl (Wrap ''failed to copy records'' err), w6)"
    using t0 s1 s2 nz live s3[unfolded nm] t4[unfolded nm] s4[unfolded nm] 6[unfolded nm w5'_def]
    by (simp add: archiveTable_def cutover_def Let_def del: sql_text.simps)
  from archiveTable_steps_1_to_3[OF t0 s1 s2 s3]
  have p: "tables w T \<noteq> None" "tables w3 T = tables w T" "files w3 = files w" "now w3 = reading 2 w"
    "trace w3 = trace w @
           [ShowCreateTable T, ShowColumns T,
            CountOlder T dateColumn (AddDate_days (reading 1 w) (- DaysToKeep cfg)),
            CountNotOlder T dateColumn (AddDate_days (reading 1 w) (- DaysToKeep cfg)),
            Raw ddl]"
    by (simp_all add: T_def ddl_def)
  note f4 = time_Now_frame[OF t4]
  have t': "t' = reading 2 w" using f4 p(4) by simp
  note f5 = copyOldRecords_frame[OF s4]
  note i5 = copyOldRecords_Inl[OF s4]
  have neq: "newTableName \<noteq> T" unfolding nm T_def by (rule temporary_name_differs)
  have T5: "tables w5' T = tables w T" using i5 f4 p(2) by (simp add: w5'_def)
  note f6 = executeSQL_frame[OF 6]
  have T6: "tables w6 T = tables w T"
  proof (cases r6)
    case (Inl e6)
    from executeSQL_Inl[OF 6[unfolded Inl]] T5 show ?thesis by simp
  next
    case (Inr u)
    from executeSQL_Inr[OF 6[unfolded Inr]] obtain n where
      "effect (catalog w5') (DropTableIfExists newTableName) (tables w5') = Inr (tables w6, n)" by auto
    then have "tables w6 = (tables w5')(newTableName := None)" by simp
    then show ?thesis using T5 neq by simp
  qed
  have "files w6 = files w"
    "trace w6 = trace w3 @ [InsertOlder newTableName T dateColumn (AddDate_days (reading 2 w) (- DaysToKeep cfg)),
                            DropTableIfExists newTableName]"
    "logs w6 = logs w5 @ [(ERROR, ''Failed to copy records, dropping new table'', []),
        (INFO, ''Executing SQL: %s'', [S (truncateSQL (sql_text (DropTableIfExists newTableName)) 200)])]"
    using f6 f5 f4 p(3) t' by (simp_all add: w5'_def T_def del: sql_text.simps)
  then show ?thesis using run p(1,5) T6 unfolding T_def ddl_def by (simp del: sql_text.simps)
qed


theorem C5_copy_failure_compensated_witness:
  "fst (archiveTable orders_config world_copy_and_drop_fail)
     = Inl (Wrap ''failed to copy records'' (DbError EngineFailure)) \<and>
   trace (snd (archiveTable orders_config world_copy_and_drop_fail)) = trace world_copy_and_drop_fail @
     [ShowCreateTable (Table orders_config), ShowColumns (Table orders_config),
      CountOlder (Table orders_config) ''created_at''
        (AddDate_days (reading 1 world_copy_and_drop_fail) (- DaysToKeep orders_config)),
      CountNotOlder (Table orders_config) ''created_at''
        (AddDate_days (reading 1 world_copy_and_drop_fail) (- DaysToKeep orders_config)),
      Raw (modifyCreateStatement (createHeader ''orders'' @ plain_body) (Table orders_config)
             ''orders_20251001'' (Format_compact (at_time 2025 10 1 12 0 0))),
      InsertOlder ''orders_20251001'' (Table orders_config) ''created_at''
        (AddDate_days (reading 2 world_copy_and_drop_fail) (- DaysToKeep orders_config)),
      DropTableIfExists ''orders_20251001''] \<and>
   tables world_copy_and_drop_fail (Table orders_config) \<noteq> None \<and>
   tables (snd (archiveTable orders_config world_copy_and_drop_fail)) (Table orders_config)
     = tables world_copy_and_drop_fail (Table orders_config) \<and>
   files (snd (archiveTable orders_config world_copy_and_drop_fail)) = files world_copy_and_drop_fail \<and>
   (\<exists>before. logs (snd (archiveTable orders_config world_copy_and_drop_fail)) = before @
      [(ERROR, ''Failed to copy records, dropping new table'', []),
       (INFO, ''Executing SQL: %s'', [S (truncateSQL (sql_text (DropTableIfExists ''orders_20251001'')) 200)])])"
proof -
  define w0 where "w0 = snd (time_Now world_copy_and_drop_fail)"
  define r1 where "r1 = getCreateTable (Table orders_config)
      (Info ''Step 1: Retrieving CREATE TABLE statement for %s'' [S (Table orders_config)] w0)"
  define r2 where "r2 = countRecords orders_config (Info ''Step 2: Counting records'' [] (snd r1))"
  define r3 where "r3 = executeSQL
      (Raw (modifyCreateStatement (createHeader ''orders'' @ plain_body) (Table orders_config)
              ''orders_20251001'' (Format_compact (at_time 2025 10 1 12 0 0))))
      (Info ''Step 3: Creating new table %s'' [S ''orders_20251001'']
         (Info ''Records to archive: %d, Records to keep: %d'' [I 1, I 1] (snd r2)))"
  define r4 where "r4 = time_Now (Info ''Step 4: Copying old records to %s'' [S ''orders_20251001''] (snd r3))"
  define r5 where "r5 = copyOldRecords (Table orders_config) ''orders_20251001'' ''created_at''
      (AddDate_days (at_time 2025 10 1 12 0 0) (- DaysToKeep orders_config)) (snd r4)"
  note unfold = r5_def r4_def r3_def r2_def r1_def w0_def world_copy_and_drop_fail_def run_defs leafs
  have t0: "time_Now world_copy_and_drop_fail = (at_time 2025 10 1 12 0 0, w0)"
    by (simp add: w0_def world_copy_and_drop_fail_def time_Now_def orders_world_def)
  have "fst r1 = Inr (createHeader ''orders'' @ plain_body)"
    by (simp add: r1_def w0_def world_copy_and_drop_fail_def run_defs)
  then have s1: "getCreateTable (Table orders_config)
      (Info ''Step 1: Retrieving CREATE TABLE statement for %s'' [S (Table orders_config)] w0)
      = (Inr (createHeader ''orders'' @ plain_body), snd r1)"
    unfolding r1_def[symmetric] by (simp add: prod_eq_iff)
  have "fst r2 = Inr (1, 1, ''created_at'')"
    by (simp add: r2_def r1_def w0_def world_copy_and_drop_fail_def run_defs leafs del: sql_text.simps)
  then have s2: "countRecords orders_config (Info ''Step 2: Counting records'' [] (snd r1))
      = (Inr (1, 1, ''created_at''), snd r2)"
    unfolding r2_def[symmetric] by (simp add: prod_eq_iff)
  have nz: "(1::int) \<noteq> 0" by simp
  have live: "\<not> DryRun orders_config" by (simp add: orders_config_def)
  have nm: "''orders_20251001'' = Table orders_config @ ''_'' @ Format_compact (at_time 2025 10 1 12 0 0)"
    by (simp add: orders_config_def leaf_suffix)
  have "fst r3 = Inr ()"
    by (simp add: r3_def r2_def r1_def w0_def world_copy_and_drop_fail_def run_defs leafs del: sql_text.simps)
  then have s3: "executeSQL
      (Raw (modifyCreateStatement (createHeader ''orders'' @ plain_body) (Table orders_config)
              ''orders_20251001'' (Format_compact (at_time 2025 10 1 12 0 0))))
      (Info ''Step 3: Creating new table %s'' [S ''orders_20251001'']
         (Info ''Records to archive: %d, Records to keep: %d'' [I 1, I 1] (snd r2)))
      = (Inr (), snd r3)"
    unfolding r3_def[symmetric] by (simp add: prod_eq_iff)
  have "fst r4 = at_time 2025 10 1 12 0 0"
    by (simp add: r4_def r3_def r2_def r1_def w0_def world_copy_and_drop_fail_def run_defs leafs del: sql_text.simps)
  then have t4: "time_Now (Info ''Step 4: Copying old records to %s'' [S ''orders_20251001''] (snd r3))
      = (at_time 2025 10 1 12 0 0, snd r4)"
    unfolding r4_def[symmetric] by (simp add: prod_eq_iff)
  have "fst r5 = Inl (DbError EngineFailure)"
    by (simp add: unfold del: sql_text.simps)
  then have s4: "copyOldRecords (Table orders_config) ''orders_20251001'' ''created_at''
      (AddDate_days (at_time 2025 10 1 12 0 0) (- DaysToKeep orders_config)) (snd r4)
      = (Inl (DbError EngineFailure), snd r5)"
    unfolding r5_def[symmetric] by (simp add: prod_eq_iff)
  from C5_copy_failure_compensated[OF t0 s1 s2 nz live nm s3 t4 s4] show ?thesis by blast
qed

text \<open>
  The claim as stated fails where it says that a failure of the drop is logged: two
  runs in which the copy fails, the drop failing in the first and succeeding in the
  second, return the same error and write the same log, although the first leaves the
  temporary table behind and the second does not.
\<close>

theorem C5_drop_failure_not_logged_counterexample:
  "fst (archiveTable orders_config world_copy_and_drop_fail)
     = Inl (Wrap ''failed to copy records'' (DbError EngineFailure)) \<and>
   fst (archiveTable orders_config world_copy_fails)
     = Inl (Wrap ''failed to copy records'' (DbError EngineFailure)) \<and>
   tables (snd (archiveTable orders_config world_copy_and_drop_fail)) ''orders_20251001''
     = Some \<lparr>body = plain_body, rows = []\<rparr> \<and>
   tables (snd (archiveTable orders_config world_copy_fails)) ''orders_20251001'' = None \<and>
   logs (snd (archiveTable orders_config world_copy_and_drop_fail))
     = logs (snd (archiveTable orders_config world_copy_fails))"
  unfolding world_copy_and_drop_fail_def world_copy_fails_def
  by (simp add: run_defs leafs del: sql_text.simps)

end
